(* ===== verification/Prelude.thy ===== *)
theory Prelude
  imports Main "HOL-Library.Word"
begin

text \<open>
  Shared vocabulary of the development: the collections of rewrite rules, the result
  type of fallible code, the generic facts on lists the component theories use.

  A JavaScript function that may throw returns a sum, \<open>Inl\<close> the thrown error and
  \<open>Inr\<close> the value. A repository call that reads a table row is \<^const>\<open>List.find\<close>
  on the list of rows; a call that writes rows maps over that list.
\<close>

named_theorems row_simps \<open>rewrite rules for table rows\<close>
named_theorems step_intros \<open>introduction rules for invariant preservation\<close>

subsection \<open>Results\<close>

definition rbind :: "'e + 'a \<Rightarrow> ('a \<Rightarrow> 'e + 'b) \<Rightarrow> 'e + 'b" where
  "rbind m f = (case m of Inl e \<Rightarrow> Inl e | Inr x \<Rightarrow> f x)"

lemma rbind_simps [simp]:
  "rbind (Inl e) f = Inl e"
  "rbind (Inr x) f = f x"
  by (simp_all add: rbind_def)

lemma rbind_eq_Inr: "rbind m f = Inr y \<longleftrightarrow> (\<exists>x. m = Inr x \<and> f x = Inr y)"
  by (cases m) simp_all

lemma rbind_eq_Inl: "rbind m f = Inl e \<longleftrightarrow> m = Inl e \<or> (\<exists>x. m = Inr x \<and> f x = Inl e)"
  by (cases m) simp_all

subsection \<open>JavaScript values\<close>

text \<open>
  \<open>a || b\<close> on an optional string: the empty string and \<open>undefined\<close> are falsy.
\<close>

definition truthy :: "string option \<Rightarrow> bool" where
  "truthy v = (case v of None \<Rightarrow> False | Some s \<Rightarrow> s \<noteq> '''')"

definition js_or :: "string option \<Rightarrow> string option \<Rightarrow> string option" where
  "js_or a b = (if truthy a then a else b)"

definition or_else :: "string option \<Rightarrow> string \<Rightarrow> string" where
  "or_else a d = (if truthy a then the a else d)"

lemma truthy_simps [simp]:
  "\<not> truthy None" "\<not> truthy (Some '''')" "truthy (Some (c # s))"
  by (simp_all add: truthy_def)

text \<open>\<open>xs.findIndex(P)\<close>, and the array cut to its last \<open>n\<close> elements by shifting.\<close>

fun find_index :: "('a \<Rightarrow> bool) \<Rightarrow> 'a list \<Rightarrow> nat option" where
  "find_index P [] = None"
| "find_index P (x # xs) = (if P x then Some 0 else map_option Suc (find_index P xs))"

definition lastn :: "nat \<Rightarrow> 'a list \<Rightarrow> 'a list" where
  "lastn n xs = drop (length xs - n) xs"

lemma find_index_first:
  "(\<forall>x \<in> set xs. \<not> P x) \<Longrightarrow> P y \<Longrightarrow> find_index P (xs @ y # ys) = Some (length xs)"
  by (induction xs) auto

lemma find_index_None: "find_index P xs = None \<longleftrightarrow> (\<forall>x \<in> set xs. \<not> P x)"
  by (induction xs) auto

lemma length_lastn [simp]: "length (lastn n xs) = min n (length xs)"
  by (simp add: lastn_def)

lemma set_lastn: "set (lastn n xs) \<subseteq> set xs"
  by (simp add: lastn_def set_drop_subset)

lemma lastn_lastn: "n \<le> m \<Longrightarrow> lastn n (lastn m xs) = lastn n xs"
  by (cases "length xs \<le> m") (simp_all add: lastn_def)

lemma lastn_snoc: "lastn n (lastn n xs @ [x]) = lastn n (xs @ [x])"
proof (cases "length xs \<le> n")
  case False
  then have "length (drop (length xs - n) xs @ [x]) - n = Suc 0" by simp
  moreover have "Suc (length xs) - n = Suc (length xs - n)" using False by simp
  ultimately show ?thesis using False by (simp add: lastn_def drop_Suc drop_tl tl_append split: list.split)
qed (simp add: lastn_def)

text \<open>\<open>xs.push(x)\<close>, and the oldest element dropped when there are more than \<open>n\<close>.\<close>

definition push_bounded :: "nat \<Rightarrow> 'a \<Rightarrow> 'a list \<Rightarrow> 'a list" where
  "push_bounded n x xs = (let ys = xs @ [x] in if length ys > n then tl ys else ys)"

lemma push_bounded_lastn: "length xs \<le> n \<Longrightarrow> push_bounded n x xs = lastn n (xs @ [x])"
  by (cases "length xs = n") (simp_all add: push_bounded_def Let_def lastn_def drop_Suc drop_0 del: drop_append)

lemma push_bounded_length: "length xs \<le> n \<Longrightarrow> length (push_bounded n x xs) \<le> n"
  by (simp add: push_bounded_lastn)

lemma set_push_bounded: "set (push_bounded n x xs) \<subseteq> insert x (set xs)"
  by (auto simp: push_bounded_def Let_def tl_append split: list.splits if_splits)

text \<open>\<open>Math.ceil(ms / 1000)\<close>\<close>

definition ceil_seconds :: "int \<Rightarrow> int" where
  "ceil_seconds ms = - ((- ms) div 1000)"

lemma ceil_seconds_bounds: "x \<le> ceil_seconds x * 1000" "ceil_seconds x * 1000 < x + 1000"
  by (simp_all add: ceil_seconds_def)

text \<open>A number in a template string.\<close>

definition digit :: "nat \<Rightarrow> string" where "digit n = [char_of (48 + n mod 10)]"

fun show_nat :: "nat \<Rightarrow> string" where
  "show_nat n = (if n < 10 then digit n else show_nat (n div 10) @ digit n)"

declare show_nat.simps [simp del]

subsection \<open>Tables as lists of rows\<close>

lemma find_SomeD: "List.find P xs = Some x \<Longrightarrow> x \<in> set xs \<and> P x"
  by (induction xs) (auto split: if_splits)

lemma find_NoneD: "List.find P xs = None \<Longrightarrow> x \<in> set xs \<Longrightarrow> \<not> P x"
  by (induction xs) (auto split: if_splits)

lemma find_distinct:
  assumes "distinct (map f xs)" and "x \<in> set xs" and "f x = k"
  shows "List.find (\<lambda>y. f y = k) xs = Some x"
  using assms by (induction xs) auto

lemma find_filter_conj: "List.find P (filter Q xs) = List.find (\<lambda>x. Q x \<and> P x) xs"
  by (induction xs) auto

lemma find_append: "List.find P (xs @ ys) =
    (case List.find P xs of None \<Rightarrow> List.find P ys | Some x \<Rightarrow> Some x)"
  by (induction xs) auto

lemma find_map_key:
  assumes "\<And>x. P (g x) = P x"
  shows "List.find P (map g xs) = map_option g (List.find P xs)"
  by (induction xs) (auto simp: assms)

lemma distinct_map_eq:
  "distinct (map f xs) \<Longrightarrow> x \<in> set xs \<Longrightarrow> y \<in> set xs \<Longrightarrow> f x = f y \<Longrightarrow> x = y"
  by (auto simp: distinct_map dest: inj_onD)

text \<open>A sum over a table in which one row is replaced by another with the same key.\<close>

lemma sum_list_update_key:
  fixes v :: "'r \<Rightarrow> int"
  assumes "distinct (map f xs)" and "x \<in> set xs"
  shows "(\<Sum>y\<leftarrow>map (\<lambda>y. if f y = f x then g y else y) xs. v y) =
         (\<Sum>y\<leftarrow>xs. v y) - v x + v (g x)"
  using assms
proof (induction xs)
  case Nil
  then show ?case by simp
next
  case (Cons a xs)
  show ?case
  proof (cases "f a = f x")
    case True
    with Cons.prems have ax: "a = x"
      by (metis distinct_map_eq list.set_intros(1))
    have "f x \<notin> f ` set xs" using Cons.prems(1) ax by simp
    then have "\<forall>y \<in> set xs. f y \<noteq> f x" by (metis imageI)
    then have "map (\<lambda>y. if f y = f x then g y else y) xs = xs"
      by (intro map_idI) auto
    then show ?thesis using ax by (simp add: o_def)
  next
    case False
    with Cons.prems have "x \<in> set xs" and "distinct (map f xs)" by auto
    with Cons.IH False show ?thesis by simp
  qed
qed

lemma elem_le_sum_list_int:
  fixes v :: "'r \<Rightarrow> int"
  assumes "x \<in> set xs" and "\<And>y. y \<in> set xs \<Longrightarrow> 0 \<le> v y"
  shows "v x \<le> (\<Sum>y\<leftarrow>xs. v y)"
  using assms
proof (induction xs)
  case Nil
  then show ?case by simp
next
  case (Cons a xs)
  have "0 \<le> (\<Sum>y\<leftarrow>xs. v y)" using Cons.prems(2) by (intro sum_list_nonneg) auto
  with Cons show ?case by (cases "x = a") (auto intro: add_increasing)
qed

end
