(* ===== verification/JSNum.thy ===== *)
theory JSNum
  imports Prelude "HOL-Library.Log_Nat"
begin

text \<open>
  JavaScript numbers. A finite IEEE 754 double is represented by the rational it denotes,
  and every arithmetic operation of the source is the exact operation followed by
  \<open>fl\<close>, rounding to 53 significant bits, ties to even (subnormals included). Values
  beyond the double range, infinities and NaN are not represented.
\<close>

subsection \<open>Rounding to a double\<close>

definition round_even :: "rat \<Rightarrow> int" where
  "round_even y =
     (let f = \<lfloor>y\<rfloor>; d = y - of_int f
      in if d < 1/2 then f else if d > 1/2 then f + 1 else if even f then f else f + 1)"

definition ilog2 :: "rat \<Rightarrow> int" where
  "ilog2 x =
     (let (p, q) = quotient_of x; d = bitlen p - bitlen q
      in if 2 powi d \<le> x then d else d - 1)"

definition fl :: "rat \<Rightarrow> rat" where
  "fl x =
     (if x = 0 then 0
      else let e = max (ilog2 \<bar>x\<bar> - 52) (-1074)
           in of_int (round_even (x / 2 powi e)) * 2 powi e)"

lemma round_even_err: "\<bar>of_int (round_even y) - y\<bar> \<le> 1/2"
proof -
  have "of_int \<lfloor>y\<rfloor> \<le> y" and "y < of_int \<lfloor>y\<rfloor> + 1"
    by linarith+
  then show ?thesis
    by (auto simp: round_even_def Let_def abs_le_iff)
qed

lemma powi_add2: "(2::rat) powi (a + b) = 2 powi a * 2 powi b"
  by (simp add: power_int_add)

lemma bitlen_pow:
  assumes "0 < (n::int)"
  shows "(2::rat) powi (bitlen n - 1) \<le> of_int n \<and> of_int n < (2::rat) powi (bitlen n)"
proof -
  from assms have b: "2 ^ nat (bitlen n - 1) \<le> n" "n < 2 ^ nat (bitlen n)"
    using bitlen_bounds by auto
  from assms have "1 \<le> bitlen n"
    using bitlen_eq_zero_iff bitlen_nonneg[of n] by (smt (verit))
  then have e: "(2::rat) powi (bitlen n - 1) = of_int (2 ^ nat (bitlen n - 1))"
    "(2::rat) powi (bitlen n) = of_int (2 ^ nat (bitlen n))"
    by (simp_all add: power_int_def)
  from b show ?thesis
    unfolding e by (simp only: of_int_le_iff of_int_less_iff)
qed

text \<open>\<^const>\<open>ilog2\<close> is the binary exponent: \<open>2\<^sup>e \<le> x < 2\<^sup>e\<^sup>+\<^sup>1\<close>.\<close>

lemma ilog2_bounds:
  assumes "0 < x"
  shows "2 powi (ilog2 x) \<le> x" and "x < 2 powi (ilog2 x + 1)"
proof -
  obtain p q where pq: "quotient_of x = (p, q)" by force
  then have q: "0 < q" and x: "x = of_int p / of_int q"
    by (auto dest: quotient_of_denom_pos quotient_of_div)
  from assms x q have p: "0 < p" by (simp add: zero_less_divide_iff)
  note bp = bitlen_pow[OF p] and bq = bitlen_pow[OF q]
  define d where "d = bitlen p - bitlen q"
  have "of_int p / of_int q < (2::rat) powi (bitlen p) / 2 powi (bitlen q - 1)"
    using bp bq p q by (intro frac_less) (auto simp: zero_less_power_int)
  also have "\<dots> = 2 powi (d + 1)"
    by (simp add: d_def power_int_diff power_int_add)
  finally have up: "x < 2 powi (d + 1)" using x by simp
  have "2 powi (d - 1) = (2::rat) powi (bitlen p - 1) / 2 powi (bitlen q)"
    by (simp add: d_def power_int_diff)
  also have "\<dots> \<le> of_int p / of_int q"
    using bp bq p q by (intro frac_le) (auto simp: zero_le_power_int)
  finally have lo: "2 powi (d - 1) \<le> x" using x by simp
  have i: "ilog2 x = (if 2 powi d \<le> x then d else d - 1)"
    by (simp add: ilog2_def pq d_def)
  from i lo show "2 powi (ilog2 x) \<le> x" by simp
  from i up show "x < 2 powi (ilog2 x + 1)" by simp
qed

lemma fl_0 [simp]: "fl 0 = 0"
  by (simp add: fl_def)

text \<open>The standard model of floating-point error, with the subnormal term.\<close>

lemma fl_err: "\<bar>fl x - x\<bar> \<le> \<bar>x\<bar> / 2 ^ 53 + 1 / 2 ^ 1075"
proof (cases "x = 0")
  case True
  then show ?thesis by simp
next
  case False
  define e where "e = max (ilog2 \<bar>x\<bar> - 52) (-1074)"
  define u where "u = (2::rat) powi e"
  have u: "0 < u" by (simp add: u_def)
  have "fl x - x = (of_int (round_even (x / u)) - x / u) * u"
    using False u by (simp add: fl_def Let_def e_def u_def algebra_simps)
  then have "\<bar>fl x - x\<bar> \<le> u / 2"
    using round_even_err[of "x / u"] u by (simp add: abs_mult mult_right_mono[of _ "1/2" u, simplified])
  also have "u / 2 \<le> \<bar>x\<bar> / 2 ^ 53 + 1 / 2 ^ 1075"
  proof (cases "ilog2 \<bar>x\<bar> - 52 \<ge> -1074")
    case True
    then have "e = ilog2 \<bar>x\<bar> - 52" by (simp add: e_def)
    then have "u = 2 powi (ilog2 \<bar>x\<bar>) / 2 ^ 52"
      by (simp add: u_def power_int_diff)
    also have "\<dots> \<le> \<bar>x\<bar> / 2 ^ 52"
      using ilog2_bounds(1)[of "\<bar>x\<bar>"] False by (simp add: divide_right_mono)
    finally have "u / 2 \<le> \<bar>x\<bar> / 2 ^ 53" by simp
    then show ?thesis by (simp add: add_increasing2)
  next
    case False
    then have "u = 2 powi (-1074)" by (simp add: u_def e_def max_def)
    then have "u / 2 = 1 / 2 ^ 1075"
      by (simp add: power_int_minus field_simps)
    then show ?thesis by (simp add: add_increasing)
  qed
  finally show ?thesis .
qed

text \<open>Integers below \<open>2\<^sup>5\<^sup>3\<close> are doubles.\<close>

lemma round_even_int: "round_even (of_int n) = n"
  by (simp add: round_even_def)

lemma fl_int:
  assumes "\<bar>n\<bar> < 2 ^ 53"
  shows "fl (of_int n) = of_int n"
proof (cases "n = 0")
  case False
  let ?x = "\<bar>of_int n\<bar> :: rat"
  have x1: "1 \<le> ?x" using False by (simp flip: of_int_abs)
  have "(of_int \<bar>n\<bar> :: rat) < of_int (2 ^ 53)" using assms by (simp only: of_int_less_iff)
  then have x2: "?x < 2 powi 53" by (simp add: power_int_def)
  have "ilog2 ?x \<le> 52"
  proof (rule ccontr)
    assume "\<not> ilog2 ?x \<le> 52"
    then have "(2::rat) powi 53 \<le> 2 powi (ilog2 ?x)" by (intro power_int_increasing) auto
    with x2 ilog2_bounds(1)[of ?x] x1 show False by linarith
  qed
  define e where "e = max (ilog2 ?x - 52) (-1074)"
  then have "e \<le> 0" using \<open>ilog2 ?x \<le> 52\<close> by simp
  then have p: "(2::rat) powi e = 1 / of_int (2 ^ nat (- e))"
    by (simp add: power_int_def inverse_eq_divide power_one_over)
  have "(of_int n :: rat) / 2 powi e = of_int (n * 2 ^ nat (- e))" by (simp add: p)
  then have "round_even (of_int n / 2 powi e) = n * 2 ^ nat (- e)" by (simp only: round_even_int)
  then show ?thesis using False by (simp add: fl_def Let_def e_def[symmetric] p)
qed simp

subsection \<open>Money amounts\<close>

text \<open>
  Balances and amounts live in \<open>Decimal(18, 2)\<close> columns, whole cents in the model.
  \<open>Number(account.balance)\<close> is the double nearest to the decimal value; \<open>a - b\<close> and
  \<open>a + b\<close> round the exact result.
\<close>

definition num_of_cents :: "int \<Rightarrow> rat" where
  "num_of_cents c = fl (of_int c / 100)"

definition js_sub :: "rat \<Rightarrow> rat \<Rightarrow> rat" where
  "js_sub a b = fl (a - b)"

definition js_add :: "rat \<Rightarrow> rat \<Rightarrow> rat" where
  "js_add a b = fl (a + b)"

text \<open>
  Up to \<open>money_max\<close> cents (a trillion currency units) doubles are precise enough for the
  two decimals of the columns.
\<close>

definition money_max :: int where
  "money_max = 10 ^ 14"

definition money :: "int \<Rightarrow> bool" where
  "money c \<longleftrightarrow> \<bar>c\<bar> \<le> money_max"

lemma fl_err_bound:
  assumes "\<bar>x\<bar> \<le> 2000000000001"
  shows "\<bar>fl x - x\<bar> \<le> 3 / 10000"
proof -
  have "\<bar>x\<bar> / 2 ^ 53 + 1 / 2 ^ 1075 \<le> 2000000000001 / 2 ^ 53 + 1 / (2 ^ 53 :: rat)"
  proof (rule add_mono)
    show "\<bar>x\<bar> / 2 ^ 53 \<le> 2000000000001 / 2 ^ 53"
      using assms by (simp add: divide_right_mono)
    show "1 / 2 ^ 1075 \<le> (1 / 2 ^ 53 :: rat)"
      by (rule divide_left_mono) (simp_all add: power_increasing)
  qed
  also have "\<dots> \<le> 3 / 10000" by simp
  finally show ?thesis using fl_err[of x] by linarith
qed

lemma num_of_cents_err:
  assumes "money c"
  shows "\<bar>num_of_cents c - of_int c / 100\<bar> \<le> 3 / 10000"
proof -
  from assms have "\<bar>of_int c :: rat\<bar> \<le> 100000000000000"
    unfolding money_def money_max_def
    by (simp flip: of_int_abs)
  then have "\<bar>of_int c / 100 :: rat\<bar> \<le> 2000000000001" by simp
  then show ?thesis unfolding num_of_cents_def by (rule fl_err_bound)
qed

text \<open>The funds check of the code compares doubles; it decides the comparison of cents.\<close>

lemma num_of_cents_less:
  assumes "money a" and "money b"
  shows "num_of_cents a < num_of_cents b \<longleftrightarrow> a < b"
proof -
  note err = num_of_cents_err[OF assms(1)] num_of_cents_err[OF assms(2)]
  have less: "num_of_cents x < num_of_cents y"
    if "x < y" and "\<bar>num_of_cents x - of_int x / 100\<bar> \<le> 3 / 10000"
      and "\<bar>num_of_cents y - of_int y / 100\<bar> \<le> 3 / 10000" for x y
  proof -
    from that(1) have "of_int x + 1 \<le> (of_int y :: rat)"
      by (metis of_int_1 of_int_add of_int_le_iff zless_imp_add1_zle)
    with that(2,3) show ?thesis by linarith
  qed
  show ?thesis
    using less[of a b] less[of b a] err by (cases a b rule: linorder_cases) auto
qed

lemma money_of_int: "money c \<Longrightarrow> \<bar>of_int c :: rat\<bar> \<le> 100000000000000"
  by (simp add: money_def money_max_def flip: of_int_abs)

lemma fl_near:
  assumes "\<bar>r - z\<bar> \<le> 6 / 10000" and "\<bar>z\<bar> \<le> 2000000000000"
  shows "\<bar>fl r - z\<bar> \<le> 9 / 10000"
proof -
  from assms have "\<bar>r\<bar> \<le> 2000000000001" by linarith
  then have "\<bar>fl r - r\<bar> \<le> 3 / 10000" by (rule fl_err_bound)
  with assms(1) show ?thesis by linarith
qed

lemma near_scaled: "\<bar>x - z / 100\<bar> \<le> 9 / 10000 \<Longrightarrow> \<bar>100 * x - z\<bar> \<le> (1 / 4 :: rat)"
  by linarith

lemma js_sub_err:
  assumes "money a" and "money b"
  shows "\<bar>js_sub (num_of_cents a) (num_of_cents b) - of_int (a - b) / 100\<bar> \<le> 9 / 10000"
proof -
  note err = num_of_cents_err[OF assms(1)] num_of_cents_err[OF assms(2)]
  note ab = money_of_int[OF assms(1)] money_of_int[OF assms(2)]
  show ?thesis
    unfolding js_sub_def of_int_diff diff_divide_distrib
    by (rule fl_near) (use err ab in linarith)+
qed

lemma js_add_err:
  assumes "money a" and "money b"
  shows "\<bar>js_add (num_of_cents a) (num_of_cents b) - of_int (a + b) / 100\<bar> \<le> 9 / 10000"
proof -
  note err = num_of_cents_err[OF assms(1)] num_of_cents_err[OF assms(2)]
  note ab = money_of_int[OF assms(1)] money_of_int[OF assms(2)]
  show ?thesis
    unfolding js_add_def of_int_add add_divide_distrib
    by (rule fl_near) (use err ab in linarith)+
qed

text \<open>
  \<open>Number(x.toFixed(f))\<close>: the decimal with \<open>f\<close> digits nearest to \<open>x\<close> (the larger one when
  two are equally near, the sign treated apart), read back as a double.
\<close>

definition to_fixed :: "nat \<Rightarrow> rat \<Rightarrow> rat" where
  "to_fixed f x =
     (let n = \<lfloor>\<bar>x\<bar> * 10 ^ f + 1/2\<rfloor> in fl (of_int (if x < 0 then - n else n) / 10 ^ f))"

definition to_fixed2 :: "rat \<Rightarrow> rat" where
  "to_fixed2 x = to_fixed 2 x"

lemma to_fixed2_cents: "to_fixed2 (of_int c / 100) = num_of_cents c"
proof -
  have "\<bar>of_int c / 100 :: rat\<bar> * 10 ^ 2 + 1/2 = of_int \<bar>c\<bar> + 1/2"
    by simp
  then have "\<lfloor>\<bar>of_int c / 100 :: rat\<bar> * 10 ^ 2 + 1/2\<rfloor> = \<bar>c\<bar>"
    by (simp only:) (rule floor_unique, simp_all)
  then show ?thesis
    by (auto simp: to_fixed2_def to_fixed_def num_of_cents_def Let_def abs_if divide_less_0_iff)
qed

subsection \<open>Storing a number in a decimal column\<close>

text \<open>
  The conversion of a JavaScript number to a \<open>Decimal(18, 2)\<close> value is done by Prisma and
  PostgreSQL, which are not part of the repository: it is a parameter \<open>to_cents\<close>
  (\<^const>\<open>None\<close> for a numeric overflow). What the code relies on is that a number within a
  quarter of a cent of a representable value is stored as that value.
\<close>

locale decimal_codec =
  fixes to_cents :: "rat \<Rightarrow> int option"
  assumes near: "\<bar>100 * x - of_int c\<bar> \<le> 1 / 4 \<Longrightarrow> \<bar>c\<bar> < 10 ^ 18 \<Longrightarrow> to_cents x = Some c"
begin

lemma store_num:
  assumes "money c"
  shows "to_cents (num_of_cents c) = Some c"
proof (rule near)
  show "\<bar>100 * num_of_cents c - of_int c\<bar> \<le> 1 / 4"
    using num_of_cents_err[OF assms] by linarith
  show "\<bar>c\<bar> < 10 ^ 18"
    using assms by (auto simp: money_def money_max_def abs_le_iff)
qed

lemma store_diff:
  assumes "money a" and "money b"
  shows "to_cents (js_sub (num_of_cents a) (num_of_cents b)) = Some (a - b)"
proof (rule near)
  show "\<bar>100 * js_sub (num_of_cents a) (num_of_cents b) - of_int (a - b)\<bar> \<le> 1 / 4"
    by (rule near_scaled) (rule js_sub_err[OF assms])
  show "\<bar>a - b\<bar> < 10 ^ 18"
    using assms by (auto simp: money_def money_max_def abs_le_iff)
qed

lemma store_sum:
  assumes "money a" and "money b"
  shows "to_cents (js_add (num_of_cents a) (num_of_cents b)) = Some (a + b)"
proof (rule near)
  show "\<bar>100 * js_add (num_of_cents a) (num_of_cents b) - of_int (a + b)\<bar> \<le> 1 / 4"
    by (rule near_scaled) (rule js_add_err[OF assms])
  show "\<bar>a + b\<bar> < 10 ^ 18"
    using assms by (auto simp: money_def money_max_def abs_le_iff)
qed

end

text \<open>PostgreSQL's \<open>numeric(18, 2)\<close>: round half away from zero, error on overflow.\<close>

definition pg_cents :: "rat \<Rightarrow> int option" where
  "pg_cents x =
     (let y = 100 * x; c = (if 0 \<le> y then \<lfloor>y + 1/2\<rfloor> else - \<lfloor>1/2 - y\<rfloor>)
      in if \<bar>c\<bar> < 10 ^ 18 then Some c else None)"

interpretation pg: decimal_codec pg_cents
proof
  fix x :: rat and c :: int
  assume n: "\<bar>100 * x - of_int c\<bar> \<le> 1 / 4" and c: "\<bar>c\<bar> < 10 ^ 18"
  from n have "\<lfloor>100 * x + 1/2\<rfloor> = c" and "\<lfloor>1/2 - 100 * x\<rfloor> = - c"
    unfolding floor_eq_iff of_int_minus by linarith+
  with c show "pg_cents x = Some c" by (simp add: pg_cents_def Let_def)
qed

end
