(* ===== verification/Http.thy ===== *)
theory Http
  imports Prelude
begin

text \<open>
  The shared HTTP layer: the error classes of \<open>shared/src/utils/errors.js\<close>, the response
  envelope of \<open>apiResponse.js\<close>, the error handler, the token and role middlewares and the
  trace middleware. Response timestamps are left out.
\<close>

subsection \<open>Errors\<close>

text \<open>
  Messages are the source's template strings; the one that prints a decimal balance keeps its
  arguments (account, balance in cents, currency), and one that embeds another message keeps it.
\<close>

datatype err_msg = Msg string | InsufficientFunds string int string | Prefixed string err_msg

text \<open>
  \<open>AppError\<close> is the class of the operational errors. \<open>PlainError\<close> is a bare \<open>Error\<close>,
  with the \<open>statusCode\<close> the code attached to it, if any. \<open>BreakerOpenError\<close> is the circuit
  breaker's fail-fast error: service, seconds to wait, last failure.
\<close>

datatype app_error =
    AppError nat err_msg "string list"
  | PlainError "nat option" err_msg
  | BreakerOpenError string nat "err_msg option"

definition BadRequestError :: "err_msg \<Rightarrow> app_error" where
  "BadRequestError m = AppError 400 m []"

definition UnauthorizedError :: "err_msg \<Rightarrow> app_error" where
  "UnauthorizedError m = AppError 401 m []"

definition ForbiddenError :: "err_msg \<Rightarrow> app_error" where
  "ForbiddenError m = AppError 403 m []"

definition NotFoundError :: "err_msg \<Rightarrow> app_error" where
  "NotFoundError m = AppError 404 m []"

definition ConflictError :: "err_msg \<Rightarrow> app_error" where
  "ConflictError m = AppError 409 m []"

definition InternalServerError :: "err_msg \<Rightarrow> app_error" where
  "InternalServerError m = AppError 500 m []"

lemmas error_defs = BadRequestError_def UnauthorizedError_def ForbiddenError_def
  NotFoundError_def ConflictError_def InternalServerError_def

fun statusCode :: "app_error \<Rightarrow> nat option" where
  "statusCode (AppError c _ _) = Some c"
| "statusCode (PlainError c _) = c"
| "statusCode (BreakerOpenError _ _ _) = Some 503"

fun errorMessage :: "app_error \<Rightarrow> err_msg" where
  "errorMessage (AppError _ m _) = m"
| "errorMessage (PlainError _ m) = m"
| "errorMessage (BreakerOpenError name _ _) =
     Msg (''Circuit breaker for ['' @ name @ ''] is OPEN. Request failed fast.'')"

subsection \<open>Responses\<close>

datatype 'd body = SuccessBody string 'd | ErrorBody err_msg "string list"

record 'd response =
  rs_status :: nat
  rs_body :: "'d body"

definition api_success :: "string \<Rightarrow> 'd \<Rightarrow> nat \<Rightarrow> 'd response" where
  "api_success msg d code = \<lparr>rs_status = code, rs_body = SuccessBody msg d\<rparr>"

definition api_created :: "string \<Rightarrow> 'd \<Rightarrow> 'd response" where
  "api_created msg d = api_success msg d 201"

definition api_error :: "err_msg \<Rightarrow> nat \<Rightarrow> string list \<Rightarrow> 'd response" where
  "api_error msg code details = \<lparr>rs_status = code, rs_body = ErrorBody msg details\<rparr>"

text \<open>\<open>err.message || 'Internal Server Error'\<close> and \<open>err.statusCode || 500\<close>.\<close>

definition or_default :: "err_msg \<Rightarrow> err_msg" where
  "or_default m = (if m = Msg '''' then Msg ''Internal Server Error'' else m)"

definition errorHandler :: "bool \<Rightarrow> app_error \<Rightarrow> 'd response" where
  "errorHandler production err =
     (let code = (case statusCode err of None \<Rightarrow> 500 | Some c \<Rightarrow> if c = 0 then 500 else c);
          message = or_default (errorMessage err)
      in case err of
           AppError _ _ details \<Rightarrow> api_error message code details
         | _ \<Rightarrow> api_error (if production then Msg ''Internal Server Error'' else message) code [])"

text \<open>A handler returns its response or passes the error to the handler above.\<close>

definition respond :: "bool \<Rightarrow> app_error + 'd response \<Rightarrow> 'd response" where
  "respond production r = (case r of Inl e \<Rightarrow> errorHandler production e | Inr x \<Rightarrow> x)"

subsection \<open>Strings\<close>

text \<open>\<open>s.split(c)\<close> for a one-character separator.\<close>

fun split_on :: "char \<Rightarrow> string \<Rightarrow> string list" where
  "split_on c [] = [[]]"
| "split_on c (x # xs) =
     (if x = c then [] # split_on c xs
      else case split_on c xs of [] \<Rightarrow> [[x]] | y # ys \<Rightarrow> (x # y) # ys)"

definition starts_with :: "string \<Rightarrow> string \<Rightarrow> bool" where
  "starts_with p s \<longleftrightarrow> take (length p) s = p"

definition to_upper :: "string \<Rightarrow> string" where
  "to_upper s = map (\<lambda>c. if 97 \<le> (of_char c :: nat) \<and> (of_char c :: nat) \<le> 122
     then char_of (of_char c - 32 :: nat) else c) s"

definition is_space :: "char \<Rightarrow> bool" where
  "is_space c \<longleftrightarrow> c \<in> {CHR '' '', CHR 0x09, CHR 0x0A, CHR 0x0B, CHR 0x0C, CHR 0x0D}"

definition js_trim :: "string \<Rightarrow> string" where
  "js_trim s = rev (dropWhile is_space (rev (dropWhile is_space s)))"

lemma split_on_nonempty: "split_on c s \<noteq> []"
  by (induction s) (auto split: list.splits)

lemma split_on_no_sep: "c \<notin> set s \<Longrightarrow> split_on c s = [s]"
  by (induction s) auto

lemma split_on_append: "c \<notin> set p \<Longrightarrow> split_on c (p @ c # s) = p # split_on c s"
  by (induction p) auto

subsection \<open>Authentication\<close>

datatype role = CUSTOMER | TELLER | ADMIN

fun show_role :: "role \<Rightarrow> string" where
  "show_role CUSTOMER = ''CUSTOMER''"
| "show_role TELLER = ''TELLER''"
| "show_role ADMIN = ''ADMIN''"

text \<open>The claims of an access token; absent claims are \<^const>\<open>None\<close>.\<close>

record claims =
  cl_userId :: "string option"
  cl_email :: "string option"
  cl_role :: "role option"

definition is_staff :: "role option \<Rightarrow> bool" where
  "is_staff r \<longleftrightarrow> r = Some ADMIN \<or> r = Some TELLER"

text \<open>
  \<open>authenticateToken\<close>: the \<open>Authorization\<close> header must start with \<open>Bearer \<close>; the second
  space-separated word is verified. \<open>jwt.verify\<close> with the service's secret is the parameter
  \<open>verify\<close> (\<^const>\<open>None\<close> when it throws).
\<close>

definition bearer_token :: "string \<Rightarrow> string" where
  "bearer_token h = split_on (CHR '' '') h ! 1"

definition authenticateToken ::
  "(string \<Rightarrow> 'c option) \<Rightarrow> string \<Rightarrow> string option \<Rightarrow> app_error + 'c" where
  "authenticateToken verify invalid_msg header =
     (case header of
        None \<Rightarrow> Inl (UnauthorizedError (Msg ''Missing or invalid Authorization header''))
      | Some h \<Rightarrow>
          if \<not> starts_with ''Bearer '' h
          then Inl (UnauthorizedError (Msg ''Missing or invalid Authorization header''))
          else (case verify (bearer_token h) of
                  None \<Rightarrow> Inl (UnauthorizedError (Msg invalid_msg))
                | Some c \<Rightarrow> Inr c))"

text \<open>
  \<open>authorizeRoles(...roles)\<close>, after the token middleware (the dash of the source's message
  is written as a hyphen).
\<close>

fun join_with :: "string \<Rightarrow> string list \<Rightarrow> string" where
  "join_with sep [] = ''''"
| "join_with sep [x] = x"
| "join_with sep (x # y # ys) = x @ sep @ join_with sep (y # ys)"

definition authorizeRoles :: "role list \<Rightarrow> claims option \<Rightarrow> app_error + unit" where
  "authorizeRoles roles user =
     (case user of
        None \<Rightarrow> Inl (UnauthorizedError (Msg ''Authentication required''))
      | Some u \<Rightarrow>
          (case cl_role u of
             None \<Rightarrow> Inl (ForbiddenError (Msg (''Access denied: requires role ''
                       @ join_with '' or '' (map show_role roles) @ '' - your role is unknown'')))
           | Some r \<Rightarrow>
               if r \<in> set roles then Inr ()
               else Inl (ForbiddenError (Msg (''Access denied: requires role ''
                       @ join_with '' or '' (map show_role roles)
                       @ '' - your role is '' @ show_role r)))))"

text \<open>
  \<open>traceMiddleware\<close>: the trimmed \<open>X-Trace-ID\<close> header, or a fresh identifier (parameter).
\<close>

definition traceMiddleware :: "string \<Rightarrow> string option \<Rightarrow> string" where
  "traceMiddleware uuid header =
     (case header of None \<Rightarrow> uuid | Some h \<Rightarrow> if js_trim h \<noteq> '''' then js_trim h else uuid)"

text \<open>\<open>validateRequest\<close>: 400 with the collected field errors, or go on.\<close>

definition validateRequest :: "(string \<times> string) list \<Rightarrow> 'd response option" where
  "validateRequest errors =
     (if errors = [] then None
      else Some (api_error (Msg ''Validation error'') 400
                  (map (\<lambda>(field, msg). field @ '': '' @ msg) errors)))"

lemma authenticateToken_Inr:
  "authenticateToken verify m header = Inr c \<longleftrightarrow>
     (\<exists>h. header = Some h \<and> starts_with ''Bearer '' h \<and> verify (bearer_token h) = Some c)"
  by (auto simp: authenticateToken_def split: option.splits)

lemma authenticateToken_Inl:
  "authenticateToken verify m header = Inl e \<Longrightarrow> statusCode e = Some 401"
  by (auto simp: authenticateToken_def error_defs split: option.splits if_splits)

lemma bearer_token_Bearer:
  assumes "CHR '' '' \<notin> set tok"
  shows "bearer_token (''Bearer '' @ tok) = tok"
proof -
  have "split_on (CHR '' '') (''Bearer'' @ CHR '' '' # tok) = ''Bearer'' # split_on (CHR '' '') tok"
    by (rule split_on_append) simp
  with assms show ?thesis by (simp add: bearer_token_def split_on_no_sep)
qed

end
