(* ===== verification/Redis.thy ===== *)
theory Redis
  imports Prelude
begin

text \<open>
  Redis as the services see it. The server is not part of the repository: its key-value
  commands are a parameter of the model, a record \<open>kv\<close> of functions on an abstract store, and
  what the code relies on is the locale \<open>redis_kv\<close>. Every client call can fail before or after
  the server has executed it; which calls fail is an input of the model.
\<close>

record ('s, 'v) kv =
  kv_get :: "string \<Rightarrow> 's \<Rightarrow> 'v option"
  kv_set :: "string \<Rightarrow> 'v \<Rightarrow> nat \<Rightarrow> 's \<Rightarrow> 's" \<comment> \<open>key, value, time to live in ms\<close>
  kv_del :: "string \<Rightarrow> 's \<Rightarrow> 's"
  kv_ttl :: "string \<Rightarrow> 's \<Rightarrow> nat option" \<comment> \<open>remaining ms of a key with expiry\<close>
  kv_wait :: "nat \<Rightarrow> 's \<Rightarrow> 's" \<comment> \<open>time passes\<close>

locale redis_kv =
  fixes K :: "('s, 'v) kv"
  assumes get_set: "0 < t \<Longrightarrow> kv_get K k (kv_set K k v t s) = Some v"
    and get_set_other: "k' \<noteq> k \<Longrightarrow> kv_get K k' (kv_set K k v t s) = kv_get K k' s"
    and get_del: "kv_get K k (kv_del K k s) = None"
    and get_del_other: "k' \<noteq> k \<Longrightarrow> kv_get K k' (kv_del K k s) = kv_get K k' s"
    and ttl_set: "0 < t \<Longrightarrow> kv_ttl K k (kv_set K k v t s) = Some t"
    and ttl_set_other: "k' \<noteq> k \<Longrightarrow> kv_ttl K k' (kv_set K k v t s) = kv_ttl K k' s"
    and ttl_del_other: "k' \<noteq> k \<Longrightarrow> kv_ttl K k' (kv_del K k s) = kv_ttl K k' s"
    and wait_get: "kv_get K k (kv_wait K d s) =
          (case kv_ttl K k s of
             None \<Rightarrow> kv_get K k s
           | Some t \<Rightarrow> if d < t then kv_get K k s else None)"
    and wait_ttl: "kv_ttl K k s = Some t \<Longrightarrow> d < t \<Longrightarrow> kv_ttl K k (kv_wait K d s) = Some (t - d)"

subsection \<open>Commands\<close>

text \<open>\<open>SET k v NX PX t\<close>: true when Redis answers OK.\<close>

definition set_nx_px :: "('s, 'v) kv \<Rightarrow> string \<Rightarrow> 'v \<Rightarrow> nat \<Rightarrow> 's \<Rightarrow> bool \<times> 's" where
  "set_nx_px K k v t s =
     (case kv_get K k s of None \<Rightarrow> (True, kv_set K k v t s) | Some _ \<Rightarrow> (False, s))"

text \<open>\<open>SET k v EX t\<close>, in seconds.\<close>

definition set_ex :: "('s, 'v) kv \<Rightarrow> string \<Rightarrow> 'v \<Rightarrow> nat \<Rightarrow> 's \<Rightarrow> unit \<times> 's" where
  "set_ex K k v t s = ((), kv_set K k v (t * 1000) s)"

definition get_cmd :: "('s, 'v) kv \<Rightarrow> string \<Rightarrow> 's \<Rightarrow> 'v option \<times> 's" where
  "get_cmd K k s = (kv_get K k s, s)"

definition exists_cmd :: "('s, 'v) kv \<Rightarrow> string \<Rightarrow> 's \<Rightarrow> nat \<times> 's" where
  "exists_cmd K k s = (if kv_get K k s = None then 0 else 1, s)"

text \<open>\<open>DEL k1 k2 ...\<close> answers the number of keys that existed.\<close>

fun del_cmd :: "('s, 'v) kv \<Rightarrow> string list \<Rightarrow> 's \<Rightarrow> nat \<times> 's" where
  "del_cmd K [] s = (0, s)"
| "del_cmd K (k # ks) s =
     (let (n, s') = del_cmd K ks (kv_del K k s)
      in (n + (if kv_get K k s = None then 0 else 1), s'))"

subsection \<open>Calls that may fail\<close>

datatype fault = Fine | Refused string | LostReply string

record 's conn =
  store :: 's
  faults :: "fault list" \<comment> \<open>outcome of the next calls; the calls after them succeed\<close>

definition redis_call :: "('s \<Rightarrow> 'a \<times> 's) \<Rightarrow> 's conn \<Rightarrow> (string + 'a) \<times> 's conn" where
  "redis_call f c =
     (let (x, s) = f (store c)
      in case faults c of
           [] \<Rightarrow> (Inr x, c\<lparr>store := s\<rparr>)
         | Fine # fs \<Rightarrow> (Inr x, c\<lparr>store := s, faults := fs\<rparr>)
         | Refused m # fs \<Rightarrow> (Inl m, c\<lparr>faults := fs\<rparr>)
         | LostReply m # fs \<Rightarrow> (Inl m, c\<lparr>store := s, faults := fs\<rparr>))"

definition healthy :: "'s conn \<Rightarrow> bool" where
  "healthy c \<longleftrightarrow> faults c = []"

lemma redis_call_healthy:
  "healthy c \<Longrightarrow> redis_call f c = (Inr (fst (f (store c))), c\<lparr>store := snd (f (store c))\<rparr>)"
  by (simp add: redis_call_def healthy_def Let_def split: prod.split)

lemma healthy_store [simp]: "healthy (c\<lparr>store := s\<rparr>) = healthy c"
  by (simp add: healthy_def)

text \<open>Whatever the fault, the store is the old one or the one the command produced.\<close>

lemma redis_call_store:
  "store (snd (redis_call f c)) = store c \<or> store (snd (redis_call f c)) = snd (f (store c))"
  by (auto simp: redis_call_def Let_def split: prod.split list.split fault.split)

lemma redis_call_Inr:
  assumes "redis_call f c = (Inr x, c')"
  shows "x = fst (f (store c)) \<and> store c' = snd (f (store c))"
  using assms by (auto simp: redis_call_def Let_def split: prod.splits list.splits fault.splits)

lemma redis_call_faults: "length (faults (snd (redis_call f c))) \<le> length (faults c)"
  by (auto simp: redis_call_def Let_def split: prod.split list.split fault.split)

context redis_kv
begin

lemma get_del_cmd: "kv_get K k (snd (del_cmd K ks s)) = (if k \<in> set ks then None else kv_get K k s)"
proof (induction ks arbitrary: s)
  case Nil
  then show ?case by simp
next
  case (Cons a ks)
  have "kv_get K k (snd (del_cmd K (a # ks) s)) = kv_get K k (snd (del_cmd K ks (kv_del K a s)))"
    by (simp add: Let_def split: prod.split)
  with Cons.IH show ?case by (cases "k = a") (auto simp: get_del get_del_other)
qed

lemma del_cmd_count_le: "fst (del_cmd K ks s) \<le> length ks"
proof (induction ks arbitrary: s)
  case Nil
  then show ?case by simp
next
  case (Cons a ks)
  show ?case using Cons.IH[of "kv_del K a s"]
    by (cases "del_cmd K ks (kv_del K a s)") simp
qed

lemma get_set_nx:
  "0 < t \<Longrightarrow> fst (set_nx_px K k v t s) \<longleftrightarrow> kv_get K k s = None"
  by (simp add: set_nx_px_def split: option.split)

end

subsection \<open>A store\<close>

text \<open>A finite map with deadlines, the instance on which the laws are shown to hold.\<close>

record 'v mem =
  m_now :: nat
  m_map :: "string \<Rightarrow> ('v \<times> nat) option"

definition mem_live :: "string \<Rightarrow> 'v mem \<Rightarrow> ('v \<times> nat) option" where
  "mem_live k s = (case m_map s k of None \<Rightarrow> None
     | Some (v, d) \<Rightarrow> if m_now s < d then Some (v, d) else None)"

definition mem_kv :: "('v mem, 'v) kv" where
  "mem_kv =
     \<lparr>kv_get = (\<lambda>k s. map_option fst (mem_live k s)),
      kv_set = (\<lambda>k v t s. s\<lparr>m_map := (m_map s)(k \<mapsto> (v, m_now s + t))\<rparr>),
      kv_del = (\<lambda>k s. s\<lparr>m_map := (m_map s)(k := None)\<rparr>),
      kv_ttl = (\<lambda>k s. map_option (\<lambda>(v, d). d - m_now s) (mem_live k s)),
      kv_wait = (\<lambda>d s. s\<lparr>m_now := m_now s + d\<rparr>)\<rparr>"

definition mem_empty :: "'v mem" where
  "mem_empty = \<lparr>m_now = 0, m_map = Map.empty\<rparr>"

interpretation mem: redis_kv "mem_kv :: ('v mem, 'v) kv"
  by unfold_locales
    (auto simp: mem_kv_def mem_live_def split: option.splits prod.splits if_splits)

end
