(* ===== verification/LockService.thy ===== *)
theory LockService
  imports Http Redis JSNum "HOL-Library.Char_ord" "HOL-Library.List_Lexorder"
begin

text \<open>
  The distributed lock and idempotency service of \<open>shared/src/lock/lockService.js\<close> on Redis
  database 2. A stored value is a lock identifier or the JSON text of an idempotency record,
  represented by the record. The random identifiers and the measured durations are inputs.
\<close>

datatype 'd db2_value = LockId string | Record 'd

record lock_metrics =
  locksAcquired :: nat
  lockConflicts :: nat
  locksReleased :: nat
  idempotencyHitsRedis :: nat
  idempotencyHitsPostgres :: nat
  lockWaitTimeTotalMs :: nat

record 's lock_service =
  ls_redis :: "'s conn"
  ls_metrics :: lock_metrics
  ls_seq :: nat \<comment> \<open>how many identifiers have been drawn\<close>

text \<open>\<open>randomUUID()\<close> and the \<open>Date.now()\<close> difference of the n-th acquisition.\<close>

record lock_env =
  uuid :: "nat \<Rightarrow> string"
  elapsed :: "nat \<Rightarrow> nat"

definition LOCK_EXPIRATION_MS :: nat where "LOCK_EXPIRATION_MS = 10000"
definition IDEMPOTENCY_TTL_SECONDS :: nat where "IDEMPOTENCY_TTL_SECONDS = 86400"

definition getLockKey :: "string \<Rightarrow> string" where
  "getLockKey accountNumber = ''lock:account:'' @ accountNumber"

definition getIdempotencyKey :: "string \<Rightarrow> string" where
  "getIdempotencyKey k = ''idempotency:'' @ k"

record lock_info =
  li_key :: string
  li_lockId :: string
  li_accountNumber :: string
  li_ttlMs :: nat

lemma getLockKey_inj [simp]: "getLockKey a = getLockKey b \<longleftrightarrow> a = b"
  by (simp add: getLockKey_def)

lemma lock_key_not_idempotency_key [simp]:
  "getLockKey a \<noteq> getIdempotencyKey k" "getIdempotencyKey k \<noteq> getLockKey a"
  by (simp_all add: getLockKey_def getIdempotencyKey_def)

subsection \<open>Single locks\<close>

definition acquireLock ::
  "('s, 'd db2_value) kv \<Rightarrow> lock_env \<Rightarrow> string \<Rightarrow> nat \<Rightarrow> 's lock_service
     \<Rightarrow> lock_info option \<times> 's lock_service" where
  "acquireLock K env accountNumber ttlMs st =
     (let key = getLockKey accountNumber;
          n = ls_seq st;
          lockId = uuid env n;
          (result, c) = redis_call (set_nx_px K key (LockId lockId) ttlMs) (ls_redis st);
          st = st\<lparr>ls_redis := c, ls_seq := n + 1\<rparr>
      in case result of
           Inr True \<Rightarrow>
             (Some \<lparr>li_key = key, li_lockId = lockId, li_accountNumber = accountNumber,
                     li_ttlMs = ttlMs\<rparr>,
              st\<lparr>ls_metrics := (ls_metrics st)
                   \<lparr>locksAcquired := locksAcquired (ls_metrics st) + 1,
                    lockWaitTimeTotalMs := lockWaitTimeTotalMs (ls_metrics st) + elapsed env n\<rparr>\<rparr>)
         | Inr False \<Rightarrow> (None, st)
         | Inl _ \<Rightarrow> (None, st))"

text \<open>
  \<open>RELEASE_LOCK_LUA\<close>, run atomically by Redis: delete the key only if it holds this identifier.
\<close>

definition release_lock_lua ::
  "('s, 'd db2_value) kv \<Rightarrow> string \<Rightarrow> string \<Rightarrow> 's \<Rightarrow> nat \<times> 's" where
  "release_lock_lua K key lockId s =
     (if kv_get K key s = Some (LockId lockId) then del_cmd K [key] s else (0, s))"

definition releaseLock ::
  "('s, 'd db2_value) kv \<Rightarrow> lock_info option \<Rightarrow> 's lock_service \<Rightarrow> bool \<times> 's lock_service" where
  "releaseLock K lockInfo st =
     (case lockInfo of
        None \<Rightarrow> (False, st)
      | Some l \<Rightarrow>
          if li_key l = '''' \<or> li_lockId l = '''' then (False, st)
          else
            let (res, c) = redis_call (release_lock_lua K (li_key l) (li_lockId l)) (ls_redis st);
                st = st\<lparr>ls_redis := c\<rparr>
            in if res = Inr 1
               then (True, st\<lparr>ls_metrics := (ls_metrics st)
                       \<lparr>locksReleased := locksReleased (ls_metrics st) + 1\<rparr>\<rparr>)
               else (False, st))"

subsection \<open>Several locks\<close>

fun releaseAccountLocks ::
  "('s, 'd db2_value) kv \<Rightarrow> lock_info list \<Rightarrow> 's lock_service \<Rightarrow> 's lock_service" where
  "releaseAccountLocks K [] st = st"
| "releaseAccountLocks K (l # ls) st = releaseAccountLocks K ls (snd (releaseLock K (Some l) st))"

text \<open>
  \<open>[...new Set(accountNumbers.filter(Boolean))].sort()\<close>: drop the empty strings, drop
  duplicates, sort ascending by character code.
\<close>

definition sortedAccounts :: "string list \<Rightarrow> string list" where
  "sortedAccounts accs = sort (remdups (filter (\<lambda>a. a \<noteq> '''') accs))"

definition lock_conflict :: app_error where
  "lock_conflict = ConflictError (Msg ''Account is currently processing another transaction.'')"

fun acquire_loop ::
  "('s, 'd db2_value) kv \<Rightarrow> lock_env \<Rightarrow> nat \<Rightarrow> string list \<Rightarrow> lock_info list \<Rightarrow> 's lock_service
     \<Rightarrow> (app_error + lock_info list) \<times> 's lock_service" where
  "acquire_loop K env ttlMs [] acquired st = (Inr acquired, st)"
| "acquire_loop K env ttlMs (acc # accs) acquired st =
     (let (lock, st) = acquireLock K env acc ttlMs st
      in case lock of
           None \<Rightarrow>
             (let st = st\<lparr>ls_metrics := (ls_metrics st)
                            \<lparr>lockConflicts := lockConflicts (ls_metrics st) + 1\<rparr>\<rparr>
              in (Inl lock_conflict, releaseAccountLocks K acquired st))
         | Some l \<Rightarrow> acquire_loop K env ttlMs accs (acquired @ [l]) st)"

definition acquireAccountLocks ::
  "('s, 'd db2_value) kv \<Rightarrow> lock_env \<Rightarrow> nat \<Rightarrow> string list \<Rightarrow> 's lock_service
     \<Rightarrow> (app_error + lock_info list) \<times> 's lock_service" where
  "acquireAccountLocks K env ttlMs accountNumbers st =
     acquire_loop K env ttlMs (sortedAccounts accountNumbers) [] st"

text \<open>\<open>withAccountLocks\<close>: the locks are released whether the callback returns or throws.\<close>

definition withAccountLocks ::
  "('s, 'd db2_value) kv \<Rightarrow> lock_env \<Rightarrow> nat \<Rightarrow> string list
     \<Rightarrow> ('s lock_service \<Rightarrow> (app_error + 'a) \<times> 's lock_service) \<Rightarrow> 's lock_service
     \<Rightarrow> (app_error + 'a) \<times> 's lock_service" where
  "withAccountLocks K env ttlMs accountNumbers callback st =
     (let (locks, st) = acquireAccountLocks K env ttlMs accountNumbers st
      in case locks of
           Inl e \<Rightarrow> (Inl e, st)
         | Inr ls \<Rightarrow>
             (let (r, st) = callback st in (r, releaseAccountLocks K ls st)))"

subsection \<open>Idempotency records\<close>

definition getIdempotencyRecord ::
  "('s, 'd db2_value) kv \<Rightarrow> string \<Rightarrow> 's lock_service \<Rightarrow> 'd option \<times> 's lock_service" where
  "getIdempotencyRecord K idempotencyKey st =
     (let (data, c) = redis_call (get_cmd K (getIdempotencyKey idempotencyKey)) (ls_redis st);
          st = st\<lparr>ls_redis := c\<rparr>
      in case data of
           Inr (Some (Record d)) \<Rightarrow>
             (Some d, st\<lparr>ls_metrics := (ls_metrics st)
                \<lparr>idempotencyHitsRedis := idempotencyHitsRedis (ls_metrics st) + 1\<rparr>\<rparr>)
         | Inr (Some (LockId _)) \<Rightarrow>
             (None, st\<lparr>ls_metrics := (ls_metrics st)
                \<lparr>idempotencyHitsRedis := idempotencyHitsRedis (ls_metrics st) + 1\<rparr>\<rparr>)
         | Inr None \<Rightarrow> (None, st)
         | Inl _ \<Rightarrow> (None, st))"

definition setIdempotencyRecord ::
  "('s, 'd db2_value) kv \<Rightarrow> string \<Rightarrow> 'd \<Rightarrow> nat \<Rightarrow> 's lock_service \<Rightarrow> 's lock_service" where
  "setIdempotencyRecord K idempotencyKey d ttlSeconds st =
     (let (r, c) = redis_call (set_ex K (getIdempotencyKey idempotencyKey) (Record d) ttlSeconds)
                     (ls_redis st)
      in st\<lparr>ls_redis := c\<rparr>)"

text \<open>
  \<open>getMetrics\<close>: the average wait is the double quotient, printed with two decimals and read
  back.
\<close>

definition getMetrics :: "'s lock_service \<Rightarrow> lock_metrics \<times> rat" where
  "getMetrics st =
     (ls_metrics st,
      if locksAcquired (ls_metrics st) > 0
      then to_fixed2 (fl (of_nat (lockWaitTimeTotalMs (ls_metrics st))
                            / of_nat (locksAcquired (ls_metrics st))))
      else 0)"


subsection \<open>What the calls do to the store\<close>

abbreviation ls_store :: "'s lock_service \<Rightarrow> 's" where
  "ls_store st \<equiv> store (ls_redis st)"

lemma sortedAccounts_set: "set (sortedAccounts accs) = set accs - {''''}"
  by (auto simp: sortedAccounts_def)

lemma sortedAccounts_distinct: "distinct (sortedAccounts accs)"
  by (simp add: sortedAccounts_def)

lemma sortedAccounts_sorted: "sorted (sortedAccounts accs)"
  by (simp add: sortedAccounts_def)

lemma acquire_error_status:
  "acquire_loop K env t accs acquired st = (Inl e, st') \<Longrightarrow> statusCode e = Some 409"
  by (induction K env t accs acquired st rule: acquire_loop.induct)
    (auto simp: Let_def lock_conflict_def error_defs split: prod.splits option.splits)

lemma acquireLock_key: "acquireLock K env a t st = (Some l, st') \<Longrightarrow>
    l = \<lparr>li_key = getLockKey a, li_lockId = uuid env (ls_seq st), li_accountNumber = a, li_ttlMs = t\<rparr>"
  by (auto simp: acquireLock_def Let_def split: prod.splits sum.splits bool.splits)

lemma acquireLock_seq: "ls_seq (snd (acquireLock K env a t st)) = ls_seq st + 1"
  by (auto simp: acquireLock_def Let_def split: prod.splits sum.splits bool.splits)

lemma acquireLock_store:
  "ls_store (snd (acquireLock K env a t st)) = ls_store st \<or>
   ls_store (snd (acquireLock K env a t st)) =
     snd (set_nx_px K (getLockKey a) (LockId (uuid env (ls_seq st))) t (ls_store st))"
  using redis_call_store[of "set_nx_px K (getLockKey a) (LockId (uuid env (ls_seq st))) t" "ls_redis st"]
  by (auto simp: acquireLock_def Let_def split: prod.splits sum.splits bool.splits)

lemma acquireLock_Some:
  assumes "acquireLock K env a t st = (Some l, st')"
  shows "kv_get K (getLockKey a) (ls_store st) = None \<and>
         ls_store st' = kv_set K (getLockKey a) (LockId (uuid env (ls_seq st))) t (ls_store st)"
proof -
  let ?f = "set_nx_px K (getLockKey a) (LockId (uuid env (ls_seq st))) t"
  obtain r c where rc: "redis_call ?f (ls_redis st) = (r, c)" by force
  with assms have "r = Inr True" and st': "ls_store st' = store c"
    by (auto simp: acquireLock_def Let_def split: sum.splits bool.splits)
  with rc have "fst (?f (ls_store st))" and "store c = snd (?f (ls_store st))"
    using redis_call_Inr[of ?f "ls_redis st" True c] by auto
  then show ?thesis using st' by (simp add: set_nx_px_def split: option.splits)
qed

lemma acquireLock_healthy:
  assumes "healthy (ls_redis st)"
  shows "healthy (ls_redis (snd (acquireLock K env a t st)))"
    and "acquireLock K env a t st = (None, st') \<Longrightarrow>
           kv_get K (getLockKey a) (ls_store st) \<noteq> None \<and> ls_store st' = ls_store st"
  using redis_call_healthy[OF assms, of "set_nx_px K (getLockKey a) (LockId (uuid env (ls_seq st))) t"]
    assms
  by (auto simp: acquireLock_def Let_def set_nx_px_def
      split: prod.splits sum.splits bool.splits option.splits)

lemma releaseLock_store:
  "ls_store (snd (releaseLock K (Some l) st)) = ls_store st \<or>
   ls_store (snd (releaseLock K (Some l) st)) =
     snd (release_lock_lua K (li_key l) (li_lockId l) (ls_store st))"
  using redis_call_store[of "release_lock_lua K (li_key l) (li_lockId l)" "ls_redis st"]
  by (auto simp: releaseLock_def Let_def split: prod.splits)

lemma releaseLock_healthy:
  assumes "healthy (ls_redis st)"
  shows "healthy (ls_redis (snd (releaseLock K (Some l) st)))"
    and "li_key l \<noteq> '''' \<Longrightarrow> li_lockId l \<noteq> '''' \<Longrightarrow>
           ls_store (snd (releaseLock K (Some l) st)) =
             snd (release_lock_lua K (li_key l) (li_lockId l) (ls_store st))"
  using redis_call_healthy[OF assms, of "release_lock_lua K (li_key l) (li_lockId l)"] assms
  by (auto simp: releaseLock_def Let_def split: prod.splits)

lemma releaseLock_seq: "ls_seq (snd (releaseLock K (Some l) st)) = ls_seq st"
  by (auto simp: releaseLock_def Let_def split: prod.splits)

text \<open>
  \<open>holds K ls s0 s\<close>: relative to the store \<open>s0\<close>, the store \<open>s\<close> has exactly the locks
  \<open>ls\<close> in addition, on keys that were free.
\<close>

definition holds :: "('s, 'd db2_value) kv \<Rightarrow> lock_info list \<Rightarrow> 's \<Rightarrow> 's \<Rightarrow> bool" where
  "holds K ls s0 s \<longleftrightarrow>
     distinct (map li_key ls) \<and>
     (\<forall>l \<in> set ls. li_key l \<noteq> '''' \<and> li_lockId l \<noteq> '''' \<and>
        kv_get K (li_key l) s0 = None \<and> kv_get K (li_key l) s = Some (LockId (li_lockId l))) \<and>
     (\<forall>k. k \<notin> li_key ` set ls \<longrightarrow> kv_get K k s = kv_get K k s0)"

lemma holds_Nil [simp]: "holds K [] s0 s \<longleftrightarrow> (\<forall>k. kv_get K k s = kv_get K k s0)"
  by (simp add: holds_def)

text \<open>The interface at the type of database 2.\<close>

locale lock_store = redis_kv K for K :: "('s, 'd db2_value) kv"
begin

lemma get_release_lua:
  "kv_get K k (snd (release_lock_lua K key i s)) =
     (if k = key \<and> kv_get K key s = Some (LockId i) then None else kv_get K k s)"
  using get_del_cmd[of k "[key]" s] by (auto simp: release_lock_lua_def)

lemma releaseLock_get:
  assumes "kv_get K k (ls_store st) \<noteq> Some (LockId (li_lockId l)) \<or> k \<noteq> li_key l"
  shows "kv_get K k (ls_store (snd (releaseLock K (Some l) st))) = kv_get K k (ls_store st)"
  using releaseLock_store[of K l st] assms by (auto simp: get_release_lua)

lemma holds_release_one:
  assumes "holds K (l # ls) s0 (ls_store st)" and "healthy (ls_redis st)"
  shows "holds K ls s0 (ls_store (snd (releaseLock K (Some l) st)))"
  using assms releaseLock_healthy(2)[OF assms(2), of l K]
  by (auto simp: holds_def get_release_lua) (metis imageI)

lemma holds_release:
  assumes "holds K ls s0 (ls_store st)" and "healthy (ls_redis st)"
  shows "kv_get K k (ls_store (releaseAccountLocks K ls st)) = kv_get K k s0"
  using assms
proof (induction ls arbitrary: st)
  case Nil
  then show ?case by simp
next
  case (Cons l ls)
  have "kv_get K k (ls_store (releaseAccountLocks K ls (snd (releaseLock K (Some l) st)))) =
      kv_get K k s0"
    by (rule Cons.IH[OF holds_release_one[OF Cons.prems] releaseLock_healthy(1)[OF Cons.prems(2)]])
  then show ?case by simp
qed

lemma releaseAccountLocks_healthy:
  "healthy (ls_redis st) \<Longrightarrow> healthy (ls_redis (releaseAccountLocks K ls st))"
  by (induction ls arbitrary: st) (simp_all add: releaseLock_healthy(1))

lemma holds_acquire:
  assumes "holds K acq s0 (ls_store st)" and "acquireLock K env a t st = (Some l, st')"
    and "getLockKey a \<notin> li_key ` set acq" and "0 < t" and "uuid env (ls_seq st) \<noteq> ''''"
  shows "holds K (acq @ [l]) s0 (ls_store st')"
proof -
  have l: "li_key l = getLockKey a" "li_lockId l = uuid env (ls_seq st)"
    using acquireLock_key[OF assms(2)] by simp_all
  have s': "ls_store st' = kv_set K (getLockKey a) (LockId (uuid env (ls_seq st))) t (ls_store st)"
    and free: "kv_get K (getLockKey a) (ls_store st) = None"
    using acquireLock_Some[OF assms(2)] by simp_all
  have "kv_get K (getLockKey a) s0 = None"
    using assms(1,3) free by (simp add: holds_def)
  moreover have "getLockKey a \<noteq> ''''" by (simp add: getLockKey_def)
  moreover have "kv_get K k (ls_store st') =
      (if k = getLockKey a then Some (LockId (uuid env (ls_seq st))) else kv_get K k (ls_store st))" for k
    using assms(4) by (simp add: s' get_set get_set_other)
  ultimately show ?thesis
    using assms(1,3,5) l by (auto simp: holds_def)
qed

lemma acquire_loop_correct:
  assumes "acquire_loop K env t accs acq st = (r, st')"
    and "holds K acq s0 (ls_store st)" and "healthy (ls_redis st)"
    and "distinct accs" and "\<forall>a \<in> set accs. getLockKey a \<notin> li_key ` set acq"
    and "0 < t" and "\<forall>n. uuid env n \<noteq> ''''"
  shows "healthy (ls_redis st') \<and>
    (case r of
       Inr ls \<Rightarrow> map li_accountNumber ls = map li_accountNumber acq @ accs \<and>
                 holds K ls s0 (ls_store st')
     | Inl e \<Rightarrow> e = lock_conflict \<and> (\<exists>a \<in> set accs. kv_get K (getLockKey a) s0 \<noteq> None) \<and>
                (\<forall>k. kv_get K k (ls_store st') = kv_get K k s0))"
  using assms(1-5)
proof (induction accs arbitrary: acq st)
  case Nil
  then show ?case by auto
next
  case (Cons a accs)
  obtain o1 st1 where a: "acquireLock K env a t st = (o1, st1)" by force
  from acquireLock_healthy(1)[OF Cons.prems(3), of K env a t] a have h1: "healthy (ls_redis st1)"
    by simp
  show ?case
  proof (cases o1)
    case None
    define st2 where "st2 = st1\<lparr>ls_metrics := (ls_metrics st1)
        \<lparr>lockConflicts := lockConflicts (ls_metrics st1) + 1\<rparr>\<rparr>"
    from None a Cons.prems(1) have r: "r = Inl lock_conflict"
      and st': "st' = releaseAccountLocks K acq st2"
      by (simp_all add: st2_def Let_def)
    from acquireLock_healthy(2)[OF Cons.prems(3)] a None
    have held: "kv_get K (getLockKey a) (ls_store st) \<noteq> None" and same: "ls_store st1 = ls_store st"
      by blast+
    from held Cons.prems(2,5) have "kv_get K (getLockKey a) s0 \<noteq> None"
      by (auto simp: holds_def)
    moreover have "holds K acq s0 (ls_store st2)" and h2: "healthy (ls_redis st2)"
      using Cons.prems(2) same h1 by (simp_all add: st2_def)
    then have "kv_get K k (ls_store st') = kv_get K k s0" for k
      using holds_release st' by simp
    moreover have "healthy (ls_redis st')"
      using h2 st' by (simp add: releaseAccountLocks_healthy)
    ultimately show ?thesis using r by auto
  next
    case (Some l)
    have l: "li_key l = getLockKey a" "li_accountNumber l = a"
      using acquireLock_key[of K env a t st l st1] a Some by simp_all
    have "holds K (acq @ [l]) s0 (ls_store st1)"
      using holds_acquire[OF Cons.prems(2)] a Some Cons.prems(5) assms(6,7) by simp
    moreover have "acquire_loop K env t accs (acq @ [l]) st1 = (r, st')"
      using Cons.prems(1) a Some by simp
    moreover have "\<forall>b \<in> set accs. getLockKey b \<notin> li_key ` set (acq @ [l])"
      using Cons.prems(4,5) l by auto
    ultimately show ?thesis
      using Cons.IH[of "acq @ [l]" st1] h1 Cons.prems(4) l by (auto split: sum.splits)
  qed
qed

lemma acquireAccountLocks_correct:
  assumes "acquireAccountLocks K env t accs st = (r, st')" and "healthy (ls_redis st)"
    and "0 < t" and "\<forall>n. uuid env n \<noteq> ''''"
  shows "healthy (ls_redis st') \<and>
    (case r of
       Inr ls \<Rightarrow> map li_accountNumber ls = sortedAccounts accs \<and>
                 holds K ls (ls_store st) (ls_store st')
     | Inl e \<Rightarrow> e = lock_conflict \<and>
                (\<exists>a \<in> set (sortedAccounts accs). kv_get K (getLockKey a) (ls_store st) \<noteq> None) \<and>
                (\<forall>k. kv_get K k (ls_store st') = kv_get K k (ls_store st)))"
  using acquire_loop_correct[of env t "sortedAccounts accs" "[]" st r st' "ls_store st"]
    assms sortedAccounts_distinct[of accs]
  by (auto simp: acquireAccountLocks_def split: sum.splits)

text \<open>
  Releasing after a callback that leaves the lock keys alone: keys of this module are lock
  keys, so every released key is one of them.
\<close>

lemma release_keeps_free:
  assumes "kv_get K k (ls_store st) = None"
  shows "kv_get K k (ls_store (releaseAccountLocks K ls st)) = None"
  using assms by (induction ls arbitrary: st) (simp_all add: releaseLock_get)

lemma release_owned:
  assumes "healthy (ls_redis st)" and "l \<in> set ls"
    and "li_key l \<noteq> ''''" and "li_lockId l \<noteq> ''''"
    and "kv_get K (li_key l) (ls_store st) = Some (LockId (li_lockId l))"
  shows "kv_get K (li_key l) (ls_store (releaseAccountLocks K ls st)) = None"
  using assms
proof (induction ls arbitrary: st)
  case Nil
  then show ?case by simp
next
  case (Cons m ls)
  define st1 where "st1 = snd (releaseLock K (Some m) st)"
  have h: "healthy (ls_redis st1)" using Cons.prems(1) by (simp add: st1_def releaseLock_healthy(1))
  show ?case
  proof (cases "kv_get K (li_key l) (ls_store st1) = None")
    case True
    then show ?thesis by (simp add: st1_def[symmetric] release_keeps_free)
  next
    case False
    have "kv_get K (li_key l) (ls_store st1) = Some (LockId (li_lockId l))"
      using False Cons.prems(5) releaseLock_store[of K m st]
      by (auto simp: st1_def get_release_lua split: if_splits)
    moreover have "l \<in> set ls"
      using False Cons.prems(2-5) releaseLock_healthy(2)[OF Cons.prems(1), of m K]
      by (auto simp: st1_def get_release_lua)
    ultimately show ?thesis
      using Cons.IH[OF h] Cons.prems(3,4) by (simp add: st1_def[symmetric])
  qed
qed

lemma release_other:
  assumes "k \<notin> li_key ` set ls"
  shows "kv_get K k (ls_store (releaseAccountLocks K ls st)) = kv_get K k (ls_store st)"
  using assms by (induction ls arbitrary: st) (simp_all add: releaseLock_get)

lemma release_after_callback:
  assumes "holds K ls s0 s1" and "healthy (ls_redis st)"
    and "\<And>b. kv_get K (getLockKey b) (ls_store st) = kv_get K (getLockKey b) s1"
  shows "kv_get K (getLockKey a) (ls_store (releaseAccountLocks K ls st)) = kv_get K (getLockKey a) s0"
proof (cases "getLockKey a \<in> li_key ` set ls")
  case True
  then obtain l where l: "l \<in> set ls" "li_key l = getLockKey a" by auto
  with assms show ?thesis
    using release_owned[OF assms(2), of l ls] by (auto simp: holds_def)
next
  case False
  with assms show ?thesis by (simp add: release_other holds_def)
qed

lemma withAccountLocks_frees:
  assumes "withAccountLocks K env t accs callback st = (r, st')" and "healthy (ls_redis st)"
    and "0 < t" and "\<forall>n. uuid env n \<noteq> ''''"
    and callback: "\<And>st1. healthy (ls_redis st1) \<Longrightarrow> healthy (ls_redis (snd (callback st1))) \<and>
          (\<forall>a. kv_get K (getLockKey a) (ls_store (snd (callback st1))) =
                kv_get K (getLockKey a) (ls_store st1))"
  shows "kv_get K (getLockKey a) (ls_store st') = kv_get K (getLockKey a) (ls_store st)"
proof -
  obtain ls st1 where a: "acquireAccountLocks K env t accs st = (ls, st1)" by force
  note ok = acquireAccountLocks_correct[OF a assms(2-4)]
  show ?thesis
  proof (cases ls)
    case (Inl e)
    with ok a assms(1) show ?thesis by (simp add: withAccountLocks_def)
  next
    case (Inr xs)
    obtain r2 st2 where cb: "callback st1 = (r2, st2)" by force
    from Inr a cb assms(1) have st': "st' = releaseAccountLocks K xs st2"
      by (simp add: withAccountLocks_def)
    from ok Inr have h1: "healthy (ls_redis st1)" and hold: "holds K xs (ls_store st) (ls_store st1)"
      by simp_all
    from callback[OF h1] cb have h2: "healthy (ls_redis st2)"
      and same: "\<And>b. kv_get K (getLockKey b) (ls_store st2) = kv_get K (getLockKey b) (ls_store st1)"
      by simp_all
    show ?thesis unfolding st'
      by (rule release_after_callback[OF hold h2 same])
  qed
qed

end

subsection \<open>Many processes\<close>

text \<open>
  Several payment processes share database 2. \<open>lw_issued\<close> are the locks ever handed out,
  \<open>lw_held\<close> those a process still works under, with the milliseconds left of their time to
  live. A process may release a lock whose time is over, may crash, and any call may fail or
  lose its reply.
\<close>

record 's lock_world =
  lw_service :: "'s lock_service"
  lw_issued :: "lock_info list"
  lw_held :: "(lock_info \<times> nat) list"

definition advance :: "nat \<Rightarrow> (lock_info \<times> nat) list \<Rightarrow> (lock_info \<times> nat) list" where
  "advance d hs = map (\<lambda>(l, t). (l, t - d)) (filter (\<lambda>(l, t). d < t) hs)"

definition drop_lock :: "lock_info \<Rightarrow> (lock_info \<times> nat) list \<Rightarrow> (lock_info \<times> nat) list" where
  "drop_lock l hs = filter (\<lambda>h. fst h \<noteq> l) hs"

inductive lock_step ::
  "('s, 'd db2_value) kv \<Rightarrow> lock_env \<Rightarrow> 's lock_world \<Rightarrow> 's lock_world \<Rightarrow> bool"
  for K :: "('s, 'd db2_value) kv" and env :: lock_env where
  acquired: "acquireLock K env a t (lw_service w) = (Some l, st') \<Longrightarrow> 0 < t \<Longrightarrow>
     lock_step K env w (w\<lparr>lw_service := st', lw_issued := l # lw_issued w,
                            lw_held := (l, t) # lw_held w\<rparr>)"
| refused: "acquireLock K env a t (lw_service w) = (None, st') \<Longrightarrow> 0 < t \<Longrightarrow>
     lock_step K env w (w\<lparr>lw_service := st'\<rparr>)"
| released: "l \<in> set (lw_issued w) \<Longrightarrow> releaseLock K (Some l) (lw_service w) = (b, st') \<Longrightarrow>
     lock_step K env w (w\<lparr>lw_service := st', lw_held := drop_lock l (lw_held w)\<rparr>)"
| crashed: "lock_step K env w (w\<lparr>lw_held := drop_lock l (lw_held w)\<rparr>)"
| waited: "lock_step K env w (w\<lparr>lw_service := (lw_service w)\<lparr>ls_redis := (ls_redis (lw_service w))
              \<lparr>store := kv_wait K d (ls_store (lw_service w))\<rparr>\<rparr>,
            lw_held := advance d (lw_held w)\<rparr>)"

inductive lock_reachable ::
  "('s, 'd db2_value) kv \<Rightarrow> lock_env \<Rightarrow> 's lock_service \<Rightarrow> 's lock_world \<Rightarrow> bool"
  for K :: "('s, 'd db2_value) kv" and env :: lock_env and st0 :: "'s lock_service" where
  start: "lock_reachable K env st0 \<lparr>lw_service = st0, lw_issued = [], lw_held = []\<rparr>"
| more: "lock_reachable K env st0 w \<Longrightarrow> lock_step K env w w' \<Longrightarrow> lock_reachable K env st0 w'"

definition lock_inv :: "('s, 'd db2_value) kv \<Rightarrow> lock_env \<Rightarrow> 's lock_world \<Rightarrow> bool" where
  "lock_inv K env w \<longleftrightarrow>
     (\<forall>l \<in> set (lw_issued w). \<exists>m < ls_seq (lw_service w). li_lockId l = uuid env m) \<and>
     distinct (map li_lockId (lw_issued w)) \<and>
     fst ` set (lw_held w) \<subseteq> set (lw_issued w) \<and>
     (\<forall>h \<in> set (lw_held w). li_key (fst h) = getLockKey (li_accountNumber (fst h)) \<and>
        kv_get K (li_key (fst h)) (ls_store (lw_service w)) = Some (LockId (li_lockId (fst h))) \<and>
        kv_ttl K (li_key (fst h)) (ls_store (lw_service w)) = Some (snd h)) \<and>
     distinct (map (\<lambda>h. li_accountNumber (fst h)) (lw_held w))"

lemma drop_lock_subset: "set (drop_lock l hs) \<subseteq> set hs"
  by (auto simp: drop_lock_def)

lemma distinct_drop_lock: "distinct (map f hs) \<Longrightarrow> distinct (map f (drop_lock l hs))"
  by (simp add: drop_lock_def distinct_map_filter)

lemma advance_fst: "map (\<lambda>h. g (fst h)) (advance d hs) = map (\<lambda>h. g (fst h)) (filter (\<lambda>(l, t). d < t) hs)"
  by (auto simp: advance_def)

context lock_store
begin

lemma inv_acquired:
  assumes inv: "lock_inv K env w" and inj: "inj (uuid env)"
    and acq: "acquireLock K env a t (lw_service w) = (Some l, st')" and t: "0 < t"
  shows "lock_inv K env (w\<lparr>lw_service := st', lw_issued := l # lw_issued w,
                             lw_held := (l, t) # lw_held w\<rparr>)"
proof -
  let ?st = "lw_service w"
  have l: "li_key l = getLockKey a" "li_lockId l = uuid env (ls_seq ?st)" "li_accountNumber l = a"
    using acquireLock_key[OF acq] by simp_all
  have seq: "ls_seq st' = ls_seq ?st + 1" using acquireLock_seq[of K env a t ?st] acq by simp
  have free: "kv_get K (getLockKey a) (ls_store ?st) = None"
    and s': "ls_store st' = kv_set K (getLockKey a) (LockId (uuid env (ls_seq ?st))) t (ls_store ?st)"
    using acquireLock_Some[OF acq] by simp_all
  have other: "\<forall>h \<in> set (lw_held w). li_accountNumber (fst h) \<noteq> a"
    using inv free by (auto simp: lock_inv_def)
  have fresh: "\<forall>m \<in> set (lw_issued w). uuid env (ls_seq ?st) \<noteq> li_lockId m"
    using inv inj by (force simp: lock_inv_def inj_eq)
  have drawn: "\<forall>m \<in> set (lw_issued w). \<exists>i < Suc (ls_seq ?st). li_lockId m = uuid env i"
    using inv by (meson less_SucI lock_inv_def)
  show ?thesis
    using inv l seq other fresh drawn t
    unfolding lock_inv_def
    by (auto simp: s' get_set get_set_other ttl_set ttl_set_other image_iff)
qed

lemma inv_refused:
  assumes inv: "lock_inv K env w"
    and acq: "acquireLock K env a t (lw_service w) = (None, st')"
  shows "lock_inv K env (w\<lparr>lw_service := st'\<rparr>)"
proof -
  let ?st = "lw_service w"
  have seq: "ls_seq st' = ls_seq ?st + 1" using acquireLock_seq[of K env a t ?st] acq by simp
  have keep: "kv_get K k (ls_store st') = kv_get K k (ls_store ?st) \<and>
      kv_ttl K k (ls_store st') = kv_ttl K k (ls_store ?st)"
    if "kv_get K k (ls_store ?st) \<noteq> None" for k
  proof (cases "k = getLockKey a")
    case True
    with that acquireLock_store[of K env a t ?st] acq show ?thesis
      by (auto simp: set_nx_px_def)
  next
    case False
    with acquireLock_store[of K env a t ?st] acq show ?thesis
      by (auto simp: set_nx_px_def get_set_other ttl_set_other split: option.splits)
  qed
  have drawn: "\<forall>m \<in> set (lw_issued w). \<exists>i < Suc (ls_seq ?st). li_lockId m = uuid env i"
    using inv by (meson less_SucI lock_inv_def)
  show ?thesis
    using inv seq keep drawn unfolding lock_inv_def by auto
qed

lemma inv_released:
  assumes inv: "lock_inv K env w" and l: "l \<in> set (lw_issued w)"
    and rel: "releaseLock K (Some l) (lw_service w) = (b, st')"
  shows "lock_inv K env (w\<lparr>lw_service := st', lw_held := drop_lock l (lw_held w)\<rparr>)"
proof -
  let ?st = "lw_service w"
  have seq: "ls_seq st' = ls_seq ?st" using releaseLock_seq[of K l ?st] rel by simp
  have keep: "kv_get K k (ls_store st') = kv_get K k (ls_store ?st) \<and>
      kv_ttl K k (ls_store st') = kv_ttl K k (ls_store ?st)"
    if "kv_get K k (ls_store ?st) = Some (LockId i)" "i \<noteq> li_lockId l" for k i
    using that releaseLock_store[of K l ?st] rel
    by (cases "k = li_key l")
       (auto simp: release_lock_lua_def get_del_other ttl_del_other Let_def)
  have diff: "li_lockId (fst h) \<noteq> li_lockId l" if "h \<in> set (drop_lock l (lw_held w))" for h
  proof -
    from that inv have "fst h \<in> set (lw_issued w)" "fst h \<noteq> l"
      by (auto simp: lock_inv_def drop_lock_def)
    with inv l show ?thesis unfolding lock_inv_def by (metis distinct_map_eq)
  qed
  show ?thesis
    unfolding lock_inv_def
  proof (intro conjI ballI)
    fix h assume "h \<in> set (lw_held (w\<lparr>lw_service := st', lw_held := drop_lock l (lw_held w)\<rparr>))"
    then have h: "h \<in> set (drop_lock l (lw_held w))" by simp
    then have "h \<in> set (lw_held w)" using drop_lock_subset by blast
    with inv have old: "li_key (fst h) = getLockKey (li_accountNumber (fst h))"
      "kv_get K (li_key (fst h)) (ls_store ?st) = Some (LockId (li_lockId (fst h)))"
      "kv_ttl K (li_key (fst h)) (ls_store ?st) = Some (snd h)"
      by (auto simp: lock_inv_def)
    note new = keep[OF old(2) diff[OF h]]
    show "li_key (fst h) = getLockKey (li_accountNumber (fst h))" by (rule old(1))
    show "kv_get K (li_key (fst h)) (ls_store (lw_service (w\<lparr>lw_service := st',
        lw_held := drop_lock l (lw_held w)\<rparr>))) = Some (LockId (li_lockId (fst h)))"
      using new old by simp
    show "kv_ttl K (li_key (fst h)) (ls_store (lw_service (w\<lparr>lw_service := st',
        lw_held := drop_lock l (lw_held w)\<rparr>))) = Some (snd h)"
      using new old by simp
  qed (use inv seq in \<open>auto simp: lock_inv_def distinct_drop_lock dest: subsetD[OF drop_lock_subset]\<close>)
qed

lemma inv_waited:
  assumes inv: "lock_inv K env w"
  shows "lock_inv K env (w\<lparr>lw_service := (lw_service w)\<lparr>ls_redis := (ls_redis (lw_service w))
              \<lparr>store := kv_wait K d (ls_store (lw_service w))\<rparr>\<rparr>,
            lw_held := advance d (lw_held w)\<rparr>)"
proof -
  have "distinct (map (\<lambda>h. li_accountNumber (fst h)) (advance d (lw_held w)))"
    using inv by (simp add: advance_fst distinct_map_filter lock_inv_def)
  then show ?thesis
    using inv unfolding lock_inv_def
    by (fastforce simp: advance_def wait_get wait_ttl)
qed

lemma lock_step_inv:
  assumes "lock_step K env w w'" and "lock_inv K env w" and "inj (uuid env)"
  shows "lock_inv K env w'"
  using assms
proof (induction rule: lock_step.induct)
  case (crashed w l)
  then show ?case
    using drop_lock_subset[of l "lw_held w"]
    by (auto simp: lock_inv_def distinct_drop_lock)
qed (blast intro: inv_acquired inv_refused inv_released inv_waited)+

lemma reachable_inv:
  assumes "lock_reachable K env st0 w" and "inj (uuid env)"
  shows "lock_inv K env w"
  using assms(1)
proof (induction rule: lock_reachable.induct)
  case start
  show ?case by (simp add: lock_inv_def)
next
  case (more w w')
  with assms(2) show ?case by (blast intro: lock_step_inv)
qed

end

interpretation mem_locks: lock_store "mem_kv :: ('d db2_value mem, 'd db2_value) kv"
  by unfold_locales

subsection \<open>Properties\<close>

text \<open>A concrete setting for the witnesses: an empty store, distinct identifiers.\<close>

definition demo_env :: lock_env where
  "demo_env = \<lparr>uuid = (\<lambda>n. ''id'' @ replicate n (CHR ''x'')), elapsed = (\<lambda>_. 2)\<rparr>"

definition demo_locks :: "nat db2_value mem lock_service" where
  "demo_locks = \<lparr>ls_redis = \<lparr>store = mem_empty, faults = []\<rparr>,
     ls_metrics = \<lparr>locksAcquired = 0, lockConflicts = 0, locksReleased = 0,
       idempotencyHitsRedis = 0, idempotencyHitsPostgres = 0, lockWaitTimeTotalMs = 0\<rparr>,
     ls_seq = 0\<rparr>"

lemma demo_env_uuid: "inj (uuid demo_env)" "\<forall>n. uuid demo_env n \<noteq> ''''"
  by (auto simp: demo_env_def inj_def)

lemma demo_locks_healthy [simp]: "healthy (ls_redis demo_locks)"
  by (simp add: demo_locks_def healthy_def)

lemma demo_locks_free [simp]: "kv_get mem_kv k (ls_store demo_locks) = None"
  by (simp add: demo_locks_def mem_kv_def mem_live_def mem_empty_def)

text \<open>
  Two transfers over the same accounts always lock them in the same order: the accounts
  locked are the non-empty account numbers in strictly ascending order, whatever the order and
  the repetitions of the argument list.
\<close>

lemma lock_order_canonical:
  "sortedAccounts accs = sorted_list_of_set (set accs - {''''})"
proof (rule sorted_distinct_set_unique)
  show "sorted (sortedAccounts accs)" "distinct (sortedAccounts accs)"
    by (rule sortedAccounts_sorted sortedAccounts_distinct)+
qed (simp_all add: sortedAccounts_set)

text \<open>
  C32: Locking several accounts is all or nothing: with Redis reachable, either every account is
  locked, in order, each under its own identifier on a key that was free, and nothing else in
  the store changed; or some account was held by another process, the caller gets the 409
  conflict, and every key has its old value again.
\<close>

theorem acquire_all_or_nothing:
  assumes "lock_store K" and "healthy (ls_redis st)" and "0 < t" and "\<forall>n. uuid env n \<noteq> ''''"
    and "acquireAccountLocks K env t accs st = (r, st')"
  shows "case r of
      Inr ls \<Rightarrow> map li_accountNumber ls = sortedAccounts accs \<and> holds K ls (ls_store st) (ls_store st')
    | Inl e \<Rightarrow> statusCode e = Some 409 \<and>
        (\<exists>a \<in> set (sortedAccounts accs). kv_get K (getLockKey a) (ls_store st) \<noteq> None) \<and>
        (\<forall>k. kv_get K k (ls_store st') = kv_get K k (ls_store st))"
  using lock_store.acquireAccountLocks_correct[OF assms(1,5,2,3,4)]
  by (auto simp: lock_conflict_def error_defs split: sum.splits)

theorem acquire_all_or_nothing_witness:
  "case acquireAccountLocks mem_kv demo_env 10000 [''b'', ''a''] demo_locks of
     (Inr ls, st') \<Rightarrow> map li_accountNumber ls = [''a'', ''b''] \<and>
        holds mem_kv ls (ls_store demo_locks) (ls_store st')
   | (Inl e, st') \<Rightarrow> False"
proof -
  obtain r st' where a: "acquireAccountLocks mem_kv demo_env 10000 [''b'', ''a''] demo_locks = (r, st')"
    by force
  have s: "sortedAccounts [''b'', ''a''] = [''a'', ''b'']" by code_simp
  from acquire_all_or_nothing[OF mem_locks.lock_store_axioms demo_locks_healthy _ demo_env_uuid(2) a]
  show ?thesis by (auto simp: a s split: sum.splits)
qed

text \<open>
  C33: \<open>withAccountLocks\<close> never leaves a lock behind: with Redis reachable and a callback that
  does not write lock keys, every lock key has after the call the value it had before, whether
  the locks were refused, the callback returned or the callback threw.
\<close>

theorem with_locks_releases:
  assumes "lock_store K" and "healthy (ls_redis st)" and "0 < t" and "\<forall>n. uuid env n \<noteq> ''''"
    and "\<And>st1. healthy (ls_redis st1) \<Longrightarrow> healthy (ls_redis (snd (callback st1))) \<and>
          (\<forall>a. kv_get K (getLockKey a) (ls_store (snd (callback st1))) =
                kv_get K (getLockKey a) (ls_store st1))"
  shows "kv_get K (getLockKey a) (ls_store (snd (withAccountLocks K env t accs callback st))) =
         kv_get K (getLockKey a) (ls_store st)"
  using lock_store.withAccountLocks_frees[OF assms(1) _ assms(2-4), of accs callback _ _ a] assms(5)
  by (cases "withAccountLocks K env t accs callback st") auto

theorem with_locks_releases_witness:
  "kv_get mem_kv (getLockKey ''a'') (ls_store (snd (withAccountLocks mem_kv demo_env 10000 [''a'']
     (\<lambda>st. (Inl (PlainError None (Msg ''boom'')) :: app_error + nat, st)) demo_locks))) = None"
  using with_locks_releases[OF mem_locks.lock_store_axioms demo_locks_healthy _ demo_env_uuid(2),
      of 10000 "\<lambda>st. (Inl (PlainError None (Msg ''boom'')) :: app_error + nat, st)" "''a''" "[''a'']"]
  by simp

text \<open>
  C5: Mutual exclusion: in every state several processes can reach, through lost replies,
  crashes, late releases and the passing of time, no two locks that are still within their time
  to live are on the same account.
\<close>

theorem lock_mutual_exclusion:
  assumes "lock_store K" and "inj (uuid env)" and "lock_reachable K env st0 w"
    and "h \<in> set (lw_held w)" and "h' \<in> set (lw_held w)"
    and "li_accountNumber (fst h) = li_accountNumber (fst h')"
  shows "h = h'"
  using lock_store.reachable_inv[OF assms(1,3,2)] assms(4-6)
  by (auto simp: lock_inv_def dest: distinct_map_eq)

theorem lock_mutual_exclusion_witness:
  "\<exists>w h. lock_reachable mem_kv demo_env demo_locks w \<and> h \<in> set (lw_held w) \<and>
     (\<forall>h' \<in> set (lw_held w). li_accountNumber (fst h') = li_accountNumber (fst h) \<longrightarrow> h' = h)"
proof -
  define w0 where "w0 = \<lparr>lw_service = demo_locks, lw_issued = [], lw_held = []\<rparr>"
  obtain o1 st' where a: "acquireLock mem_kv demo_env ''a'' 10000 demo_locks = (o1, st')" by force
  with acquireLock_healthy(2)[OF demo_locks_healthy, of mem_kv demo_env "''a''" 10000 st']
  obtain l where l: "o1 = Some l" by (cases o1) simp_all
  have r0: "lock_reachable mem_kv demo_env demo_locks w0"
    unfolding w0_def by (rule lock_reachable.start)
  have "lock_reachable mem_kv demo_env demo_locks
      (w0\<lparr>lw_service := st', lw_issued := l # lw_issued w0, lw_held := (l, 10000) # lw_held w0\<rparr>)"
    by (rule lock_reachable.more[OF r0], rule lock_step.acquired)
       (use a l in \<open>simp_all add: w0_def\<close>)
  then show ?thesis
    using lock_mutual_exclusion[OF mem_locks.lock_store_axioms demo_env_uuid(1)]
    by (metis list.set_intros(1) lock_world.select_convs(3) lock_world.surjective
        lock_world.update_convs(3))
qed

end
