(* ===== verification/Database.thy ===== *)
theory Database
  imports Http JSNum
begin

text \<open>
  The relational state all services share, one record per model of
  \<open>services/ledger-service/prisma/schema.prisma\<close> (the root schema adds the notification
  audits). Money columns hold whole cents. A table is the list of its rows in insertion order;
  \<open>db_now\<close> is the clock of \<open>now()\<close> and \<open>db_seq\<close> counts the identifiers generated so far.
\<close>

datatype account_type = SAVINGS | CHECKING | INVESTMENT
datatype account_status = ACTIVE | FROZEN | CLOSED
datatype tx_category = DEPOSIT | WITHDRAWAL | TRANSFER
datatype tx_status = PENDING | PROCESSING | COMPLETED | FAILED | REVERSED
datatype entry_type = DEBIT | CREDIT
datatype outbox_status = OB_PENDING | OB_PUBLISHED | OB_FAILED
datatype notif_status = NS_PENDING | NS_SENT | NS_FAILED | NS_DELIVERED
datatype notif_type = EMAIL | SMS | PUSH

fun show_status :: "account_status \<Rightarrow> string" where
  "show_status ACTIVE = ''ACTIVE''"
| "show_status FROZEN = ''FROZEN''"
| "show_status CLOSED = ''CLOSED''"

record user =
  u_id :: string
  u_email :: string
  u_passwordHash :: string
  u_firstName :: string
  u_lastName :: string
  u_role :: role
  u_isActive :: bool
  u_deletedAt :: "nat option"
  u_createdAt :: nat

record account =
  a_id :: string
  a_accountNumber :: string
  a_userId :: string
  a_type :: account_type
  a_status :: account_status
  a_balance :: int
  a_currency :: string
  a_version :: int
  a_deletedAt :: "nat option"
  a_createdAt :: nat

record transaction =
  t_id :: string
  t_idempotencyKey :: string
  t_referenceId :: "string option"
  t_sourceAccountId :: "string option"
  t_targetAccountId :: "string option"
  t_amount :: int
  t_currency :: string
  t_type :: tx_category
  t_status :: tx_status
  t_description :: "string option"
  t_failureReason :: "err_msg option"
  t_createdAt :: nat

record ledger_entry =
  l_id :: string
  l_transactionId :: string
  l_accountId :: string
  l_type :: entry_type
  l_amount :: int
  l_balanceAfter :: int
  l_createdAt :: nat

text \<open>The JSON payloads of events and notifications; absent fields are \<^const>\<open>None\<close>.\<close>

record payload =
  p_transactionId :: "string option"
  p_referenceId :: "string option"
  p_sourceAccountId :: "string option"
  p_targetAccountId :: "string option"
  p_accountId :: "string option"
  p_accountNumber :: "string option"
  p_sourceAccountNumber :: "string option"
  p_targetAccountNumber :: "string option"
  p_amount :: "rat option"
  p_currency :: "string option"
  p_userId :: "string option"
  p_email :: "string option"
  p_recipient :: "string option"
  p_phone :: "string option"
  p_phoneNumber :: "string option"
  p_userEmail :: "string option" \<comment> \<open>\<open>payload.user?.email\<close>\<close>
  p_routingKey :: "string option"
  p_traceId :: "string option"
  p_reason :: "string option"
  p_message :: "string option"
  p_subject :: "string option"
  p_body :: "string option"
  p_simulateFailure :: bool

definition no_payload :: payload where
  "no_payload = \<lparr>p_transactionId = None, p_referenceId = None, p_sourceAccountId = None,
     p_targetAccountId = None, p_accountId = None, p_accountNumber = None,
     p_sourceAccountNumber = None, p_targetAccountNumber = None, p_amount = None,
     p_currency = None, p_userId = None, p_email = None, p_recipient = None, p_phone = None,
     p_phoneNumber = None, p_userEmail = None, p_routingKey = None, p_traceId = None,
     p_reason = None, p_message = None, p_subject = None, p_body = None,
     p_simulateFailure = False\<rparr>"

record outbox_event =
  o_id :: string
  o_aggregateType :: string
  o_aggregateId :: string
  o_eventType :: string
  o_payload :: payload
  o_status :: outbox_status
  o_retryCount :: nat
  o_error :: "err_msg option"
  o_processedAt :: "nat option"
  o_createdAt :: nat
  o_updatedAt :: nat
  o_transactionId :: "string option"

record audit_log =
  au_id :: string
  au_userId :: "string option"
  au_action :: string
  au_entity :: string
  au_entityId :: "string option"
  au_metadata :: payload
  au_ipAddress :: "string option"
  au_userAgent :: "string option"
  au_createdAt :: nat

record notification_audit =
  n_id :: string
  n_eventId :: string
  n_transactionId :: "string option"
  n_type :: notif_type
  n_recipient :: string
  n_status :: notif_status
  n_retryCount :: nat
  n_errorMessage :: "err_msg option"
  n_traceId :: "string option"
  n_payload :: payload
  n_createdAt :: nat

record db =
  db_users :: "user list"
  db_accounts :: "account list"
  db_transactions :: "transaction list"
  db_entries :: "ledger_entry list"
  db_outbox :: "outbox_event list"
  db_audits :: "audit_log list"
  db_notifications :: "notification_audit list"
  db_now :: nat
  db_seq :: nat

text \<open>
  Inputs of the data layer that are not in the repository: the generator of \<open>uuid()\<close> defaults
  and the conversion of a JavaScript number to a \<open>Decimal(18, 2)\<close> column.
\<close>

record db_env =
  new_id :: "nat \<Rightarrow> string"
  to_dec :: "rat \<Rightarrow> int option"

definition unique_violation :: app_error where
  "unique_violation = PlainError None (Msg ''P2002'')"

definition numeric_overflow :: app_error where
  "numeric_overflow = PlainError None (Msg ''numeric field overflow'')"

definition record_not_found :: app_error where
  "record_not_found = PlainError None (Msg ''P2025'')"

subsection \<open>Transactions\<close>

text \<open>\<open>prisma.$transaction(body)\<close>: when the body throws, its writes are undone.\<close>

definition in_transaction ::
  "(db \<Rightarrow> (app_error + 'a) \<times> db) \<Rightarrow> db \<Rightarrow> (app_error + 'a) \<times> db" where
  "in_transaction body db =
     (case body db of (Inl e, _) \<Rightarrow> (Inl e, db) | (Inr x, db') \<Rightarrow> (Inr x, db'))"

lemma in_transaction_rollback: "in_transaction body db = (Inl e, db') \<Longrightarrow> db' = db"
  by (auto simp: in_transaction_def split: prod.splits sum.splits)

lemma in_transaction_Inr: "in_transaction body db = (Inr x, db') \<longleftrightarrow> body db = (Inr x, db')"
  by (auto simp: in_transaction_def split: prod.splits sum.splits)

lemma in_transaction_Inl: "in_transaction body db = (Inl e, db') \<longleftrightarrow>
    db' = db \<and> (\<exists>d. body db = (Inl e, d))"
  by (auto simp: in_transaction_def split: prod.splits sum.splits)

subsection \<open>Rows\<close>

text \<open>\<open>account.findFirst({ where: { accountNumber, deletedAt: null } })\<close>\<close>

definition account_by_number :: "string \<Rightarrow> db \<Rightarrow> account option" where
  "account_by_number n db =
     List.find (\<lambda>a. a_accountNumber a = n \<and> a_deletedAt a = None) (db_accounts db)"

definition account_by_id :: "string \<Rightarrow> db \<Rightarrow> account option" where
  "account_by_id i db = List.find (\<lambda>a. a_id a = i) (db_accounts db)"

definition tx_by_key :: "string \<Rightarrow> db \<Rightarrow> transaction option" where
  "tx_by_key k db = List.find (\<lambda>t. t_idempotencyKey t = k) (db_transactions db)"

definition tx_by_id :: "string \<Rightarrow> db \<Rightarrow> transaction option" where
  "tx_by_id i db = List.find (\<lambda>t. t_id t = i) (db_transactions db)"

definition entries_of :: "string \<Rightarrow> db \<Rightarrow> ledger_entry list" where
  "entries_of i db = filter (\<lambda>e. l_transactionId e = i) (db_entries db)"

definition user_by_id :: "string \<Rightarrow> db \<Rightarrow> user option" where
  "user_by_id i db = List.find (\<lambda>u. u_id u = i \<and> u_deletedAt u = None) (db_users db)"

text \<open>
  \<open>account.updateMany({ where: { id, version }, data: { balance, version: +1 } })\<close>: the number
  of rows updated and the new table.
\<close>

definition update_account_cas :: "string \<Rightarrow> int \<Rightarrow> int \<Rightarrow> db \<Rightarrow> nat \<times> db" where
  "update_account_cas i v bal db =
     (length (filter (\<lambda>a. a_id a = i \<and> a_version a = v) (db_accounts db)),
      db\<lparr>db_accounts := map (\<lambda>a. if a_id a = i \<and> a_version a = v
            then a\<lparr>a_balance := bal, a_version := a_version a + 1\<rparr> else a) (db_accounts db)\<rparr>)"

text \<open>\<open>transaction.create\<close>: the unique columns are the idempotency key and the reference.\<close>

definition create_tx :: "db_env \<Rightarrow> (string \<Rightarrow> nat \<Rightarrow> transaction) \<Rightarrow> db
    \<Rightarrow> (app_error + transaction) \<times> db" where
  "create_tx env mk db =
     (let t = mk (new_id env (db_seq db)) (db_now db)
      in if (\<exists>u \<in> set (db_transactions db). t_idempotencyKey u = t_idempotencyKey t \<or>
               (t_referenceId u \<noteq> None \<and> t_referenceId u = t_referenceId t))
         then (Inl unique_violation, db)
         else (Inr t, db\<lparr>db_transactions := db_transactions db @ [t], db_seq := db_seq db + 1\<rparr>))"

definition create_entry :: "db_env \<Rightarrow> string \<Rightarrow> string \<Rightarrow> entry_type \<Rightarrow> int \<Rightarrow> int \<Rightarrow> db
    \<Rightarrow> ledger_entry \<times> db" where
  "create_entry env tid aid ty amt bal db =
     (let e = \<lparr>l_id = new_id env (db_seq db), l_transactionId = tid, l_accountId = aid,
               l_type = ty, l_amount = amt, l_balanceAfter = bal, l_createdAt = db_now db\<rparr>
      in (e, db\<lparr>db_entries := db_entries db @ [e], db_seq := db_seq db + 1\<rparr>))"

definition set_tx_status :: "string \<Rightarrow> tx_status \<Rightarrow> err_msg option \<Rightarrow> db
    \<Rightarrow> (app_error + transaction) \<times> db" where
  "set_tx_status i s reason db =
     (let upd = (\<lambda>t. t\<lparr>t_status := s,
                   t_failureReason := (case reason of None \<Rightarrow> t_failureReason t | Some r \<Rightarrow> Some r)\<rparr>)
      in case tx_by_id i db of
           None \<Rightarrow> (Inl record_not_found, db)
         | Some t \<Rightarrow> (Inr (upd t), db\<lparr>db_transactions :=
                        map (\<lambda>t. if t_id t = i then upd t else t) (db_transactions db)\<rparr>))"

subsection \<open>Well-formedness and totals\<close>

text \<open>The primary keys and unique columns of the account and transaction tables.\<close>

definition wf_db :: "db \<Rightarrow> bool" where
  "wf_db db \<longleftrightarrow> distinct (map a_id (db_accounts db)) \<and>
     distinct (map a_accountNumber (db_accounts db)) \<and>
     distinct (map t_idempotencyKey (db_transactions db))"

definition total_balance :: "db \<Rightarrow> int" where
  "total_balance db = (\<Sum>a\<leftarrow>db_accounts db. a_balance a)"

definition signed :: "ledger_entry \<Rightarrow> int" where
  "signed e = (case l_type e of CREDIT \<Rightarrow> l_amount e | DEBIT \<Rightarrow> - l_amount e)"

definition entry_sum :: "string \<Rightarrow> ledger_entry list \<Rightarrow> int" where
  "entry_sum aid es = (\<Sum>e\<leftarrow>filter (\<lambda>e. l_accountId e = aid) es. signed e)"

lemma entry_sum_simps [simp]:
  "entry_sum aid [] = 0"
  "entry_sum aid (es @ fs) = entry_sum aid es + entry_sum aid fs"
  "entry_sum aid (e # es) = (if l_accountId e = aid then signed e else 0) + entry_sum aid es"
  by (simp_all add: entry_sum_def)

lemma account_by_number_SomeD: "account_by_number n db = Some a \<Longrightarrow>
    a \<in> set (db_accounts db) \<and> a_accountNumber a = n \<and> a_deletedAt a = None"
  by (auto simp: account_by_number_def dest: find_SomeD)

lemma tx_by_key_SomeD: "tx_by_key k db = Some t \<Longrightarrow> t \<in> set (db_transactions db) \<and> t_idempotencyKey t = k"
  by (auto simp: tx_by_key_def dest: find_SomeD)

text \<open>A compare-and-set on a row read from the same table hits exactly that row.\<close>

definition set_balance :: "account \<Rightarrow> int \<Rightarrow> account list \<Rightarrow> account list" where
  "set_balance a bal as = map (\<lambda>b. if a_id b = a_id a
      then b\<lparr>a_balance := bal, a_version := a_version b + 1\<rparr> else b) as"

lemma update_cas_hit:
  assumes "distinct (map a_id (db_accounts db))" and "a \<in> set (db_accounts db)"
  shows "update_account_cas (a_id a) (a_version a) bal db =
           (1, db\<lparr>db_accounts := set_balance a bal (db_accounts db)\<rparr>)"
proof -
  have eq: "b = a" if "b \<in> set (db_accounts db)" "a_id b = a_id a" for b
    using distinct_map_eq[OF assms(1)] assms(2) that by blast
  have "filter (\<lambda>b. a_id b = a_id a \<and> a_version b = a_version a) (db_accounts db) =
        filter (\<lambda>b. b = a) (db_accounts db)"
    using eq by (intro filter_cong) auto
  moreover have "length (filter (\<lambda>b. b = a) (db_accounts db)) = 1"
  proof -
    have "distinct (db_accounts db)" using assms(1) by (simp add: distinct_map)
    then have "length (filter (\<lambda>b. b = a) (db_accounts db)) = card ({b. b = a} \<inter> set (db_accounts db))"
      by (rule distinct_length_filter)
    also have "{b. b = a} \<inter> set (db_accounts db) = {a}" using assms(2) by auto
    finally show ?thesis by simp
  qed
  moreover have "map (\<lambda>b. if a_id b = a_id a \<and> a_version b = a_version a
      then b\<lparr>a_balance := bal, a_version := a_version b + 1\<rparr> else b) (db_accounts db) =
      set_balance a bal (db_accounts db)"
    unfolding set_balance_def using eq by (intro map_cong) auto
  ultimately show ?thesis by (simp add: update_account_cas_def)
qed

lemma update_cas_miss:
  assumes "\<And>b. b \<in> set (db_accounts db) \<Longrightarrow> a_id b = i \<Longrightarrow> a_version b \<noteq> v"
  shows "fst (update_account_cas i v bal db) = 0"
  using assms by (auto simp: update_account_cas_def filter_empty_conv)

lemma set_balance_keys [simp]:
  "map a_id (set_balance a bal as) = map a_id as"
  "map a_accountNumber (set_balance a bal as) = map a_accountNumber as"
  by (auto simp: set_balance_def)

lemma set_balance_mem:
  "b \<in> set (set_balance a bal as) \<longleftrightarrow>
     (\<exists>c \<in> set as. b = (if a_id c = a_id a then c\<lparr>a_balance := bal, a_version := a_version c + 1\<rparr> else c))"
  by (auto simp: set_balance_def)

lemma sum_set_balance:
  assumes "distinct (map a_id as)" and "a \<in> set as"
  shows "(\<Sum>b\<leftarrow>set_balance a bal as. a_balance b) = (\<Sum>b\<leftarrow>as. a_balance b) - a_balance a + bal"
  unfolding set_balance_def
  using sum_list_update_key[OF assms, of "a_balance" "\<lambda>b. b\<lparr>a_balance := bal, a_version := a_version b + 1\<rparr>"]
  by simp

lemma find_set_balance:
  assumes "\<And>c. P (c\<lparr>a_balance := bal, a_version := a_version c + 1\<rparr>) = P c"
  shows "List.find P (set_balance a bal as) =
    map_option (\<lambda>c. if a_id c = a_id a then c\<lparr>a_balance := bal, a_version := a_version c + 1\<rparr> else c)
      (List.find P as)"
  unfolding set_balance_def by (rule find_map_key) (simp add: assms)

end
