(* ===== verification/Paging.thy ===== *)
theory Paging
  imports Http
begin

text \<open>
  The queries the repositories share: case-insensitive text search and the cursor pages that
  the ledger, the payment and the notification service cut out of their sorted rows.
\<close>

definition to_lower :: "string \<Rightarrow> string" where
  "to_lower s = map (\<lambda>c. if 65 \<le> (of_char c :: nat) \<and> (of_char c :: nat) \<le> 90
     then char_of (of_char c + 32 :: nat) else c) s"

fun contains :: "string \<Rightarrow> string \<Rightarrow> bool" where
  "contains p [] \<longleftrightarrow> p = []"
| "contains p (c # s) \<longleftrightarrow> starts_with p (c # s) \<or> contains p s"

text \<open>\<open>orderBy: { createdAt: 'desc' }\<close>\<close>

definition newest_by :: "('r \<Rightarrow> nat) \<Rightarrow> 'r list \<Rightarrow> 'r list" where
  "newest_by created rows = sort_key (\<lambda>r. - int (created r)) rows"

lemma set_newest_by [simp]: "set (newest_by created rows) = set rows"
  by (simp add: newest_by_def)

text \<open>\<open>cursor: { id }, skip: 1\<close>: the rows after the cursor row; none when there is no such row.\<close>

definition cursor_after :: "('r \<Rightarrow> string) \<Rightarrow> string option \<Rightarrow> 'r list \<Rightarrow> 'r list" where
  "cursor_after key cursor rows =
     (if truthy cursor then drop 1 (dropWhile (\<lambda>r. key r \<noteq> the cursor) rows) else rows)"

text \<open>
  \<open>take: limit + 1\<close>; when the extra row comes back it is popped, and its identifier is the
  next cursor.
\<close>

definition cursor_page :: "('r \<Rightarrow> string) \<Rightarrow> nat \<Rightarrow> 'r list \<Rightarrow> 'r list \<times> string option" where
  "cursor_page key limit rows =
     (let items = take (limit + 1) rows
      in if length items > limit then (butlast items, Some (key (last items))) else (items, None))"

lemma set_cursor_after: "set (cursor_after key cursor rows) \<subseteq> set rows"
  by (auto simp: cursor_after_def dest: in_set_dropD set_dropWhileD)

lemma set_cursor_page: "set (fst (cursor_page key limit rows)) \<subseteq> set rows"
  by (auto simp: cursor_page_def Let_def dest: in_set_butlastD in_set_takeD)

lemma cursor_page_length: "length (fst (cursor_page key limit rows)) \<le> limit"
  by (auto simp: cursor_page_def Let_def)

text \<open>The cursor of a full page is the first row of the next page, and the next page skips it.\<close>

lemma cursor_gap:
  assumes "distinct (map key rows)" and "\<forall>e \<in> set rows. key e \<noteq> ''''" and "limit < length rows"
  shows "snd (cursor_page key limit rows) = Some (key (rows ! limit))"
    and "rows ! limit \<notin> set (fst (cursor_page key limit rows))"
    and "rows ! limit \<notin> set (fst (cursor_page key m (cursor_after key (Some (key (rows ! limit))) rows)))"
proof -
  let ?e = "rows ! limit"
  have rows: "rows = take limit rows @ ?e # drop (Suc limit) rows"
    using assms(3) by (simp add: id_take_nth_drop)
  have l: "length (take (limit + 1) rows) = limit + 1" using assms(3) by simp
  have take: "take (limit + 1) rows = take limit rows @ [?e]"
    using assms(3) by (simp add: take_Suc_conv_app_nth)
  have page: "cursor_page key limit rows = (take limit rows, Some (key ?e))"
    unfolding cursor_page_def Let_def take using l take by simp
  have "distinct (map key (take limit rows @ ?e # drop (Suc limit) rows))"
    using assms(1) rows by simp
  then have fresh: "?e \<notin> set (take limit rows)" "?e \<notin> set (drop (Suc limit) rows)"
    and ne: "\<forall>x \<in> set (take limit rows). key x \<noteq> key ?e"
    by (auto, metis image_eqI)
  have "dropWhile (\<lambda>x. key x \<noteq> key ?e) rows = ?e # drop (Suc limit) rows"
    by (subst rows) (use ne in \<open>simp add: dropWhile_append2 dropWhile_append\<close>)
  moreover have "?e \<in> set rows" using assms(3) by simp
  then have "truthy (Some (key ?e))" using assms(2) by (auto simp: truthy_def)
  ultimately have "?e \<notin> set (cursor_after key (Some (key ?e)) rows)"
    using fresh by (simp add: cursor_after_def)
  then show "?e \<notin> set (fst (cursor_page key m (cursor_after key (Some (key ?e)) rows)))"
    using set_cursor_page[of key m "cursor_after key (Some (key ?e)) rows"] by blast
  show "snd (cursor_page key limit rows) = Some (key ?e)" "?e \<notin> set (fst (cursor_page key limit rows))"
    using page fresh by simp_all
qed

end
