(* ===== verification/Ledger.thy ===== *)
theory Ledger
  imports Database Paging
begin

text \<open>
  The ledger service: \<open>ledgerRepository.js\<close> (double-entry transfer, deposit, withdrawal and
  the entry history), \<open>ledgerService.js\<close> and \<open>ledgerController.js\<close>. Each posting runs in
  one database transaction: reads and checks first, then the writes. The transfer is split at
  that point, so that another transaction can commit in between.
\<close>

record transfer_req =
  rq_idempotencyKey :: string
  rq_referenceId :: "string option"
  rq_source :: string
  rq_target :: string
  rq_amount :: rat
  rq_currency :: "string option"
  rq_description :: "string option"

record single_req =
  sr_idempotencyKey :: string
  sr_referenceId :: "string option"
  sr_accountNumber :: string
  sr_amount :: rat
  sr_currency :: "string option"
  sr_description :: "string option"

record ledger_result =
  lr_transaction :: transaction
  lr_entries :: "ledger_entry list"
  lr_accounts :: "account list" \<comment> \<open>the accounts read back after the update\<close>
  lr_isIdempotent :: bool

definition or_usd :: "string option \<Rightarrow> string" where
  "or_usd c = (case c of None \<Rightarrow> ''USD'' | Some s \<Rightarrow> s)"

text \<open>
  \<open>existingTx.status === 'COMPLETED'\<close> with at least one ledger entry: the posting was done.
\<close>

definition is_replay :: "db \<Rightarrow> transaction option \<Rightarrow> bool" where
  "is_replay db et =
     (case et of None \<Rightarrow> False
      | Some t \<Rightarrow> t_status t = COMPLETED \<and> entries_of (t_id t) db \<noteq> [])"

definition not_found :: "string \<Rightarrow> string \<Rightarrow> app_error" where
  "not_found what n = NotFoundError (Msg (what @ n @ '' not found''))"

definition not_active :: "string \<Rightarrow> account \<Rightarrow> app_error" where
  "not_active what a = BadRequestError (Msg (what @ a_accountNumber a @ '' is '' @ show_status (a_status a)))"

definition insufficient_funds :: "account \<Rightarrow> app_error" where
  "insufficient_funds a =
     BadRequestError (InsufficientFunds (a_accountNumber a) (a_balance a) (a_currency a))"

definition lock_lost :: "string \<Rightarrow> string \<Rightarrow> string \<Rightarrow> app_error" where
  "lock_lost what n op = ConflictError (Msg (''Optimistic lock conflict on '' @ what @ n
     @ '': concurrent modification detected. Please retry the '' @ op @ ''.''))"

text \<open>\<open>account.findFirst\<close> followed by the existence and status checks.\<close>

definition active_account :: "string \<Rightarrow> string \<Rightarrow> db \<Rightarrow> app_error + account" where
  "active_account what n db =
     (case account_by_number n db of
        None \<Rightarrow> Inl (not_found what n)
      | Some a \<Rightarrow> if a_status a \<noteq> ACTIVE then Inl (not_active what a) else Inr a)"

subsection \<open>Double-entry transfer\<close>

datatype transfer_plan =
    Replay transaction
  | Post "transaction option" account account rat rat rat
    \<comment> \<open>existing transaction, source, target, amount, new source balance, new target balance\<close>

text \<open>Steps 1 to 4 of \<open>executeDoubleEntryTransfer\<close>: idempotency, accounts, funds, new balances.\<close>

definition plan_transfer :: "transfer_req \<Rightarrow> db \<Rightarrow> app_error + transfer_plan" where
  "plan_transfer rq db =
     (let existingTx = tx_by_key (rq_idempotencyKey rq) db
      in if is_replay db existingTx then Inr (Replay (the existingTx))
         else rbind (active_account ''Source account '' (rq_source rq) db) (\<lambda>src.
              rbind (active_account ''Target account '' (rq_target rq) db) (\<lambda>tgt.
                let sourceBalanceNum = num_of_cents (a_balance src);
                    transferAmountNum = rq_amount rq
                in if sourceBalanceNum < transferAmountNum then Inl (insufficient_funds src)
                   else Inr (Post existingTx src tgt transferAmountNum
                          (js_sub sourceBalanceNum transferAmountNum)
                          (js_add (num_of_cents (a_balance tgt)) transferAmountNum)))))"

text \<open>
  Steps 5 to 7: both balances under the version check, the transaction row, the two entries.
  A number that does not fit its column makes the statement fail.
\<close>

definition store_dec :: "db_env \<Rightarrow> rat \<Rightarrow> db \<Rightarrow> (int \<Rightarrow> (app_error + 'a) \<times> db) \<Rightarrow> (app_error + 'a) \<times> db" where
  "store_dec env x db k = (case to_dec env x of None \<Rightarrow> (Inl numeric_overflow, db) | Some c \<Rightarrow> k c)"

definition find_or_create_tx ::
  "db_env \<Rightarrow> transaction option \<Rightarrow> (string \<Rightarrow> nat \<Rightarrow> transaction) \<Rightarrow> db
     \<Rightarrow> (app_error + transaction) \<times> db" where
  "find_or_create_tx env existingTx mk db =
     (case existingTx of Some t \<Rightarrow> (Inr t, db) | None \<Rightarrow> create_tx env mk db)"

definition replay_result :: "transaction \<Rightarrow> db \<Rightarrow> ledger_result" where
  "replay_result t db = \<lparr>lr_transaction = t, lr_entries = entries_of (t_id t) db,
     lr_accounts = [], lr_isIdempotent = True\<rparr>"

definition post_transfer ::
  "db_env \<Rightarrow> transfer_req \<Rightarrow> transfer_plan \<Rightarrow> db \<Rightarrow> (app_error + ledger_result) \<times> db" where
  "post_transfer env rq plan db =
     (case plan of
        Replay t \<Rightarrow> (Inr (replay_result t db), db)
      | Post existingTx src tgt amt newSrc newTgt \<Rightarrow>
          store_dec env newSrc db (\<lambda>srcBal.
          let (n1, db) = update_account_cas (a_id src) (a_version src) srcBal db
          in if n1 = 0 then (Inl (lock_lost ''source account '' (rq_source rq) ''transfer''), db)
             else store_dec env newTgt db (\<lambda>tgtBal.
          let (n2, db) = update_account_cas (a_id tgt) (a_version tgt) tgtBal db
          in if n2 = 0 then (Inl (lock_lost ''target account '' (rq_target rq) ''transfer''), db)
             else store_dec env amt db (\<lambda>amount.
          case find_or_create_tx env existingTx
                 (\<lambda>i now. \<lparr>t_id = i, t_idempotencyKey = rq_idempotencyKey rq,
                    t_referenceId = rq_referenceId rq, t_sourceAccountId = Some (a_id src),
                    t_targetAccountId = Some (a_id tgt), t_amount = amount,
                    t_currency = or_usd (rq_currency rq), t_type = TRANSFER, t_status = PENDING,
                    t_description = rq_description rq, t_failureReason = None,
                    t_createdAt = now\<rparr>) db of
            (Inl e, db) \<Rightarrow> (Inl e, db)
          | (Inr t, db) \<Rightarrow>
              let (debit, db) = create_entry env (t_id t) (a_id src) DEBIT amount srcBal db;
                  (credit, db) = create_entry env (t_id t) (a_id tgt) CREDIT amount tgtBal db
              in (Inr \<lparr>lr_transaction = t, lr_entries = [debit, credit],
                       lr_accounts = map the (filter (\<lambda>a. a \<noteq> None)
                          [account_by_id (a_id src) db, account_by_id (a_id tgt) db]),
                       lr_isIdempotent = False\<rparr>, db)))))"

definition executeDoubleEntryTransfer ::
  "db_env \<Rightarrow> transfer_req \<Rightarrow> db \<Rightarrow> (app_error + ledger_result) \<times> db" where
  "executeDoubleEntryTransfer env rq =
     in_transaction (\<lambda>db. case plan_transfer rq db of
        Inl e \<Rightarrow> (Inl e, db)
      | Inr plan \<Rightarrow> post_transfer env rq plan db)"

text \<open>The same transfer when another transaction commits between its reads and its writes.\<close>

definition interleaved_transfer ::
  "db_env \<Rightarrow> transfer_req \<Rightarrow> db \<Rightarrow> db \<Rightarrow> (app_error + ledger_result) \<times> db" where
  "interleaved_transfer env rq read_db write_db =
     in_transaction (\<lambda>db. case plan_transfer rq read_db of
        Inl e \<Rightarrow> (Inl e, db)
      | Inr plan \<Rightarrow> post_transfer env rq plan db) write_db"

subsection \<open>Cash deposit and withdrawal\<close>

definition post_single ::
  "db_env \<Rightarrow> single_req \<Rightarrow> transaction option \<Rightarrow> account \<Rightarrow> tx_category \<Rightarrow> entry_type \<Rightarrow> string
     \<Rightarrow> string \<Rightarrow> rat \<Rightarrow> db \<Rightarrow> (app_error + ledger_result) \<times> db" where
  "post_single env rq existingTx acc cat ty opname default_desc newBalance db =
     store_dec env newBalance db (\<lambda>bal.
     let (n, db) = update_account_cas (a_id acc) (a_version acc) bal db
     in if n = 0 then (Inl (lock_lost ''account '' (sr_accountNumber rq) opname), db)
        else store_dec env (sr_amount rq) db (\<lambda>amount.
     case find_or_create_tx env existingTx
            (\<lambda>i now. \<lparr>t_id = i, t_idempotencyKey = sr_idempotencyKey rq,
               t_referenceId = sr_referenceId rq,
               t_sourceAccountId = (if cat = WITHDRAWAL then Some (a_id acc) else None),
               t_targetAccountId = (if cat = DEPOSIT then Some (a_id acc) else None),
               t_amount = amount, t_currency = or_usd (sr_currency rq), t_type = cat,
               t_status = COMPLETED,
               t_description = (case sr_description rq of None \<Rightarrow> Some default_desc | d \<Rightarrow> d),
               t_failureReason = None, t_createdAt = now\<rparr>) db of
       (Inl e, db) \<Rightarrow> (Inl e, db)
     | (Inr t, db) \<Rightarrow>
         let (entry, db) = create_entry env (t_id t) (a_id acc) ty amount bal db
         in (Inr \<lparr>lr_transaction = t, lr_entries = [entry],
                  lr_accounts = (case account_by_id (a_id acc) db of None \<Rightarrow> [] | Some a \<Rightarrow> [a]),
                  lr_isIdempotent = False\<rparr>, db)))"

definition executeDeposit ::
  "db_env \<Rightarrow> single_req \<Rightarrow> db \<Rightarrow> (app_error + ledger_result) \<times> db" where
  "executeDeposit env rq =
     in_transaction (\<lambda>db.
       let existingTx = tx_by_key (sr_idempotencyKey rq) db
       in if is_replay db existingTx then (Inr (replay_result (the existingTx) db), db)
          else case active_account ''Account '' (sr_accountNumber rq) db of
                 Inl e \<Rightarrow> (Inl e, db)
               | Inr acc \<Rightarrow>
                   post_single env rq existingTx acc DEPOSIT CREDIT ''deposit'' ''Cash Deposit''
                     (js_add (num_of_cents (a_balance acc)) (sr_amount rq)) db)"

definition executeWithdrawal ::
  "db_env \<Rightarrow> single_req \<Rightarrow> db \<Rightarrow> (app_error + ledger_result) \<times> db" where
  "executeWithdrawal env rq =
     in_transaction (\<lambda>db.
       let existingTx = tx_by_key (sr_idempotencyKey rq) db
       in if is_replay db existingTx then (Inr (replay_result (the existingTx) db), db)
          else case active_account ''Account '' (sr_accountNumber rq) db of
                 Inl e \<Rightarrow> (Inl e, db)
               | Inr acc \<Rightarrow>
                   let currentBalance = num_of_cents (a_balance acc);
                       withdrawAmount = sr_amount rq
                   in if currentBalance < withdrawAmount then (Inl (insufficient_funds acc), db)
                      else post_single env rq existingTx acc WITHDRAWAL DEBIT ''withdrawal''
                             ''Cash Withdrawal'' (js_sub currentBalance withdrawAmount) db)"

subsection \<open>Branches of the postings\<close>

lemmas ledger_defs = plan_transfer_def active_account_def Let_def rbind_def

lemma active_account_Inr: "active_account what n db = Inr a \<longleftrightarrow>
    account_by_number n db = Some a \<and> a_status a = ACTIVE"
  by (auto simp: active_account_def split: option.splits)

lemma active_account_Inl: "active_account what n db = Inl e \<Longrightarrow>
    statusCode e \<in> {Some 400, Some 404}"
  by (auto simp: active_account_def not_found_def not_active_def error_defs
      split: option.splits if_splits)

lemma plan_Post_iff: "plan_transfer rq db = Inr (Post et src tgt amt ns nt) \<longleftrightarrow>
    et = tx_by_key (rq_idempotencyKey rq) db \<and> \<not> is_replay db et \<and>
    active_account ''Source account '' (rq_source rq) db = Inr src \<and>
    active_account ''Target account '' (rq_target rq) db = Inr tgt \<and>
    \<not> num_of_cents (a_balance src) < amt \<and> amt = rq_amount rq \<and>
    ns = js_sub (num_of_cents (a_balance src)) amt \<and>
    nt = js_add (num_of_cents (a_balance tgt)) amt"
  by (auto simp: plan_transfer_def Let_def rbind_eq_Inr)

lemma plan_Replay_iff: "plan_transfer rq db = Inr (Replay t) \<longleftrightarrow>
    tx_by_key (rq_idempotencyKey rq) db = Some t \<and> is_replay db (Some t)"
  by (auto simp: plan_transfer_def Let_def rbind_eq_Inr is_replay_def split: option.splits)

definition entry_is :: "ledger_entry \<Rightarrow> string \<Rightarrow> string \<Rightarrow> entry_type \<Rightarrow> int \<Rightarrow> int \<Rightarrow> bool" where
  "entry_is e tid aid ty amt bal \<longleftrightarrow> l_transactionId e = tid \<and> l_accountId e = aid \<and>
     l_type e = ty \<and> l_amount e = amt \<and> l_balanceAfter e = bal"

lemma signed_entry_is:
  "entry_is e tid aid DEBIT amt bal \<Longrightarrow> signed e = - amt"
  "entry_is e tid aid CREDIT amt bal \<Longrightarrow> signed e = amt"
  by (auto simp: signed_def entry_is_def)

text \<open>The transaction row of a posting: the existing one, or one row appended to the table.\<close>

lemma find_or_create_tx_Inr:
  assumes "find_or_create_tx env et mk db = (Inr t, db')"
  shows "db_accounts db' = db_accounts db \<and> db_entries db' = db_entries db \<and>
     db_outbox db' = db_outbox db \<and> db_users db' = db_users db \<and> db_audits db' = db_audits db \<and>
     (case et of Some t0 \<Rightarrow> t = t0 \<and> db' = db
      | None \<Rightarrow> t = mk (new_id env (db_seq db)) (db_now db) \<and>
          db_transactions db' = db_transactions db @ [t])"
  using assms by (auto simp: find_or_create_tx_def create_tx_def Let_def split: option.splits if_splits)

lemma find_or_create_tx_cong:
  "db_accounts (snd (find_or_create_tx env et mk db)) = db_accounts db"
  by (auto simp: find_or_create_tx_def create_tx_def Let_def split: option.splits)

lemma post_transfer_Inr:
  assumes post: "post_transfer env rq (Post et src tgt amt ns nt) db = (Inr res, db')"
    and wf: "wf_db db" and mem: "src \<in> set (db_accounts db)" "tgt \<in> set (db_accounts db)"
    and ne: "a_id src \<noteq> a_id tgt"
    and dec: "to_dec env ns = Some sb" "to_dec env nt = Some tb" "to_dec env amt = Some c"
  shows "db_accounts db' = set_balance tgt tb (set_balance src sb (db_accounts db)) \<and>
    (\<exists>d k. db_entries db' = db_entries db @ [d, k] \<and> lr_entries res = [d, k] \<and>
       entry_is d (t_id (lr_transaction res)) (a_id src) DEBIT c sb \<and>
       entry_is k (t_id (lr_transaction res)) (a_id tgt) CREDIT c tb) \<and>
    \<not> lr_isIdempotent res \<and>
    (case et of Some t \<Rightarrow> lr_transaction res = t \<and> db_transactions db' = db_transactions db
     | None \<Rightarrow> db_transactions db' = db_transactions db @ [lr_transaction res] \<and>
         t_idempotencyKey (lr_transaction res) = rq_idempotencyKey rq \<and>
         t_status (lr_transaction res) = PENDING)"
proof -
  define db1 where "db1 = db\<lparr>db_accounts := set_balance src sb (db_accounts db)\<rparr>"
  define db2 where "db2 = db1\<lparr>db_accounts := set_balance tgt tb (db_accounts db1)\<rparr>"
  have d: "distinct (map a_id (db_accounts db))" using wf by (simp add: wf_db_def)
  have u1: "update_account_cas (a_id src) (a_version src) sb db = (1, db1)"
    unfolding db1_def by (rule update_cas_hit[OF d mem(1)])
  have "tgt \<in> set (db_accounts db1)"
    using mem(2) ne by (force simp: db1_def set_balance_mem)
  moreover have "distinct (map a_id (db_accounts db1))" using d by (simp add: db1_def)
  ultimately have u2: "update_account_cas (a_id tgt) (a_version tgt) tb db1 = (1, db2)"
    unfolding db2_def by (rule update_cas_hit[rotated])
  from post dec u1 u2 show ?thesis
    by (auto simp: post_transfer_def store_dec_def create_entry_def entry_is_def Let_def
        db2_def db1_def split: prod.splits sum.splits option.splits
        dest!: find_or_create_tx_Inr)
qed

subsection \<open>The book: an abstract specification of postings\<close>

text \<open>
  A book is the account table with the list of entries. A posting of an entry sets the balance
  of its account to the entry's running balance; it is valid when that is the old balance plus
  the signed amount and is not negative.
\<close>

type_synonym book = "account list \<times> ledger_entry list"

definition book_of :: "db \<Rightarrow> book" where
  "book_of db = (db_accounts db, db_entries db)"

definition post_entry :: "ledger_entry \<Rightarrow> book \<Rightarrow> book" where
  "post_entry e bk = (map (\<lambda>b. if a_id b = l_accountId e
      then b\<lparr>a_balance := l_balanceAfter e, a_version := a_version b + 1\<rparr> else b) (fst bk), snd bk @ [e])"

definition valid_entry :: "ledger_entry \<Rightarrow> book \<Rightarrow> bool" where
  "valid_entry e bk \<longleftrightarrow> (\<exists>a \<in> set (fst bk). a_id a = l_accountId e \<and>
     l_balanceAfter e = a_balance a + signed e \<and> 0 \<le> l_balanceAfter e)"

fun post_entries :: "ledger_entry list \<Rightarrow> book \<Rightarrow> book" where
  "post_entries [] bk = bk"
| "post_entries (e # es) bk = post_entries es (post_entry e bk)"

fun valid_entries :: "ledger_entry list \<Rightarrow> book \<Rightarrow> bool" where
  "valid_entries [] bk \<longleftrightarrow> True"
| "valid_entries (e # es) bk \<longleftrightarrow> valid_entry e bk \<and> valid_entries es (post_entry e bk)"

text \<open>The opening balance of every account: its balance without its entries.\<close>

definition openings :: "book \<Rightarrow> (string \<times> int) list" where
  "openings bk = map (\<lambda>a. (a_id a, a_balance a - entry_sum (a_id a) (snd bk))) (fst bk)"

text \<open>The running balance of the last entry of every account is its balance.\<close>

definition running_ok :: "book \<Rightarrow> bool" where
  "running_ok bk \<longleftrightarrow> (\<forall>a \<in> set (fst bk).
     let es = filter (\<lambda>e. l_accountId e = a_id a) (snd bk)
     in es = [] \<or> l_balanceAfter (last es) = a_balance a)"

definition sound_book :: "book \<Rightarrow> bool" where
  "sound_book bk \<longleftrightarrow> distinct (map a_id (fst bk)) \<and> (\<forall>a \<in> set (fst bk). 0 \<le> a_balance a) \<and> running_ok bk"

definition book_total :: "book \<Rightarrow> int" where
  "book_total bk = (\<Sum>a\<leftarrow>fst bk. a_balance a)"

lemma post_entry_ids [simp]: "map a_id (fst (post_entry e bk)) = map a_id (fst bk)"
  by (auto simp: post_entry_def)

lemma post_entry_openings:
  assumes "distinct (map a_id (fst bk))" and "valid_entry e bk"
  shows "openings (post_entry e bk) = openings bk"
proof -
  from assms(2) obtain a where a: "a \<in> set (fst bk)" "a_id a = l_accountId e"
    "l_balanceAfter e = a_balance a + signed e"
    by (auto simp: valid_entry_def)
  have bal: "a_balance b + signed e = l_balanceAfter e" if "b \<in> set (fst bk)" "a_id b = l_accountId e" for b
    using distinct_map_eq[OF assms(1) that(1) a(1)] that(2) a(2,3) by simp
  show ?thesis
    unfolding openings_def post_entry_def fst_conv snd_conv map_map
    by (intro map_cong refl) (simp add: bal[symmetric])
qed

lemma post_entry_sound:
  assumes "sound_book bk" and "valid_entry e bk"
  shows "sound_book (post_entry e bk)"
proof -
  from assms have "distinct (map a_id (fst (post_entry e bk)))" by (simp add: sound_book_def)
  moreover from assms have "\<forall>a \<in> set (fst (post_entry e bk)). 0 \<le> a_balance a"
    by (auto simp: sound_book_def valid_entry_def post_entry_def)
  moreover have "running_ok (post_entry e bk)"
    unfolding running_ok_def Let_def
  proof
    fix a assume "a \<in> set (fst (post_entry e bk))"
    then obtain b where b: "b \<in> set (fst bk)"
      and a: "a = (if a_id b = l_accountId e
        then b\<lparr>a_balance := l_balanceAfter e, a_version := a_version b + 1\<rparr> else b)"
      by (auto simp: post_entry_def)
    have "filter (\<lambda>e. l_accountId e = a_id b) (snd bk) = [] \<or>
        l_balanceAfter (last (filter (\<lambda>e. l_accountId e = a_id b) (snd bk))) = a_balance b"
      using assms(1) b by (simp add: sound_book_def running_ok_def Let_def)
    then show "filter (\<lambda>e. l_accountId e = a_id a) (snd (post_entry e bk)) = [] \<or>
        l_balanceAfter (last (filter (\<lambda>e. l_accountId e = a_id a) (snd (post_entry e bk)))) = a_balance a"
      by (simp add: a post_entry_def)
  qed
  ultimately show ?thesis by (simp add: sound_book_def)
qed

lemma post_entry_total:
  assumes "distinct (map a_id (fst bk))" and "valid_entry e bk"
  shows "book_total (post_entry e bk) = book_total bk + signed e"
proof -
  from assms(2) obtain a where a: "a \<in> set (fst bk)" "a_id a = l_accountId e"
    "l_balanceAfter e = a_balance a + signed e"
    by (auto simp: valid_entry_def)
  show ?thesis
    using sum_list_update_key[OF assms(1) a(1), of "a_balance"
        "\<lambda>b. b\<lparr>a_balance := l_balanceAfter e, a_version := a_version b + 1\<rparr>"] a(2,3)
    by (simp add: book_total_def post_entry_def)
qed

text \<open>The three facts lift to any list of valid postings.\<close>

lemma post_entries_sound:
  assumes "sound_book bk" and "valid_entries es bk"
  shows "sound_book (post_entries es bk) \<and> openings (post_entries es bk) = openings bk \<and>
     book_total (post_entries es bk) = book_total bk + (\<Sum>e\<leftarrow>es. signed e)"
  using assms
proof (induction es arbitrary: bk)
  case Nil
  then show ?case by simp
next
  case (Cons e es)
  then have d: "distinct (map a_id (fst bk))" and v: "valid_entry e bk"
    by (simp_all add: sound_book_def)
  from Cons.IH[of "post_entry e bk"] Cons.prems post_entry_sound[OF Cons.prems(1) v]
  show ?case by (simp add: post_entry_openings[OF d v] post_entry_total[OF d v])
qed

lemma post_entries_append: "post_entries (es @ fs) bk = post_entries fs (post_entries es bk)"
  by (induction es arbitrary: bk) auto

lemma valid_entries_append:
  "valid_entries (es @ fs) bk \<longleftrightarrow> valid_entries es bk \<and> valid_entries fs (post_entries es bk)"
  by (induction es arbitrary: bk) auto

lemma sound_book_balance_le:
  assumes "sound_book bk" and "a \<in> set (fst bk)"
  shows "a_balance a \<le> book_total bk"
  using assms unfolding book_total_def sound_book_def
  by (intro elem_le_sum_list_int) auto

subsection \<open>The postings implement the book\<close>

lemma post_entry_set_balance:
  assumes "a_id a = l_accountId e" and "l_balanceAfter e = bal"
  shows "post_entry e (as, es) = (set_balance a bal as, es @ [e])"
  using assms by (simp add: post_entry_def set_balance_def)

definition money_db :: "db \<Rightarrow> bool" where
  "money_db db \<longleftrightarrow> wf_db db \<and> (\<forall>a \<in> set (db_accounts db). 0 \<le> a_balance a \<and> money (a_balance a))"

lemma post_transfer_self:
  assumes "post_transfer env rq (Post et src tgt amt ns nt) db = (r, db')"
    and "wf_db db" and "src \<in> set (db_accounts db)" and "tgt = src"
  shows "\<exists>e. r = Inl e"
proof -
  have d: "distinct (map a_id (db_accounts db))" using assms(2) by (simp add: wf_db_def)
  have miss: "fst (update_account_cas (a_id src) (a_version src) tb
      (db\<lparr>db_accounts := set_balance src sb (db_accounts db)\<rparr>)) = 0" for sb tb
  proof (rule update_cas_miss)
    fix b assume "b \<in> set (db_accounts (db\<lparr>db_accounts := set_balance src sb (db_accounts db)\<rparr>))"
      and b: "a_id b = a_id src"
    then have "b \<in> set (set_balance src sb (db_accounts db))" by simp
    then obtain c where c: "c \<in> set (db_accounts db)" and bc:
      "b = (if a_id c = a_id src then c\<lparr>a_balance := sb, a_version := a_version c + 1\<rparr> else c)"
      unfolding set_balance_mem by blast
    have "a_id c = a_id src" using b bc by (cases "a_id c = a_id src") auto
    moreover from this have "c = src" using distinct_map_eq[OF d] assms(3) c by blast
    ultimately have "a_version b = a_version src + 1" using bc by simp
    then show "a_version b \<noteq> a_version src" by simp
  qed
  have cas: "\<exists>d. update_account_cas (a_id src) (a_version src) tb
      (db\<lparr>db_accounts := set_balance src sb (db_accounts db)\<rparr>) = (0, d)" for sb tb
    using miss[of tb sb] by (metis prod.collapse)
  show ?thesis
  proof (cases "to_dec env ns")
    case None
    with assms(1) show ?thesis by (auto simp: post_transfer_def store_dec_def)
  next
    case ns: (Some sb)
    show ?thesis
    proof (cases "to_dec env nt")
      case None
      with assms(1) ns show ?thesis
        by (auto simp: post_transfer_def store_dec_def update_cas_hit[OF d assms(3)])
    next
      case (Some tb)
      obtain d' where "update_account_cas (a_id src) (a_version src) tb
          (db\<lparr>db_accounts := set_balance src sb (db_accounts db)\<rparr>) = (0, d')"
        using cas by blast
      with assms(1,4) ns Some show ?thesis
        by (auto simp: post_transfer_def store_dec_def update_cas_hit[OF d assms(3)])
    qed
  qed
qed

lemma transfer_plan_cases:
  assumes "executeDoubleEntryTransfer env rq db = (Inr res, db')" and "\<not> lr_isIdempotent res"
  obtains src tgt where
    "account_by_number (rq_source rq) db = Some src" "a_status src = ACTIVE"
    "account_by_number (rq_target rq) db = Some tgt" "a_status tgt = ACTIVE"
    "\<not> num_of_cents (a_balance src) < rq_amount rq"
    "post_transfer env rq (Post (tx_by_key (rq_idempotencyKey rq) db) src tgt (rq_amount rq)
       (js_sub (num_of_cents (a_balance src)) (rq_amount rq))
       (js_add (num_of_cents (a_balance tgt)) (rq_amount rq))) db = (Inr res, db')"
proof -
  from assms(1) obtain plan where plan: "plan_transfer rq db = Inr plan"
    and post: "post_transfer env rq plan db = (Inr res, db')"
    by (auto simp: executeDoubleEntryTransfer_def in_transaction_Inr split: sum.splits)
  show thesis
  proof (cases plan)
    case (Replay t)
    with post assms(2) show ?thesis by (auto simp: post_transfer_def replay_result_def)
  next
    case (Post et src tgt amt ns nt)
    with plan post show ?thesis by (intro that) (auto simp: plan_Post_iff active_account_Inr)
  qed
qed

text \<open>Reading the abstract effect off a successful transfer of \<open>c\<close> cents.\<close>

lemma transfer_effect:
  assumes codec: "decimal_codec (to_dec env)" and db: "money_db db" and c: "money c"
    and amt: "rq_amount rq = num_of_cents c"
    and ok: "executeDoubleEntryTransfer env rq db = (Inr res, db')" "\<not> lr_isIdempotent res"
  obtains src tgt d k where
    "account_by_number (rq_source rq) db = Some src" "a_status src = ACTIVE"
    "account_by_number (rq_target rq) db = Some tgt" "a_status tgt = ACTIVE"
    "a_id src \<noteq> a_id tgt" "c \<le> a_balance src" "lr_entries res = [d, k]"
    "book_of db' = post_entries [d, k] (book_of db)"
    "entry_is d (t_id (lr_transaction res)) (a_id src) DEBIT c (a_balance src - c)"
    "entry_is k (t_id (lr_transaction res)) (a_id tgt) CREDIT c (a_balance tgt + c)"
    "case tx_by_key (rq_idempotencyKey rq) db of
       Some t \<Rightarrow> lr_transaction res = t \<and> db_transactions db' = db_transactions db
     | None \<Rightarrow> db_transactions db' = db_transactions db @ [lr_transaction res] \<and>
         t_idempotencyKey (lr_transaction res) = rq_idempotencyKey rq \<and>
         t_status (lr_transaction res) = PENDING"
proof -
  from ok obtain src tgt where
    src: "account_by_number (rq_source rq) db = Some src" "a_status src = ACTIVE" and
    tgt: "account_by_number (rq_target rq) db = Some tgt" "a_status tgt = ACTIVE" and
    funds: "\<not> num_of_cents (a_balance src) < rq_amount rq" and
    post: "post_transfer env rq (Post (tx_by_key (rq_idempotencyKey rq) db) src tgt (rq_amount rq)
       (js_sub (num_of_cents (a_balance src)) (rq_amount rq))
       (js_add (num_of_cents (a_balance tgt)) (rq_amount rq))) db = (Inr res, db')"
    by (rule transfer_plan_cases)
  from src(1) tgt(1) have mem: "src \<in> set (db_accounts db)" "tgt \<in> set (db_accounts db)"
    by (auto dest: account_by_number_SomeD)
  with db have wf: "wf_db db" and m: "money (a_balance src)" "money (a_balance tgt)"
    by (auto simp: money_db_def)
  have ne: "a_id src \<noteq> a_id tgt"
  proof
    assume "a_id src = a_id tgt"
    then have "tgt = src" using wf mem distinct_map_eq[of a_id] by (metis wf_db_def)
    with post_transfer_self[OF post wf mem(1)] show False by simp
  qed
  have dec: "to_dec env (js_sub (num_of_cents (a_balance src)) (rq_amount rq)) = Some (a_balance src - c)"
    "to_dec env (js_add (num_of_cents (a_balance tgt)) (rq_amount rq)) = Some (a_balance tgt + c)"
    "to_dec env (rq_amount rq) = Some c"
    unfolding amt using m c
    by (simp_all add: decimal_codec.store_diff[OF codec] decimal_codec.store_sum[OF codec]
        decimal_codec.store_num[OF codec])
  from funds have le: "c \<le> a_balance src"
    unfolding amt using num_of_cents_less[OF m(1) c] by simp
  note eff = post_transfer_Inr[OF post wf mem ne dec]
  from eff obtain d k where dk: "db_entries db' = db_entries db @ [d, k]" "lr_entries res = [d, k]"
    "entry_is d (t_id (lr_transaction res)) (a_id src) DEBIT c (a_balance src - c)"
    "entry_is k (t_id (lr_transaction res)) (a_id tgt) CREDIT c (a_balance tgt + c)"
    by auto
  have "book_of db' = post_entries [d, k] (book_of db)"
    using eff dk
    by (simp add: book_of_def entry_is_def post_entry_set_balance[of src d "a_balance src - c"]
        post_entry_set_balance[of tgt k "a_balance tgt + c"])
  with src tgt ne le dk eff show thesis by (intro that) auto
qed

lemma post_single_Inr:
  assumes post: "post_single env rq et acc cat ty op dd nb db = (Inr res, db')"
    and wf: "wf_db db" and mem: "acc \<in> set (db_accounts db)"
    and dec: "to_dec env nb = Some b" "to_dec env (sr_amount rq) = Some c"
  shows "db_accounts db' = set_balance acc b (db_accounts db) \<and> \<not> lr_isIdempotent res \<and>
    (\<exists>e. db_entries db' = db_entries db @ [e] \<and> lr_entries res = [e] \<and>
       entry_is e (t_id (lr_transaction res)) (a_id acc) ty c b) \<and>
    (case et of Some t \<Rightarrow> lr_transaction res = t \<and> db_transactions db' = db_transactions db
     | None \<Rightarrow> db_transactions db' = db_transactions db @ [lr_transaction res] \<and>
         t_idempotencyKey (lr_transaction res) = sr_idempotencyKey rq \<and>
         t_status (lr_transaction res) = COMPLETED)"
proof -
  have d: "distinct (map a_id (db_accounts db))" using wf by (simp add: wf_db_def)
  from post dec show ?thesis
    by (auto simp: post_single_def store_dec_def create_entry_def entry_is_def Let_def
        update_cas_hit[OF d mem] split: prod.splits sum.splits option.splits
        dest!: find_or_create_tx_Inr)
qed

lemma deposit_effect:
  assumes codec: "decimal_codec (to_dec env)" and db: "money_db db" and c: "money c"
    and amt: "sr_amount rq = num_of_cents c"
    and ok: "executeDeposit env rq db = (Inr res, db')" "\<not> lr_isIdempotent res"
  obtains acc e where
    "account_by_number (sr_accountNumber rq) db = Some acc" "a_status acc = ACTIVE"
    "lr_entries res = [e]" "book_of db' = post_entries [e] (book_of db)"
    "entry_is e (t_id (lr_transaction res)) (a_id acc) CREDIT c (a_balance acc + c)"
    "case tx_by_key (sr_idempotencyKey rq) db of
       Some t \<Rightarrow> lr_transaction res = t \<and> db_transactions db' = db_transactions db
     | None \<Rightarrow> db_transactions db' = db_transactions db @ [lr_transaction res] \<and>
         t_idempotencyKey (lr_transaction res) = sr_idempotencyKey rq \<and>
         t_status (lr_transaction res) = COMPLETED"
proof -
  from ok obtain acc where
    acc: "account_by_number (sr_accountNumber rq) db = Some acc" "a_status acc = ACTIVE" and
    post: "post_single env rq (tx_by_key (sr_idempotencyKey rq) db) acc DEPOSIT CREDIT ''deposit''
       ''Cash Deposit'' (js_add (num_of_cents (a_balance acc)) (sr_amount rq)) db = (Inr res, db')"
    by (auto simp: executeDeposit_def in_transaction_Inr active_account_Inr Let_def replay_result_def
        split: if_splits sum.splits)
  from acc(1) have mem: "acc \<in> set (db_accounts db)" by (auto dest: account_by_number_SomeD)
  with db have wf: "wf_db db" and m: "money (a_balance acc)" by (auto simp: money_db_def)
  have dec: "to_dec env (js_add (num_of_cents (a_balance acc)) (sr_amount rq)) = Some (a_balance acc + c)"
    "to_dec env (sr_amount rq) = Some c"
    unfolding amt using m c
    by (simp_all add: decimal_codec.store_sum[OF codec] decimal_codec.store_num[OF codec])
  note eff = post_single_Inr[OF post wf mem dec]
  then obtain e where e: "db_entries db' = db_entries db @ [e]" "lr_entries res = [e]"
    "entry_is e (t_id (lr_transaction res)) (a_id acc) CREDIT c (a_balance acc + c)"
    by auto
  then have "book_of db' = post_entries [e] (book_of db)"
    using eff by (simp add: book_of_def entry_is_def post_entry_set_balance[of acc e "a_balance acc + c"])
  with acc e eff show thesis by (intro that) auto
qed

lemma withdrawal_effect:
  assumes codec: "decimal_codec (to_dec env)" and db: "money_db db" and c: "money c"
    and amt: "sr_amount rq = num_of_cents c"
    and ok: "executeWithdrawal env rq db = (Inr res, db')" "\<not> lr_isIdempotent res"
  obtains acc e where
    "account_by_number (sr_accountNumber rq) db = Some acc" "a_status acc = ACTIVE"
    "c \<le> a_balance acc"
    "lr_entries res = [e]" "book_of db' = post_entries [e] (book_of db)"
    "entry_is e (t_id (lr_transaction res)) (a_id acc) DEBIT c (a_balance acc - c)"
    "case tx_by_key (sr_idempotencyKey rq) db of
       Some t \<Rightarrow> lr_transaction res = t \<and> db_transactions db' = db_transactions db
     | None \<Rightarrow> db_transactions db' = db_transactions db @ [lr_transaction res] \<and>
         t_idempotencyKey (lr_transaction res) = sr_idempotencyKey rq \<and>
         t_status (lr_transaction res) = COMPLETED"
proof -
  from ok obtain acc where
    acc: "account_by_number (sr_accountNumber rq) db = Some acc" "a_status acc = ACTIVE" and
    funds: "\<not> num_of_cents (a_balance acc) < sr_amount rq" and
    post: "post_single env rq (tx_by_key (sr_idempotencyKey rq) db) acc WITHDRAWAL DEBIT ''withdrawal''
       ''Cash Withdrawal'' (js_sub (num_of_cents (a_balance acc)) (sr_amount rq)) db = (Inr res, db')"
    by (auto simp: executeWithdrawal_def in_transaction_Inr active_account_Inr Let_def replay_result_def
        split: if_splits sum.splits)
  from acc(1) have mem: "acc \<in> set (db_accounts db)" by (auto dest: account_by_number_SomeD)
  with db have wf: "wf_db db" and m: "money (a_balance acc)" by (auto simp: money_db_def)
  have dec: "to_dec env (js_sub (num_of_cents (a_balance acc)) (sr_amount rq)) = Some (a_balance acc - c)"
    "to_dec env (sr_amount rq) = Some c"
    unfolding amt using m c
    by (simp_all add: decimal_codec.store_diff[OF codec] decimal_codec.store_num[OF codec])
  have le: "c \<le> a_balance acc"
    using funds num_of_cents_less[OF m c] unfolding amt by simp
  note eff = post_single_Inr[OF post wf mem dec]
  then obtain e where e: "db_entries db' = db_entries db @ [e]" "lr_entries res = [e]"
    "entry_is e (t_id (lr_transaction res)) (a_id acc) DEBIT c (a_balance acc - c)"
    by auto
  then have "book_of db' = post_entries [e] (book_of db)"
    using eff by (simp add: book_of_def entry_is_def post_entry_set_balance[of acc e "a_balance acc - c"])
  with acc le e eff show thesis by (intro that) auto
qed

lemma transfer_entries_valid:
  assumes "src \<in> set (db_accounts db)" and "tgt \<in> set (db_accounts db)" and "a_id src \<noteq> a_id tgt"
    and "c \<le> a_balance src" and "0 \<le> a_balance tgt + c"
    and d: "entry_is d i (a_id src) DEBIT c (a_balance src - c)"
    and k: "entry_is k i (a_id tgt) CREDIT c (a_balance tgt + c)"
  shows "valid_entries [d, k] (book_of db)"
proof -
  have "valid_entry d (book_of db)"
    using assms(1,4) d signed_entry_is(1)[OF d] by (auto simp: valid_entry_def book_of_def entry_is_def)
  moreover have "tgt \<in> set (fst (post_entry d (book_of db)))"
    using assms(2,3) d by (force simp: post_entry_def book_of_def entry_is_def)
  then have "valid_entry k (post_entry d (book_of db))"
    using assms(5) k signed_entry_is(2)[OF k] by (auto simp: valid_entry_def entry_is_def)
  ultimately show ?thesis by simp
qed

subsection \<open>Runs of the ledger\<close>

datatype ledger_op = OpTransfer transfer_req | OpDeposit single_req | OpWithdrawal single_req

fun ledger_exec :: "db_env \<Rightarrow> ledger_op \<Rightarrow> db \<Rightarrow> (app_error + ledger_result) \<times> db" where
  "ledger_exec env (OpTransfer rq) db = executeDoubleEntryTransfer env rq db"
| "ledger_exec env (OpDeposit rq) db = executeDeposit env rq db"
| "ledger_exec env (OpWithdrawal rq) db = executeWithdrawal env rq db"

fun ledger_run :: "db_env \<Rightarrow> ledger_op list \<Rightarrow> db \<Rightarrow> db" where
  "ledger_run env [] db = db"
| "ledger_run env (op # ops) db = ledger_run env ops (snd (ledger_exec env op db))"

fun op_amount :: "ledger_op \<Rightarrow> rat" where
  "op_amount (OpTransfer rq) = rq_amount rq"
| "op_amount (OpDeposit rq) = sr_amount rq"
| "op_amount (OpWithdrawal rq) = sr_amount rq"

fun op_cash_in :: "int \<Rightarrow> ledger_op \<Rightarrow> int" where
  "op_cash_in c (OpDeposit rq) = c"
| "op_cash_in c _ = 0"

text \<open>A list of operations together with their amounts in cents.\<close>

definition cents_ops :: "(ledger_op \<times> int) list \<Rightarrow> bool" where
  "cents_ops ops \<longleftrightarrow> (\<forall>(op, c) \<in> set ops. 0 < c \<and> c \<le> money_max \<and> op_amount op = num_of_cents c)"

definition cash_in :: "(ledger_op \<times> int) list \<Rightarrow> int" where
  "cash_in ops = (\<Sum>(op, c)\<leftarrow>ops. op_cash_in c op)"

lemma exec_error_unchanged:
  "ledger_exec env op db = (Inl e, db') \<Longrightarrow> db' = db"
  by (cases op) (auto simp: executeDoubleEntryTransfer_def executeDeposit_def executeWithdrawal_def
      dest: in_transaction_rollback)

lemma exec_replay_unchanged:
  assumes "ledger_exec env op db = (Inr res, db')" and "lr_isIdempotent res"
  shows "db' = db"
proof (cases op)
  case (OpTransfer rq)
  with assms show ?thesis
    by (auto simp: executeDoubleEntryTransfer_def in_transaction_Inr post_transfer_def store_dec_def
        Let_def split: sum.splits transfer_plan.splits option.splits prod.splits if_splits)
next
  case (OpDeposit rq)
  with assms show ?thesis
    by (auto simp: executeDeposit_def in_transaction_Inr post_single_def store_dec_def
        Let_def split: sum.splits option.splits prod.splits if_splits)
next
  case (OpWithdrawal rq)
  with assms show ?thesis
    by (auto simp: executeWithdrawal_def in_transaction_Inr post_single_def store_dec_def
        Let_def split: sum.splits option.splits prod.splits if_splits)
qed

lemma wf_after_posting:
  assumes "wf_db db" and bk: "book_of db' = post_entries es (book_of db)"
    and tx: "case tx_by_key k db of
       Some t \<Rightarrow> db_transactions db' = db_transactions db
     | None \<Rightarrow> db_transactions db' = db_transactions db @ [t'] \<and> t_idempotencyKey t' = k"
  shows "wf_db db'"
proof -
  have ids: "map a_id (fst (post_entries es bk)) = map a_id (fst bk) \<and>
      map a_accountNumber (fst (post_entries es bk)) = map a_accountNumber (fst bk)" for bk
  proof (induction es arbitrary: bk)
    case Nil
    then show ?case by simp
  next
    case (Cons e es)
    have "map a_accountNumber (fst (post_entry e bk)) = map a_accountNumber (fst bk)"
      by (auto simp: post_entry_def)
    with Cons.IH[of "post_entry e bk"] show ?case by simp
  qed
  have "distinct (map t_idempotencyKey (db_transactions db'))"
    using assms(1) tx
    by (auto simp: wf_db_def tx_by_key_def split: option.splits dest: find_NoneD)
  moreover have "db_accounts db' = fst (post_entries es (book_of db))"
    using bk by (metis book_of_def fst_conv)
  ultimately show ?thesis using assms(1) ids[of "book_of db"] by (simp add: wf_db_def book_of_def)
qed

text \<open>One operation on a sound book posts valid entries, whatever its outcome.\<close>

lemma exec_posts:
  assumes codec: "decimal_codec (to_dec env)" and wf: "wf_db db" and snd_bk: "sound_book (book_of db)"
    and le: "total_balance db + op_cash_in c op \<le> money_max"
    and c: "0 < c" "c \<le> money_max" "op_amount op = num_of_cents c"
    and ex: "ledger_exec env op db = (r, db')"
  shows "wf_db db' \<and> (\<exists>es. valid_entries es (book_of db) \<and>
      book_of db' = post_entries es (book_of db) \<and> (\<Sum>e\<leftarrow>es. signed e) \<le> op_cash_in c op)"
proof (cases "\<exists>res. r = Inr res \<and> \<not> lr_isIdempotent res")
  case False
  then have "db' = db"
    using ex exec_error_unchanged exec_replay_unchanged by (cases r) metis+
  moreover have "0 \<le> op_cash_in c op" using c(1) by (cases op) auto
  ultimately show ?thesis using wf by (intro conjI exI[of _ "[]"]) auto
next
  case True
  then obtain res where r: "r = Inr res" "\<not> lr_isIdempotent res" by auto
  have m: "money c" using c by (simp add: money_def)
  have cash: "0 \<le> op_cash_in c op" using c(1) by (cases op) auto
  have nonneg: "0 \<le> a_balance a" "a_balance a \<le> total_balance db" if "a \<in> set (db_accounts db)" for a
    using snd_bk that sound_book_balance_le[OF snd_bk]
    by (auto simp: sound_book_def book_of_def book_total_def total_balance_def)
  have mdb: "money_db db"
    unfolding money_db_def money_def using wf nonneg le cash by force
  show ?thesis
  proof (cases op)
    case (OpTransfer rq)
    with ex r have ok: "executeDoubleEntryTransfer env rq db = (Inr res, db')" by simp
    from OpTransfer c have amt: "rq_amount rq = num_of_cents c" by simp
    obtain src tgt d k where e: "account_by_number (rq_source rq) db = Some src"
      "account_by_number (rq_target rq) db = Some tgt" "a_id src \<noteq> a_id tgt" "c \<le> a_balance src"
      "book_of db' = post_entries [d, k] (book_of db)"
      "entry_is d (t_id (lr_transaction res)) (a_id src) DEBIT c (a_balance src - c)"
      "entry_is k (t_id (lr_transaction res)) (a_id tgt) CREDIT c (a_balance tgt + c)"
      and tx: "case tx_by_key (rq_idempotencyKey rq) db of
       Some t \<Rightarrow> lr_transaction res = t \<and> db_transactions db' = db_transactions db
     | None \<Rightarrow> db_transactions db' = db_transactions db @ [lr_transaction res] \<and>
         t_idempotencyKey (lr_transaction res) = rq_idempotencyKey rq \<and>
         t_status (lr_transaction res) = PENDING"
      by (rule transfer_effect[OF codec mdb m amt ok r(2)]) blast
    have "valid_entries [d, k] (book_of db)"
      by (rule transfer_entries_valid)
        (use e nonneg c account_by_number_SomeD in auto)
    moreover have "wf_db db'"
      using wf_after_posting[OF wf, where db' = db' and es = "[d, k]" and k = "rq_idempotencyKey rq"
          and t' = "lr_transaction res"] tx e(5)
      by (auto split: option.splits)
    ultimately show ?thesis
      using e OpTransfer by (intro conjI exI[of _ "[d, k]"]) (auto simp: signed_entry_is)
  next
    case (OpDeposit rq)
    with ex r have ok: "executeDeposit env rq db = (Inr res, db')" by simp
    from OpDeposit c have amt: "sr_amount rq = num_of_cents c" by simp
    obtain acc e where e: "account_by_number (sr_accountNumber rq) db = Some acc"
      "book_of db' = post_entries [e] (book_of db)"
      "entry_is e (t_id (lr_transaction res)) (a_id acc) CREDIT c (a_balance acc + c)"
      and tx: "case tx_by_key (sr_idempotencyKey rq) db of
       Some t \<Rightarrow> lr_transaction res = t \<and> db_transactions db' = db_transactions db
     | None \<Rightarrow> db_transactions db' = db_transactions db @ [lr_transaction res] \<and>
         t_idempotencyKey (lr_transaction res) = sr_idempotencyKey rq \<and>
         t_status (lr_transaction res) = COMPLETED"
      by (rule deposit_effect[OF codec mdb m amt ok r(2)]) blast
    have mem: "acc \<in> set (db_accounts db)" using e(1) by (auto dest: account_by_number_SomeD)
    have "valid_entries [e] (book_of db)"
      using e(3) mem nonneg(1)[OF mem] c(1) signed_entry_is(2)[OF e(3)]
      by (auto simp: valid_entry_def book_of_def entry_is_def)
    moreover have "wf_db db'"
      using wf_after_posting[OF wf, where db' = db' and es = "[e]" and k = "sr_idempotencyKey rq"
          and t' = "lr_transaction res"] tx e(2)
      by (auto split: option.splits)
    ultimately show ?thesis
      using e OpDeposit by (intro conjI exI[of _ "[e]"]) (auto simp: signed_entry_is)
  next
    case (OpWithdrawal rq)
    with ex r have ok: "executeWithdrawal env rq db = (Inr res, db')" by simp
    from OpWithdrawal c have amt: "sr_amount rq = num_of_cents c" by simp
    obtain acc e where e: "account_by_number (sr_accountNumber rq) db = Some acc" "c \<le> a_balance acc"
      "book_of db' = post_entries [e] (book_of db)"
      "entry_is e (t_id (lr_transaction res)) (a_id acc) DEBIT c (a_balance acc - c)"
      and tx: "case tx_by_key (sr_idempotencyKey rq) db of
       Some t \<Rightarrow> lr_transaction res = t \<and> db_transactions db' = db_transactions db
     | None \<Rightarrow> db_transactions db' = db_transactions db @ [lr_transaction res] \<and>
         t_idempotencyKey (lr_transaction res) = sr_idempotencyKey rq \<and>
         t_status (lr_transaction res) = COMPLETED"
      by (rule withdrawal_effect[OF codec mdb m amt ok r(2)]) blast
    have mem: "acc \<in> set (db_accounts db)" using e(1) by (auto dest: account_by_number_SomeD)
    have "valid_entries [e] (book_of db)"
      using e(2,4) mem signed_entry_is(1)[OF e(4)]
      by (auto simp: valid_entry_def book_of_def entry_is_def)
    moreover have "wf_db db'"
      using wf_after_posting[OF wf, where db' = db' and es = "[e]" and k = "sr_idempotencyKey rq"
          and t' = "lr_transaction res"] tx e(3)
      by (auto split: option.splits)
    ultimately show ?thesis
      using e OpWithdrawal c by (intro conjI exI[of _ "[e]"]) (auto simp: signed_entry_is)
  qed
qed

lemma ledger_run_inv:
  assumes codec: "decimal_codec (to_dec env)" and "wf_db db" and "sound_book (book_of db)"
    and "cents_ops ops" and "total_balance db + cash_in ops \<le> money_max"
  shows "wf_db (ledger_run env (map fst ops) db) \<and>
     (\<exists>es. valid_entries es (book_of db) \<and>
        book_of (ledger_run env (map fst ops) db) = post_entries es (book_of db) \<and>
        (\<Sum>e\<leftarrow>es. signed e) \<le> cash_in ops)"
  using assms(2-)
proof (induction ops arbitrary: db)
  case Nil
  then show ?case by (intro conjI exI[of _ "[]"]) (auto simp: cash_in_def)
next
  case (Cons p ops)
  obtain op c where p: "p = (op, c)" by force
  with Cons.prems have c: "0 < c" "c \<le> money_max" "op_amount op = num_of_cents c" and co: "cents_ops ops"
    by (auto simp: cents_ops_def)
  obtain r db' where ex: "ledger_exec env op db = (r, db')" by force
  have "0 \<le> op_cash_in c' op'" if "(op', c') \<in> set ops" for op' c'
    using that co by (cases op') (auto simp: cents_ops_def)
  then have "0 \<le> cash_in ops" unfolding cash_in_def by (intro sum_list_nonneg) auto
  with Cons.prems p have le: "total_balance db + op_cash_in c op \<le> money_max"
    by (simp add: cash_in_def)
  from exec_posts[OF codec Cons.prems(1,2) le c ex] obtain es where es: "wf_db db'"
    "valid_entries es (book_of db)" "book_of db' = post_entries es (book_of db)"
    "(\<Sum>e\<leftarrow>es. signed e) \<le> op_cash_in c op" by auto
  note ps = post_entries_sound[OF Cons.prems(2) es(2)]
  then have sb: "sound_book (book_of db')" and tot: "total_balance db' = total_balance db + (\<Sum>e\<leftarrow>es. signed e)"
    using es(3) by (simp_all add: book_total_def total_balance_def)
       (metis book_of_def fst_conv)
  with es(4) Cons.prems(4) p have "total_balance db' + cash_in ops \<le> money_max"
    by (simp add: cash_in_def)
  from Cons.IH[OF es(1) sb co this] obtain fs where "wf_db (ledger_run env (map fst ops) db')"
    "valid_entries fs (book_of db')" "book_of (ledger_run env (map fst ops) db') = post_entries fs (book_of db')"
    "(\<Sum>e\<leftarrow>fs. signed e) \<le> cash_in ops" by auto
  with es p ex show ?case
    by (intro conjI exI[of _ "es @ fs"])
      (auto simp: valid_entries_append post_entries_append cash_in_def)
qed

subsection \<open>Transfers over an existing transaction row\<close>

text \<open>
  A transfer whose row exists and is not COMPLETED is never recognised as a repetition: the ledger
  leaves the row as it is, so a second call with the same key posts the amount again.
\<close>

lemma transfer_not_replayed:
  assumes "tx_by_key (rq_idempotencyKey rq) d = Some t" and "t_status t \<noteq> COMPLETED"
    and "executeDoubleEntryTransfer env rq d = (Inr r, d')"
  shows "\<not> lr_isIdempotent r"
proof
  assume idem: "lr_isIdempotent r"
  from assms(3) obtain plan where plan: "plan_transfer rq d = Inr plan"
    and post: "post_transfer env rq plan d = (Inr r, d')"
    by (auto simp: executeDoubleEntryTransfer_def in_transaction_Inr split: sum.splits)
  show False
  proof (cases plan)
    case (Replay t')
    with plan assms(1,2) show False by (auto simp: plan_Replay_iff is_replay_def)
  next
    case Post
    with post idem show False
      by (auto simp: post_transfer_def store_dec_def Let_def
          split: sum.splits option.splits prod.splits if_splits)
  qed
qed

text \<open>A transfer leaves the tables of events and audits alone.\<close>

lemma transfer_frame:
  assumes "executeDoubleEntryTransfer env rq d = (Inr r, d')"
  shows "db_outbox d' = db_outbox d \<and> db_audits d' = db_audits d"
proof -
  from assms obtain plan where "post_transfer env rq plan d = (Inr r, d')"
    by (auto simp: executeDoubleEntryTransfer_def in_transaction_Inr split: sum.splits)
  then show ?thesis
    by (auto simp: post_transfer_def store_dec_def Let_def update_account_cas_def create_entry_def
        split: transfer_plan.splits sum.splits option.splits prod.splits if_splits dest!: find_or_create_tx_Inr)
qed

lemma transfer_keeps_rows:
  assumes "executeDoubleEntryTransfer env rq d = (Inr r, d')"
    and "tx_by_key (rq_idempotencyKey rq) d \<noteq> None"
  shows "db_transactions d' = db_transactions d"
proof -
  from assms(1) obtain plan where plan: "plan_transfer rq d = Inr plan" and post: "post_transfer env rq plan d = (Inr r, d')"
    by (auto simp: executeDoubleEntryTransfer_def in_transaction_Inr split: sum.splits)
  show ?thesis
  proof (cases plan)
    case (Replay t)
    with post show ?thesis by (simp add: post_transfer_def)
  next
    case (Post et src tgt amt ns nt)
    with plan assms(2) obtain t where "et = Some t" by (auto simp: plan_Post_iff)
    with post Post show ?thesis
      by (auto simp: post_transfer_def store_dec_def Let_def update_account_cas_def create_entry_def
          find_or_create_tx_def split: option.splits prod.splits if_splits)
  qed
qed

lemma retried_transfer_posts_twice:
  assumes "decimal_codec (to_dec env)" and "money_db db" and "money c" and "0 < c"
    and "rq_amount rq = num_of_cents c"
    and "tx_by_key (rq_idempotencyKey rq) db = Some t" and "t_status t \<noteq> COMPLETED"
    and "executeDoubleEntryTransfer env rq db = (Inr res, db')"
    and "executeDoubleEntryTransfer env rq db' = (Inr res', db'')"
    and "money_db db'"
  shows "lr_transaction res' = t \<and> length (entries_of (t_id t) db'') = length (entries_of (t_id t) db) + 4 \<and>
     (\<exists>src \<in> set (db_accounts db). a_accountNumber src = rq_source rq \<and>
        entry_sum (a_id src) (db_entries db'') = entry_sum (a_id src) (db_entries db) - 2 * c)"
proof -
  note nrep = transfer_not_replayed[OF _ assms(7)]
  have tk: "tx_by_key (rq_idempotencyKey rq) d = Some t"
    if "db_transactions d = db_transactions db" for d
    using that assms(6) by (simp add: tx_by_key_def)
  obtain src d k and tgt :: account where e: "account_by_number (rq_source rq) db = Some src" "a_id src \<noteq> a_id tgt"
      "book_of db' = post_entries [d, k] (book_of db)"
      "entry_is d (t_id (lr_transaction res)) (a_id src) DEBIT c (a_balance src - c)"
      "entry_is k (t_id (lr_transaction res)) (a_id tgt) CREDIT c (a_balance tgt + c)"
      "lr_transaction res = t \<and> db_transactions db' = db_transactions db"
    by (rule transfer_effect[OF assms(1,2,3,5,8) nrep[OF assms(6,8)], unfolded assms(6) option.case]) blast
  note t' = tk[OF conjunct2[OF e(6)]]
  obtain src' d' k' and tgt' :: account where e': "account_by_number (rq_source rq) db' = Some src'" "a_id src' \<noteq> a_id tgt'"
      "book_of db'' = post_entries [d', k'] (book_of db')"
      "entry_is d' (t_id (lr_transaction res')) (a_id src') DEBIT c (a_balance src' - c)"
      "entry_is k' (t_id (lr_transaction res')) (a_id tgt') CREDIT c (a_balance tgt' + c)"
      "lr_transaction res' = t"
    by (rule transfer_effect[OF assms(1,10,3,5,9) nrep[OF t' assms(9)], unfolded t' option.case]) blast
  have "db_entries db'' = db_entries db @ [d, k, d', k']"
    using e(3) e'(3) by (simp add: book_of_def post_entry_def)
  moreover have "a_id src' = a_id src"
  proof -
    have "src' \<in> set (db_accounts db')" "a_accountNumber src' = rq_source rq"
      using e'(1) by (auto dest: account_by_number_SomeD)
    moreover have "db_accounts db' = fst (post_entries [d, k] (book_of db))"
      using e(3) by (metis book_of_def fst_conv)
    ultimately obtain b where "b \<in> set (db_accounts db)" "a_accountNumber b = rq_source rq"
        "a_id b = a_id src'"
      by (auto simp: post_entry_def book_of_def split: if_splits)
    moreover have "src \<in> set (db_accounts db)" "a_accountNumber src = rq_source rq"
      using e(1) by (auto dest: account_by_number_SomeD)
    ultimately show ?thesis
      using assms(2) by (metis distinct_map_eq money_db_def wf_db_def)
  qed
  ultimately show ?thesis
    using e e' by (auto simp: entries_of_def entry_is_def signed_def dest: account_by_number_SomeD)
qed

text \<open>After a transfer on a sound book all balances are still exact.\<close>

lemma money_after_transfer:
  assumes "decimal_codec (to_dec env)" and "money_db db" and "sound_book (book_of db)"
    and "total_balance db + c \<le> money_max" and "money c" and "0 < c" and "rq_amount rq = num_of_cents c"
    and "executeDoubleEntryTransfer env rq db = (Inr res, db')"
  shows "money_db db'"
proof -
  have m: "wf_db db" "c \<le> money_max" using assms(2,5,6) by (auto simp: money_db_def money_def)
  have le: "total_balance db + op_cash_in c (OpTransfer rq) \<le> money_max" using assms(4,6) by simp
  from exec_posts[OF assms(1) m(1) assms(3) le assms(6) m(2), of "Inr res" db'] assms(7,8)
  obtain es where es: "wf_db db'" "valid_entries es (book_of db)" "book_of db' = post_entries es (book_of db)"
    "(\<Sum>e\<leftarrow>es. signed e) \<le> 0" by auto
  note ps = post_entries_sound[OF assms(3) es(2)]
  have "book_total (book_of db') \<le> money_max"
    using ps es(3,4) assms(4,6) by (simp add: book_total_def total_balance_def book_of_def)
  moreover have "sound_book (book_of db')" using ps es(3) by simp
  ultimately have "0 \<le> a_balance a \<and> a_balance a \<le> money_max" if "a \<in> set (db_accounts db')" for a
    using that sound_book_balance_le[of "book_of db'" a] by (auto simp: sound_book_def book_of_def)
  with es(1) show ?thesis by (force simp: money_db_def money_def)
qed

subsection \<open>Entry history\<close>

text \<open>
  \<open>getAccountLedgerEntries\<close>: the entries of the account that pass the filters, newest first,
  starting after the cursor row, one row more than the page to know whether another page follows.
  The order of rows with the same timestamp is not determined by the query; the model keeps
  insertion order. The filter dates are already parsed.
\<close>

record history_filters =
  hf_cursor :: "string option"
  hf_limit :: nat
  hf_type :: "entry_type option"
  hf_startDate :: "nat option"
  hf_endDate :: "nat option"
  hf_referenceId :: "string option"

definition history_where :: "db \<Rightarrow> string \<Rightarrow> history_filters \<Rightarrow> ledger_entry \<Rightarrow> bool" where
  "history_where db accountId f e \<longleftrightarrow>
     l_accountId e = accountId \<and>
     (case hf_type f of None \<Rightarrow> True | Some ty \<Rightarrow> l_type e = ty) \<and>
     (case hf_startDate f of None \<Rightarrow> True | Some d \<Rightarrow> d \<le> l_createdAt e) \<and>
     (case hf_endDate f of None \<Rightarrow> True | Some d \<Rightarrow> l_createdAt e \<le> d) \<and>
     (if truthy (hf_referenceId f)
      then (case tx_by_id (l_transactionId e) db of
              None \<Rightarrow> False
            | Some t \<Rightarrow> (case t_referenceId t of None \<Rightarrow> False
                | Some r \<Rightarrow> contains (to_lower (the (hf_referenceId f))) (to_lower r)))
      else True)"

definition newest_first :: "ledger_entry list \<Rightarrow> ledger_entry list" where
  "newest_first = newest_by l_createdAt"

definition after_cursor :: "string option \<Rightarrow> ledger_entry list \<Rightarrow> ledger_entry list" where
  "after_cursor = cursor_after l_id"

definition page_of :: "nat \<Rightarrow> ledger_entry list \<Rightarrow> ledger_entry list \<times> string option" where
  "page_of = cursor_page l_id"

definition getAccountLedgerEntries ::
  "string \<Rightarrow> history_filters \<Rightarrow> db \<Rightarrow> ledger_entry list \<times> string option" where
  "getAccountLedgerEntries accountId f db =
     page_of (hf_limit f)
       (after_cursor (hf_cursor f) (newest_first (filter (history_where db accountId f) (db_entries db))))"

record history =
  hi_accountNumber :: string
  hi_currency :: string
  hi_entries :: "ledger_entry list"
  hi_limit :: nat
  hi_nextCursor :: "string option"

definition getAccountLedgerHistory ::
  "string \<Rightarrow> string \<Rightarrow> role option \<Rightarrow> history_filters \<Rightarrow> db \<Rightarrow> app_error + history" where
  "getAccountLedgerHistory accountNumber userId role filters db =
     (case account_by_number accountNumber db of
        None \<Rightarrow> Inl (not_found ''Account '' accountNumber)
      | Some a \<Rightarrow>
          if a_userId a \<noteq> userId \<and> role \<noteq> Some ADMIN \<and> role \<noteq> Some TELLER
          then Inl (ForbiddenError (Msg ''Access denied: You do not own this bank account''))
          else (let (entries, nextCursor) = getAccountLedgerEntries (a_id a) filters db
                in Inr \<lparr>hi_accountNumber = a_accountNumber a, hi_currency = a_currency a,
                        hi_entries = entries,
                        hi_limit = (if hf_limit filters = 0 then 20 else hf_limit filters),
                        hi_nextCursor = nextCursor\<rparr>))"

subsection \<open>The HTTP side\<close>

text \<open>
  \<open>authenticateInternalService\<close>: the \<open>x-service-api-key\<close> header must equal the configured key.
  The controllers answer 200 for a replay and 201 for a new posting.
\<close>

definition created_or_ok :: "string \<Rightarrow> ledger_result \<Rightarrow> ledger_result response" where
  "created_or_ok msg r = api_success msg r (if lr_isIdempotent r then 200 else 201)"

definition recordTransfer :: "db_env \<Rightarrow> transfer_req \<Rightarrow> db \<Rightarrow> (app_error + ledger_result response) \<times> db" where
  "recordTransfer env rq db =
     (let (r, db') = executeDoubleEntryTransfer env rq db
      in (rbind r (\<lambda>x. Inr (created_or_ok ''Double-entry transfer recorded successfully'' x)), db'))"

definition recordDeposit :: "db_env \<Rightarrow> single_req \<Rightarrow> db \<Rightarrow> (app_error + ledger_result response) \<times> db" where
  "recordDeposit env rq db =
     (let (r, db') = executeDeposit env rq db
      in (rbind r (\<lambda>x. Inr (created_or_ok ''Cash deposit recorded successfully'' x)), db'))"

definition recordWithdrawal :: "db_env \<Rightarrow> single_req \<Rightarrow> db \<Rightarrow> (app_error + ledger_result response) \<times> db" where
  "recordWithdrawal env rq db =
     (let (r, db') = executeWithdrawal env rq db
      in (rbind r (\<lambda>x. Inr (created_or_ok ''Cash withdrawal recorded successfully'' x)), db'))"

definition authenticateInternalService :: "string \<Rightarrow> string option \<Rightarrow> app_error + unit" where
  "authenticateInternalService internalApiKey header =
     (if \<not> truthy header
      then Inl (UnauthorizedError (Msg ''Missing required internal service API key (x-service-api-key)''))
      else if header \<noteq> Some internalApiKey
      then Inl (ForbiddenError (Msg ''Forbidden: Invalid internal service API key''))
      else Inr ())"

text \<open>
  The request validators on typed bodies: each failing check adds its field and message. The
  checks of the validator library are parameters. \<open>withMessage\<close> names the last check of a chain
  only, the others answer \<open>Invalid value\<close>. Sanitizers trim and upper-case the optional fields.
\<close>

record validator_lib =
  isUUID :: "string \<Rightarrow> bool"
  isNumeric :: "string \<Rightarrow> bool"

definition check :: "bool \<Rightarrow> string \<Rightarrow> string \<Rightarrow> (string \<times> string) list" where
  "check ok field msg = (if ok then [] else [(field, msg)])"

definition account_number_check :: "validator_lib \<Rightarrow> string \<Rightarrow> string \<Rightarrow> string \<Rightarrow> (string \<times> string) list" where
  "account_number_check V field v msg =
     check (length v = 12) field ''Invalid value'' @ check (isNumeric V v) field msg"

definition optional_checks :: "string option \<Rightarrow> string option \<Rightarrow> (string \<times> string) list" where
  "optional_checks referenceId currency =
     check (referenceId = None \<or> js_trim (the referenceId) \<noteq> '''') ''referenceId''
       ''referenceId must be a non-empty string'' @
     check (currency = None \<or> length (the currency) = 3) ''currency''
       ''Currency must be a 3-character ISO code''"

definition postDoubleEntryValidation :: "validator_lib \<Rightarrow> transfer_req \<Rightarrow> (string \<times> string) list" where
  "postDoubleEntryValidation V rq =
     check (isUUID V (rq_idempotencyKey rq)) ''idempotencyKey'' ''idempotencyKey must be a valid UUID'' @
     account_number_check V ''sourceAccountNumber'' (rq_source rq)
       ''Source account number must be a 12-digit numeric string'' @
     account_number_check V ''targetAccountNumber'' (rq_target rq)
       ''Target account number must be a 12-digit numeric string'' @
     check (rq_target rq \<noteq> rq_source rq) ''targetAccountNumber''
       ''Target account number cannot be identical to source account number'' @
     check (0 < rq_amount rq) ''amount'' ''Amount must be a positive number greater than 0'' @
     optional_checks (rq_referenceId rq) (rq_currency rq)"

definition postSingleValidation :: "validator_lib \<Rightarrow> single_req \<Rightarrow> (string \<times> string) list" where
  "postSingleValidation V rq =
     check (isUUID V (sr_idempotencyKey rq)) ''idempotencyKey'' ''idempotencyKey must be a valid UUID'' @
     account_number_check V ''accountNumber'' (sr_accountNumber rq)
       ''Account number must be a 12-digit numeric string'' @
     check (0 < sr_amount rq) ''amount'' ''Amount must be a positive number greater than 0'' @
     optional_checks (sr_referenceId rq) (sr_currency rq)"

definition sanitize_transfer :: "transfer_req \<Rightarrow> transfer_req" where
  "sanitize_transfer rq = rq\<lparr>rq_referenceId := map_option js_trim (rq_referenceId rq),
     rq_currency := map_option to_upper (rq_currency rq),
     rq_description := map_option js_trim (rq_description rq)\<rparr>"

definition sanitize_single :: "single_req \<Rightarrow> single_req" where
  "sanitize_single rq = rq\<lparr>sr_referenceId := map_option js_trim (sr_referenceId rq),
     sr_currency := map_option to_upper (sr_currency rq),
     sr_description := map_option js_trim (sr_description rq)\<rparr>"

text \<open>The routes of \<open>ledgerRoutes.js\<close>: the API key, the validators, the controller.\<close>

definition internal_route ::
  "bool \<Rightarrow> string \<Rightarrow> string option \<Rightarrow> (string \<times> string) list
     \<Rightarrow> (db \<Rightarrow> (app_error + 'd response) \<times> db) \<Rightarrow> db \<Rightarrow> 'd response \<times> db" where
  "internal_route production internalApiKey header errors handler db =
     (case authenticateInternalService internalApiKey header of
        Inl e \<Rightarrow> (errorHandler production e, db)
      | Inr _ \<Rightarrow>
          (case validateRequest errors of
             Some r \<Rightarrow> (r, db)
           | None \<Rightarrow> (let (r, db') = handler db in (respond production r, db'))))"

definition post_entries_route ::
  "bool \<Rightarrow> validator_lib \<Rightarrow> string \<Rightarrow> db_env \<Rightarrow> string option \<Rightarrow> transfer_req \<Rightarrow> db
     \<Rightarrow> ledger_result response \<times> db" where
  "post_entries_route production V internalApiKey env header rq =
     internal_route production internalApiKey header (postDoubleEntryValidation V rq)
       (recordTransfer env (sanitize_transfer rq))"

definition post_deposit_route ::
  "bool \<Rightarrow> validator_lib \<Rightarrow> string \<Rightarrow> db_env \<Rightarrow> string option \<Rightarrow> single_req \<Rightarrow> db
     \<Rightarrow> ledger_result response \<times> db" where
  "post_deposit_route production V internalApiKey env header rq =
     internal_route production internalApiKey header (postSingleValidation V rq)
       (recordDeposit env (sanitize_single rq))"

definition post_withdraw_route ::
  "bool \<Rightarrow> validator_lib \<Rightarrow> string \<Rightarrow> db_env \<Rightarrow> string option \<Rightarrow> single_req \<Rightarrow> db
     \<Rightarrow> ledger_result response \<times> db" where
  "post_withdraw_route production V internalApiKey env header rq =
     internal_route production internalApiKey header (postSingleValidation V rq)
       (recordWithdrawal env (sanitize_single rq))"

lemma transfer_error_status:
  assumes "executeDoubleEntryTransfer env rq db = (Inl e, db')"
  shows "statusCode e \<in> {None, Some 400, Some 404, Some 409}"
proof (cases "plan_transfer rq db")
  case (Inl e')
  with assms have "plan_transfer rq db = Inl e"
    by (auto simp: executeDoubleEntryTransfer_def in_transaction_Inl)
  then show ?thesis
    by (auto simp: plan_transfer_def rbind_eq_Inl Let_def insufficient_funds_def error_defs
        dest!: active_account_Inl split: if_splits)
next
  case (Inr plan)
  with assms obtain d where "post_transfer env rq plan db = (Inl e, d)"
    by (auto simp: executeDoubleEntryTransfer_def in_transaction_Inl)
  then show ?thesis
    by (auto simp: post_transfer_def store_dec_def numeric_overflow_def lock_lost_def error_defs Let_def
        find_or_create_tx_def create_tx_def unique_violation_def
        split: transfer_plan.splits option.splits prod.splits if_splits sum.splits)
qed

lemma transfer_route_not_ok:
  assumes "post_entries_route production V key env hdr rq db = (resp, db')"
  shows "(200 \<le> rs_status resp \<and> rs_status resp < 300 \<and>
      (\<exists>res. executeDoubleEntryTransfer env (sanitize_transfer rq) db = (Inr res, db') \<and>
         rs_body resp = SuccessBody ''Double-entry transfer recorded successfully'' res)) \<or>
    (400 \<le> rs_status resp \<and> db' = db)"
proof -
  obtain r d where ex: "executeDoubleEntryTransfer env (sanitize_transfer rq) db = (r, d)" by force
  show ?thesis
  proof (cases r)
    case (Inr res)
    with ex assms show ?thesis
      by (auto simp: post_entries_route_def internal_route_def authenticateInternalService_def error_defs
          errorHandler_def api_error_def validateRequest_def recordTransfer_def created_or_ok_def respond_def
          api_success_def split: if_splits)
  next
    case (Inl e)
    with transfer_error_status[of env "sanitize_transfer rq" db e d] ex have
      "statusCode e \<in> {None, Some 400, Some 404, Some 409}" "d = db"
      using exec_error_unchanged[of env "OpTransfer (sanitize_transfer rq)" db e d] by auto
    with ex assms Inl show ?thesis
      by (auto simp: post_entries_route_def internal_route_def authenticateInternalService_def error_defs
          errorHandler_def api_error_def validateRequest_def recordTransfer_def respond_def Let_def
          split: if_splits app_error.splits)
  qed
qed

subsection \<open>Sample state\<close>

definition sample_env :: db_env where
  "sample_env = \<lparr>new_id = (\<lambda>n. ''id'' @ replicate n (CHR ''x'')), to_dec = pg_cents\<rparr>"

definition sample_account :: "string \<Rightarrow> string \<Rightarrow> string \<Rightarrow> int \<Rightarrow> account" where
  "sample_account i n u bal = \<lparr>a_id = i, a_accountNumber = n, a_userId = u, a_type = CHECKING,
     a_status = ACTIVE, a_balance = bal, a_currency = ''USD'', a_version = 0, a_deletedAt = None,
     a_createdAt = 0\<rparr>"

definition sample_db :: db where
  "sample_db = \<lparr>db_users = [],
     db_accounts = [sample_account ''A'' ''100000000001'' ''alice'' 10000,
                    sample_account ''B'' ''100000000002'' ''bob'' 5000],
     db_transactions = [], db_entries = [], db_outbox = [], db_audits = [],
     db_notifications = [], db_now = 1, db_seq = 0\<rparr>"

definition sample_transfer :: "rat \<Rightarrow> transfer_req" where
  "sample_transfer amt = \<lparr>rq_idempotencyKey = ''key-1'', rq_referenceId = Some ''ref-1'',
     rq_source = ''100000000001'', rq_target = ''100000000002'', rq_amount = amt,
     rq_currency = None, rq_description = None\<rparr>"

definition sample_deposit :: "rat \<Rightarrow> single_req" where
  "sample_deposit amt = \<lparr>sr_idempotencyKey = ''key-2'', sr_referenceId = None,
     sr_accountNumber = ''100000000001'', sr_amount = amt, sr_currency = None, sr_description = None\<rparr>"

lemmas sample_defs = sample_env_def sample_account_def sample_db_def sample_transfer_def sample_deposit_def

lemma sample_codec [simp]: "decimal_codec (to_dec sample_env)"
  by (simp add: sample_env_def pg.decimal_codec_axioms)

lemma sample_money [simp]: "money_db sample_db" "wf_db sample_db" "sound_book (book_of sample_db)"
  by (simp_all add: sample_defs money_db_def wf_db_def money_def money_max_def sound_book_def
      book_of_def running_ok_def)

end
