(* ===== verification/LedgerProps.thy ===== *)
theory LedgerProps
  imports Ledger
begin

text \<open>What the ledger service guarantees, and where it does not.\<close>

text \<open>C3: A transfer of a whole number of cents that the ledger posts (not a replay) is, on the
  book of accounts and entries, exactly a valid debit of the source followed by a valid credit of
  the target for the same amount: both accounts exist, are active and differ, the source had the
  funds, no balance becomes negative, the two entries belong to the returned transaction.\<close>

theorem transfer_refines_book:
  assumes "decimal_codec (to_dec env)" and "money_db db" and "money c" and "0 < c"
    and "rq_amount rq = num_of_cents c"
    and "executeDoubleEntryTransfer env rq db = (Inr res, db')" and "\<not> lr_isIdempotent res"
  shows "\<exists>src tgt d k. account_by_number (rq_source rq) db = Some src \<and> a_status src = ACTIVE \<and>
     account_by_number (rq_target rq) db = Some tgt \<and> a_status tgt = ACTIVE \<and>
     a_id src \<noteq> a_id tgt \<and> c \<le> a_balance src \<and> lr_entries res = [d, k] \<and>
     entry_is d (t_id (lr_transaction res)) (a_id src) DEBIT c (a_balance src - c) \<and>
     entry_is k (t_id (lr_transaction res)) (a_id tgt) CREDIT c (a_balance tgt + c) \<and>
     valid_entries [d, k] (book_of db) \<and> book_of db' = post_entries [d, k] (book_of db)"
proof -
  obtain src tgt d k where e: "account_by_number (rq_source rq) db = Some src" "a_status src = ACTIVE"
      "account_by_number (rq_target rq) db = Some tgt" "a_status tgt = ACTIVE"
      "a_id src \<noteq> a_id tgt" "c \<le> a_balance src" "lr_entries res = [d, k]"
      "book_of db' = post_entries [d, k] (book_of db)"
      "entry_is d (t_id (lr_transaction res)) (a_id src) DEBIT c (a_balance src - c)"
      "entry_is k (t_id (lr_transaction res)) (a_id tgt) CREDIT c (a_balance tgt + c)"
    by (rule transfer_effect[OF assms(1,2,3,5,6,7)]) blast
  have "valid_entries [d, k] (book_of db)"
    by (rule transfer_entries_valid[OF _ _ e(5,6) _ e(9,10)])
      (use e(1,3) assms(2,4) in \<open>auto simp: money_db_def dest!: account_by_number_SomeD\<close>)
  with e show ?thesis by blast
qed

theorem transfer_refines_book_witness:
  "\<exists>res db'. executeDoubleEntryTransfer sample_env (sample_transfer (num_of_cents 2550)) sample_db =
     (Inr res, db') \<and> (\<exists>d k. lr_entries res = [d, k] \<and> valid_entries [d, k] (book_of sample_db) \<and>
        book_of db' = post_entries [d, k] (book_of sample_db))"
proof -
  have "case executeDoubleEntryTransfer sample_env (sample_transfer (num_of_cents 2550)) sample_db of
      (Inl _, _) \<Rightarrow> False | (Inr res, _) \<Rightarrow> \<not> lr_isIdempotent res"
    by code_simp
  then obtain res db' where
    r: "executeDoubleEntryTransfer sample_env (sample_transfer (num_of_cents 2550)) sample_db = (Inr res, db')"
      "\<not> lr_isIdempotent res"
    by (auto split: prod.splits sum.splits)
  have "money 2550" "(0::int) < 2550" by (simp_all add: money_def money_max_def)
  from transfer_refines_book[OF sample_codec sample_money(1) this _ r] show ?thesis
    using r by (auto simp: sample_transfer_def)
qed

text \<open>C31: A transfer between two distinct active accounts with sufficient funds, under a fresh
  key and reference, is accepted: the ledger answers with a new posting, not with an error.\<close>

theorem transfer_accepted:
  assumes "decimal_codec (to_dec env)" and "money_db db" and "money c" and "0 < c"
    and "rq_amount rq = num_of_cents c"
    and "account_by_number (rq_source rq) db = Some src" and "a_status src = ACTIVE"
    and "account_by_number (rq_target rq) db = Some tgt" and "a_status tgt = ACTIVE"
    and "rq_source rq \<noteq> rq_target rq" and "c \<le> a_balance src"
    and "tx_by_key (rq_idempotencyKey rq) db = None"
    and "\<forall>t \<in> set (db_transactions db). t_referenceId t = None \<or> t_referenceId t \<noteq> rq_referenceId rq"
  shows "\<exists>res db'. executeDoubleEntryTransfer env rq db = (Inr res, db') \<and> \<not> lr_isIdempotent res"
proof -
  have mem: "src \<in> set (db_accounts db)" "tgt \<in> set (db_accounts db)" and
    nums: "a_accountNumber src = rq_source rq" "a_accountNumber tgt = rq_target rq"
    using assms(6,8) by (auto dest: account_by_number_SomeD)
  with assms(2,10) have m: "money (a_balance src)" "money (a_balance tgt)"
    and d: "distinct (map a_id (db_accounts db))" and ne: "a_id src \<noteq> a_id tgt"
    by (auto simp: money_db_def wf_db_def dest: distinct_map_eq)
  define db1 where "db1 = db\<lparr>db_accounts := set_balance src (a_balance src - c) (db_accounts db)\<rparr>"
  have "tgt \<in> set (db_accounts db1)" using mem(2) ne by (force simp: db1_def set_balance_mem)
  moreover have "distinct (map a_id (db_accounts db1))" using d by (simp add: db1_def)
  ultimately have u2: "update_account_cas (a_id tgt) (a_version tgt) b db1 =
      (1, db1\<lparr>db_accounts := set_balance tgt b (db_accounts db1)\<rparr>)" for b
    by (rule update_cas_hit[rotated])
  have u1: "update_account_cas (a_id src) (a_version src) (a_balance src - c) db = (1, db1)"
    unfolding db1_def by (rule update_cas_hit[OF d mem(1)])
  have plan: "plan_transfer rq db = Inr (Post None src tgt (rq_amount rq)
      (js_sub (num_of_cents (a_balance src)) (num_of_cents c))
      (js_add (num_of_cents (a_balance tgt)) (num_of_cents c)))"
    using assms(5-9,11,12) num_of_cents_less[OF m(1) assms(3)]
    by (simp add: plan_Post_iff is_replay_def active_account_Inr)
  have fresh: "\<not> (\<exists>u \<in> set (db_transactions db). t_idempotencyKey u = rq_idempotencyKey rq \<or>
      (t_referenceId u \<noteq> None \<and> t_referenceId u = rq_referenceId rq))"
    using assms(12,13) by (auto simp: tx_by_key_def dest: find_NoneD)
  show ?thesis
    unfolding executeDoubleEntryTransfer_def
    using fresh u1 u2[of "a_balance tgt + c"] m assms(3,5)
    by (auto simp: in_transaction_Inr plan post_transfer_def store_dec_def Let_def db1_def
        decimal_codec.store_diff[OF assms(1)] decimal_codec.store_sum[OF assms(1)]
        decimal_codec.store_num[OF assms(1)] find_or_create_tx_def create_tx_def create_entry_def
        in_transaction_def)
qed

theorem transfer_accepted_witness:
  "\<exists>res db'. executeDoubleEntryTransfer sample_env (sample_transfer (num_of_cents 100)) sample_db =
     (Inr res, db') \<and> \<not> lr_isIdempotent res"
  by (rule transfer_accepted[where c = 100 and src = "sample_account ''A'' ''100000000001'' ''alice'' 10000"
        and tgt = "sample_account ''B'' ''100000000002'' ''bob'' 5000"])
    (simp_all add: money_def money_max_def, simp_all add: sample_defs account_by_number_def tx_by_key_def)

text \<open>C2: Whatever list of transfers, deposits and withdrawals the ledger is asked to post (with
  positive amounts in cents, total money within the exact range of doubles), failed and repeated
  ones included, at every end: no balance is negative, account and key uniqueness hold, every
  account's balance is its opening balance plus its signed entries, its last entry carries its
  balance, and the total has grown by at most the cash paid in.\<close>

theorem ledger_run_sound:
  assumes "decimal_codec (to_dec env)" and "wf_db db" and "sound_book (book_of db)"
    and "cents_ops ops" and "total_balance db + cash_in ops \<le> money_max"
  shows "let db' = ledger_run env (map fst ops) db
     in wf_db db' \<and> sound_book (book_of db') \<and> openings (book_of db') = openings (book_of db) \<and>
        total_balance db' \<le> total_balance db + cash_in ops"
proof -
  from ledger_run_inv[OF assms] obtain es where
    es: "wf_db (ledger_run env (map fst ops) db)" "valid_entries es (book_of db)"
      "book_of (ledger_run env (map fst ops) db) = post_entries es (book_of db)"
      "(\<Sum>e\<leftarrow>es. signed e) \<le> cash_in ops" by blast
  have tot: "total_balance d = book_total (book_of d)" for d
    by (simp add: total_balance_def book_total_def book_of_def)
  from post_entries_sound[OF assms(3) es(2)] es show ?thesis
    by (simp add: Let_def tot)
qed

definition sample_ops :: "(ledger_op \<times> int) list" where
  "sample_ops = [(OpTransfer (sample_transfer (num_of_cents 2550)), 2550),
     (OpDeposit (sample_deposit (num_of_cents 100)), 100),
     (OpWithdrawal (sample_deposit (num_of_cents 7)), 7)]"

theorem ledger_run_sound_witness:
  "let db' = ledger_run sample_env (map fst sample_ops) sample_db
   in wf_db db' \<and> sound_book (book_of db') \<and> openings (book_of db') = openings (book_of sample_db) \<and>
      total_balance db' \<le> total_balance sample_db + cash_in sample_ops"
  by (rule ledger_run_sound)
    (simp_all add: sample_ops_def cents_ops_def cash_in_def money_max_def total_balance_def,
     simp_all add: sample_defs)

text \<open>Optimistic locking. When another transaction has committed between the reads and the
  writes of a transfer and changed the version of either account, the transfer answers 409 and
  writes nothing.\<close>

lemma optimistic_lock_conflict:
  assumes "plan_transfer rq read_db = Inr (Post et src tgt amt ns nt)" and "a_id src \<noteq> a_id tgt"
    and "to_dec env ns = Some sb" and "to_dec env nt = Some tb"
    and "(\<forall>b \<in> set (db_accounts write_db). a_id b = a_id src \<longrightarrow> a_version b \<noteq> a_version src) \<or>
         (\<forall>b \<in> set (db_accounts write_db). a_id b = a_id tgt \<longrightarrow> a_version b \<noteq> a_version tgt)"
  shows "\<exists>e. interleaved_transfer env rq read_db write_db = (Inl e, write_db) \<and> statusCode e = Some 409"
proof -
  obtain n1 d1 where u1: "update_account_cas (a_id src) (a_version src) sb write_db = (n1, d1)" by force
  obtain n2 d2 where u2: "update_account_cas (a_id tgt) (a_version tgt) tb d1 = (n2, d2)" by force
  have "n1 = 0 \<or> n2 = 0"
  proof (cases "\<forall>b \<in> set (db_accounts write_db). a_id b = a_id src \<longrightarrow> a_version b \<noteq> a_version src")
    case True
    then have "fst (update_account_cas (a_id src) (a_version src) sb write_db) = 0"
      by (intro update_cas_miss) blast
    with u1 show ?thesis by simp
  next
    case False
    with assms(5) have "\<forall>b \<in> set (db_accounts write_db). a_id b = a_id tgt \<longrightarrow> a_version b \<noteq> a_version tgt"
      by blast
    moreover have "db_accounts d1 = map (\<lambda>a. if a_id a = a_id src \<and> a_version a = a_version src
        then a\<lparr>a_balance := sb, a_version := a_version a + 1\<rparr> else a) (db_accounts write_db)"
      using u1 by (auto simp: update_account_cas_def)
    ultimately have "\<forall>b \<in> set (db_accounts d1). a_id b = a_id tgt \<longrightarrow> a_version b \<noteq> a_version tgt"
      using assms(2) by auto
    then have "fst (update_account_cas (a_id tgt) (a_version tgt) tb d1) = 0"
      by (intro update_cas_miss) blast
    with u2 show ?thesis by simp
  qed
  with u1 u2 assms(1,3,4) show ?thesis
    by (auto simp: interleaved_transfer_def in_transaction_def post_transfer_def store_dec_def
        lock_lost_def error_defs)
qed

definition raced_db :: db where
  "raced_db = snd (executeDeposit sample_env (sample_deposit (num_of_cents 300)) sample_db)"

lemma optimistic_lock_conflict_example:
  "\<exists>e. interleaved_transfer sample_env (sample_transfer (num_of_cents 100)) sample_db raced_db =
     (Inl e, raced_db) \<and> statusCode e = Some 409"
proof -
  let ?src = "sample_account ''A'' ''100000000001'' ''alice'' 10000"
  let ?tgt = "sample_account ''B'' ''100000000002'' ''bob'' 5000"
  have plan: "plan_transfer (sample_transfer (num_of_cents 100)) sample_db =
      Inr (Post None ?src ?tgt (num_of_cents 100)
        (js_sub (num_of_cents 10000) (num_of_cents 100)) (js_add (num_of_cents 5000) (num_of_cents 100)))"
    by code_simp
  have dec: "to_dec sample_env (js_sub (num_of_cents 10000) (num_of_cents 100)) = Some 9900"
    "to_dec sample_env (js_add (num_of_cents 5000) (num_of_cents 100)) = Some 5100"
    by code_simp+
  have "list_all (\<lambda>b. a_id b = a_id ?src \<longrightarrow> a_version b \<noteq> a_version ?src) (db_accounts raced_db)"
    by code_simp
  then have "\<forall>b \<in> set (db_accounts raced_db). a_id b = a_id ?src \<longrightarrow> a_version b \<noteq> a_version ?src"
    by (simp add: list_all_iff)
  moreover have "a_id ?src \<noteq> a_id ?tgt" by (simp add: sample_account_def)
  ultimately show ?thesis
    using optimistic_lock_conflict[OF plan _ dec] by blast
qed

text \<open>Cash deposits are idempotent. Once a deposit under a fresh key has been posted, every
  further deposit request with that key, whatever its other fields, is answered as a replay with
  the same transaction and changes nothing.\<close>

lemma deposit_replay:
  assumes "wf_db db" and "tx_by_key (sr_idempotencyKey rq) db = None"
    and "executeDeposit env rq db = (Inr res, db')"
    and "sr_idempotencyKey rq' = sr_idempotencyKey rq"
  shows "\<exists>res'. executeDeposit env rq' db' = (Inr res', db') \<and> lr_isIdempotent res' \<and>
     lr_transaction res' = lr_transaction res"
proof -
  from assms(2,3) obtain acc where
    acc: "account_by_number (sr_accountNumber rq) db = Some acc" and
    post: "post_single env rq None acc DEPOSIT CREDIT ''deposit''
       ''Cash Deposit'' (js_add (num_of_cents (a_balance acc)) (sr_amount rq)) db = (Inr res, db')"
    by (auto simp: executeDeposit_def in_transaction_Inr active_account_Inr Let_def is_replay_def
        split: if_splits sum.splits)
  then obtain b c where dec: "to_dec env (js_add (num_of_cents (a_balance acc)) (sr_amount rq)) = Some b"
      "to_dec env (sr_amount rq) = Some c"
    by (auto simp: post_single_def store_dec_def Let_def split: option.splits prod.splits if_splits)
  have mem: "acc \<in> set (db_accounts db)" using acc by (auto dest: account_by_number_SomeD)
  from post_single_Inr[OF post assms(1) mem dec]
  have t: "db_transactions db' = db_transactions db @ [lr_transaction res]"
    "t_idempotencyKey (lr_transaction res) = sr_idempotencyKey rq" "t_status (lr_transaction res) = COMPLETED"
    and e: "entries_of (t_id (lr_transaction res)) db' \<noteq> []"
    by (auto simp: entries_of_def entry_is_def)
  from t assms(2) have "tx_by_key (sr_idempotencyKey rq) db' = Some (lr_transaction res)"
    by (simp add: tx_by_key_def find_append)
  with t(3) e have "is_replay db' (tx_by_key (sr_idempotencyKey rq') db')"
    by (simp add: is_replay_def assms(4))
  with \<open>tx_by_key (sr_idempotencyKey rq) db' = _\<close> show ?thesis
    by (simp add: executeDeposit_def in_transaction_Inr replay_result_def assms(4))
qed

lemma deposit_replay_example:
  "\<exists>res db' res'. executeDeposit sample_env (sample_deposit (num_of_cents 300)) sample_db = (Inr res, db') \<and>
     executeDeposit sample_env (sample_deposit (num_of_cents 999)) db' = (Inr res', db') \<and>
     lr_isIdempotent res' \<and> lr_transaction res' = lr_transaction res"
proof -
  have "case executeDeposit sample_env (sample_deposit (num_of_cents 300)) sample_db of
      (Inl _, _) \<Rightarrow> False | (Inr _, _) \<Rightarrow> True"
    by code_simp
  then obtain res db' where
    r: "executeDeposit sample_env (sample_deposit (num_of_cents 300)) sample_db = (Inr res, db')"
    by (auto split: prod.splits sum.splits)
  have "tx_by_key (sr_idempotencyKey (sample_deposit (num_of_cents 300))) sample_db = None"
    by (simp add: tx_by_key_def sample_defs)
  from deposit_replay[OF sample_money(2) this r, of "sample_deposit (num_of_cents 999)"] r
  show ?thesis by (auto simp: sample_deposit_def)
qed

subsection \<open>Limits of the ledger's guarantees\<close>

text \<open>Amounts are only required to be positive, so an amount with a fraction of a cent is
  posted: debit and credit round on their own, and a transfer of 0.125 between accounts with
  100.00 and 50.00 makes the total of all balances one cent larger.\<close>

lemma sub_cent_transfer_creates_money:
  "total_balance (snd (executeDoubleEntryTransfer sample_env (sample_transfer (1 / 8)) sample_db)) =
   total_balance sample_db + 1"
  by code_simp

text \<open>The cursor handed out with a full page of the entry history is the first entry of the
  next page, but the next query starts after the cursor row: that entry is on neither page, so
  paging through the history misses one entry per page.\<close>

lemma history_page_gap:
  assumes "distinct (map l_id rows)" and "\<forall>e \<in> set rows. l_id e \<noteq> ''''" and "limit < length rows"
  shows "\<exists>e c. e = rows ! limit \<and> snd (page_of limit rows) = Some c \<and> c = l_id e \<and>
     e \<notin> set (fst (page_of limit rows)) \<and> e \<notin> set (fst (page_of m (after_cursor (Some c) rows)))"
  using cursor_gap(1,2)[OF assms] cursor_gap(3)[OF assms, where m = m] by (auto simp: page_of_def after_cursor_def)

definition sample_rows :: "ledger_entry list" where
  "sample_rows = map (\<lambda>i. \<lparr>l_id = i, l_transactionId = ''T'', l_accountId = ''A'', l_type = CREDIT,
     l_amount = 1, l_balanceAfter = 1, l_createdAt = 0\<rparr>) [''a'', ''b'', ''c'']"

lemma history_page_gap_example:
  "\<exists>e c. e = sample_rows ! 1 \<and> snd (page_of 1 sample_rows) = Some c \<and> c = l_id e \<and>
     e \<notin> set (fst (page_of 1 sample_rows)) \<and>
     e \<notin> set (fst (page_of 1 (after_cursor (Some c) sample_rows)))"
  by (rule history_page_gap) (simp_all add: sample_rows_def)

end
