(* ===== verification/CircuitBreaker.thy ===== *)
theory CircuitBreaker
  imports Http
begin

text \<open>
  The circuit breaker of \<open>shared/src/resilience/circuitBreaker.js\<close>. \<open>execute\<close> is split where
  the source awaits the protected action: \<open>admit\<close> before it and \<open>settle\<close> after it, so that
  concurrent requests interleave as they do in the service. Times are \<open>Date.now()\<close> in
  milliseconds and are inputs. Log output is left out.
\<close>

datatype circuit_state = CB_CLOSED | CB_OPEN | CB_HALF_OPEN

datatype reason =
    TimeoutExpired nat
  | SuccessThreshold nat
  | ProbeFailed err_msg
  | FailureThreshold nat
  | ProxyProbeFailed err_msg
  | ProxyFailureThreshold nat err_msg
  | ManualReset
  | Override string

record cb_stats =
  totalRequests :: nat
  successfulRequests :: nat
  failedRequests :: nat
  failFastCount :: nat
  recoveryCount :: nat
  stateTransitions :: nat

record cb_transition =
  tr_from :: circuit_state
  tr_to :: circuit_state
  tr_timestamp :: nat
  tr_reason :: reason

record breaker =
  cb_name :: string
  failureThreshold :: nat
  successThreshold :: nat
  openTimeoutMs :: nat
  cb_state :: circuit_state
  consecutiveFailures :: nat
  halfOpenSuccessCount :: nat
  openedAt :: "nat option"
  lastFailureTime :: "nat option"
  lastFailureReason :: "err_msg option"
  lastSuccessTime :: "nat option"
  cb_stats :: cb_stats
  transitionHistory :: "cb_transition list"

definition FAILURE_THRESHOLD :: nat where "FAILURE_THRESHOLD = 5"
definition SUCCESS_THRESHOLD :: nat where "SUCCESS_THRESHOLD = 3"
definition OPEN_TIMEOUT_MS :: nat where "OPEN_TIMEOUT_MS = 30000"

text \<open>The constructor with the default configuration.\<close>

definition new_breaker :: "string \<Rightarrow> breaker" where
  "new_breaker name =
     \<lparr>cb_name = name, failureThreshold = FAILURE_THRESHOLD, successThreshold = SUCCESS_THRESHOLD,
      openTimeoutMs = OPEN_TIMEOUT_MS, cb_state = CB_CLOSED, consecutiveFailures = 0,
      halfOpenSuccessCount = 0, openedAt = None, lastFailureTime = None, lastFailureReason = None,
      lastSuccessTime = None,
      cb_stats = \<lparr>totalRequests = 0, successfulRequests = 0, failedRequests = 0, failFastCount = 0,
                  recoveryCount = 0, stateTransitions = 0\<rparr>,
      transitionHistory = []\<rparr>"

text \<open>The default \<open>isFailure\<close>: client errors other than 408 and 429 say nothing about the service.\<close>

definition isFailure :: "app_error \<Rightarrow> bool" where
  "isFailure err =
     (case statusCode err of
        None \<Rightarrow> True
      | Some c \<Rightarrow> \<not> (400 \<le> c \<and> c < 500 \<and> c \<noteq> 408 \<and> c \<noteq> 429))"

definition transitionTo :: "nat \<Rightarrow> circuit_state \<Rightarrow> reason \<Rightarrow> breaker \<Rightarrow> breaker" where
  "transitionTo now newState reason b =
     (if cb_state b = newState then b
      else
        let record = \<lparr>tr_from = cb_state b, tr_to = newState, tr_timestamp = now, tr_reason = reason\<rparr>;
            history = transitionHistory b @ [record];
            b = b\<lparr>cb_state := newState,
                  cb_stats := (cb_stats b)\<lparr>stateTransitions := stateTransitions (cb_stats b) + 1\<rparr>,
                  transitionHistory := (if length history > 50 then tl history else history)\<rparr>
        in case newState of
             CB_OPEN \<Rightarrow> b\<lparr>openedAt := Some now, halfOpenSuccessCount := 0\<rparr>
           | CB_HALF_OPEN \<Rightarrow> b\<lparr>halfOpenSuccessCount := 0\<rparr>
           | CB_CLOSED \<Rightarrow> b\<lparr>consecutiveFailures := 0, halfOpenSuccessCount := 0, openedAt := None\<rparr>)"

definition timeSinceOpen :: "nat \<Rightarrow> breaker \<Rightarrow> int" where
  "timeSinceOpen now b = int now - (case openedAt b of None \<Rightarrow> 0 | Some t \<Rightarrow> int t)"

definition retryAfterSec :: "nat \<Rightarrow> breaker \<Rightarrow> nat" where
  "retryAfterSec now b = nat (max 1 (ceil_seconds (int (openTimeoutMs b) - timeSinceOpen now b)))"

text \<open>The part of \<open>execute\<close> before the action: fail fast, or go on.\<close>

definition admit :: "nat \<Rightarrow> breaker \<Rightarrow> (app_error + unit) \<times> breaker" where
  "admit now b =
     (let b = b\<lparr>cb_stats := (cb_stats b)\<lparr>totalRequests := totalRequests (cb_stats b) + 1\<rparr>\<rparr>
      in if cb_state b = CB_OPEN then
           (if int (openTimeoutMs b) \<le> timeSinceOpen now b
            then (Inr (), transitionTo now CB_HALF_OPEN (TimeoutExpired (openTimeoutMs b)) b)
            else (Inl (BreakerOpenError (cb_name b) (retryAfterSec now b) (lastFailureReason b)),
                  b\<lparr>cb_stats := (cb_stats b)\<lparr>failFastCount := failFastCount (cb_stats b) + 1\<rparr>\<rparr>))
         else (Inr (), b))"

definition on_success :: "nat \<Rightarrow> breaker \<Rightarrow> breaker" where
  "on_success now b =
     (let b = b\<lparr>cb_stats := (cb_stats b)\<lparr>successfulRequests := successfulRequests (cb_stats b) + 1\<rparr>,
                lastSuccessTime := Some now\<rparr>
      in case cb_state b of
           CB_HALF_OPEN \<Rightarrow>
             (let b = b\<lparr>halfOpenSuccessCount := halfOpenSuccessCount b + 1\<rparr>
              in if successThreshold b \<le> halfOpenSuccessCount b
                 then transitionTo now CB_CLOSED (SuccessThreshold (successThreshold b))
                        (b\<lparr>cb_stats := (cb_stats b)\<lparr>recoveryCount := recoveryCount (cb_stats b) + 1\<rparr>\<rparr>)
                 else b)
         | CB_CLOSED \<Rightarrow> b\<lparr>consecutiveFailures := 0\<rparr>
         | CB_OPEN \<Rightarrow> b)"

text \<open>Recording a failure; the gateway's proxy does the same with other transition reasons.\<close>

definition record_failure ::
  "nat \<Rightarrow> err_msg \<Rightarrow> reason \<Rightarrow> reason \<Rightarrow> breaker \<Rightarrow> breaker" where
  "record_failure now msg probe_reason threshold_reason b =
     (let b = b\<lparr>cb_stats := (cb_stats b)\<lparr>failedRequests := failedRequests (cb_stats b) + 1\<rparr>,
                lastFailureTime := Some now, lastFailureReason := Some msg\<rparr>
      in case cb_state b of
           CB_HALF_OPEN \<Rightarrow> transitionTo now CB_OPEN probe_reason b
         | CB_CLOSED \<Rightarrow>
             (let b = b\<lparr>consecutiveFailures := consecutiveFailures b + 1\<rparr>
              in if failureThreshold b \<le> consecutiveFailures b
                 then transitionTo now CB_OPEN threshold_reason b
                 else b)
         | CB_OPEN \<Rightarrow> b)"

definition on_failure :: "nat \<Rightarrow> app_error \<Rightarrow> breaker \<Rightarrow> breaker" where
  "on_failure now err b =
     record_failure now (errorMessage err) (ProbeFailed (errorMessage err))
       (FailureThreshold (failureThreshold b)) b"

text \<open>The part of \<open>execute\<close> after the action.\<close>

definition settle :: "nat \<Rightarrow> app_error + 'a \<Rightarrow> breaker \<Rightarrow> breaker" where
  "settle now outcome b =
     (case outcome of
        Inr _ \<Rightarrow> on_success now b
      | Inl e \<Rightarrow> if isFailure e then on_failure now e b else b)"

text \<open>
  \<open>execute\<close> as one call, with the times of its start and end. The fallback answers in place of
  the fail-fast error and of a service failure, never for a client error.
\<close>

definition execute ::
  "nat \<Rightarrow> nat \<Rightarrow> (app_error \<Rightarrow> app_error + 'a) option \<Rightarrow> ('s \<Rightarrow> (app_error + 'a) \<times> 's)
     \<Rightarrow> breaker \<times> 's \<Rightarrow> (app_error + 'a) \<times> breaker \<times> 's" where
  "execute t0 t1 fallback action bs =
     (let (gate, b) = admit t0 (fst bs)
      in case gate of
           Inl e \<Rightarrow> ((case fallback of None \<Rightarrow> Inl e | Some f \<Rightarrow> f e), b, snd bs)
         | Inr _ \<Rightarrow>
             (let (outcome, s) = action (snd bs);
                  b = settle t1 outcome b
              in case outcome of
                   Inr x \<Rightarrow> (Inr x, b, s)
                 | Inl e \<Rightarrow>
                     if isFailure e
                     then ((case fallback of None \<Rightarrow> Inl e | Some f \<Rightarrow> f e), b, s)
                     else (Inl e, b, s)))"

lemma execute_no_fallback:
  "execute t0 t1 None action (b, s) =
     (case admit t0 b of
        (Inl e, b) \<Rightarrow> (Inl e, b, s)
      | (Inr _, b) \<Rightarrow> (fst (action s), settle t1 (fst (action s)) b, snd (action s)))"
  by (auto simp: execute_def Let_def split: prod.split sum.split)

definition reset :: "nat \<Rightarrow> breaker \<Rightarrow> breaker" where
  "reset now b = (transitionTo now CB_CLOSED ManualReset b)
     \<lparr>consecutiveFailures := 0, halfOpenSuccessCount := 0, openedAt := None, lastFailureReason := None\<rparr>"

definition forceState :: "nat \<Rightarrow> circuit_state \<Rightarrow> string \<Rightarrow> breaker \<Rightarrow> breaker" where
  "forceState now st reason b = transitionTo now st (Override reason) b"

definition secondsUntilHalfOpen :: "nat \<Rightarrow> breaker \<Rightarrow> nat" where
  "secondsUntilHalfOpen now b =
     (let since = (case openedAt b of None \<Rightarrow> 0 | Some t \<Rightarrow> if t = 0 then 0 else int now - int t)
      in if cb_state b = CB_OPEN then nat (max 0 (ceil_seconds (int (openTimeoutMs b) - since))) else 0)"

record cb_status =
  st_name :: string
  st_state :: circuit_state
  st_consecutiveFailures :: nat
  st_halfOpenSuccessCount :: nat
  st_openedAt :: "nat option"
  st_secondsUntilHalfOpen :: nat
  st_lastFailureReason :: "err_msg option"
  st_stats :: cb_stats
  st_recentTransitions :: "cb_transition list"

definition getStatus :: "nat \<Rightarrow> breaker \<Rightarrow> cb_status" where
  "getStatus now b =
     \<lparr>st_name = cb_name b, st_state = cb_state b, st_consecutiveFailures = consecutiveFailures b,
      st_halfOpenSuccessCount = halfOpenSuccessCount b, st_openedAt = openedAt b,
      st_secondsUntilHalfOpen = secondsUntilHalfOpen now b,
      st_lastFailureReason = lastFailureReason b, st_stats = cb_stats b,
      st_recentTransitions = drop (length (transitionHistory b) - 5) (transitionHistory b)\<rparr>"

subsection \<open>The registry\<close>

text \<open>A JavaScript map from names to breakers, in insertion order.\<close>

type_synonym registry = "(string \<times> breaker) list"

definition reg_get :: "string \<Rightarrow> registry \<Rightarrow> breaker option" where
  "reg_get name reg = map_of reg name"

definition getOrCreate :: "string \<Rightarrow> registry \<Rightarrow> breaker \<times> registry" where
  "getOrCreate name reg =
     (case reg_get name reg of
        Some b \<Rightarrow> (b, reg)
      | None \<Rightarrow> (new_breaker name, reg @ [(name, new_breaker name)]))"

definition getAllStatus :: "nat \<Rightarrow> registry \<Rightarrow> (string \<times> cb_status) list" where
  "getAllStatus now reg = map (\<lambda>(n, b). (n, getStatus now b)) reg"

definition resetAll :: "nat \<Rightarrow> registry \<Rightarrow> registry" where
  "resetAll now reg = map (\<lambda>(n, b). (n, reset now b)) reg"

subsection \<open>Transitions of a breaker\<close>

text \<open>
  Requests enter and finish in any order, administrators reset and force: one step per critical
  section of the source.
\<close>

inductive cb_step :: "breaker \<Rightarrow> breaker \<Rightarrow> bool" where
  step_admit: "cb_step b (snd (admit now b))"
| step_success: "cb_step b (on_success now b)"
| step_failure: "cb_step b (record_failure now msg r1 r2 b)"
| step_reset: "cb_step b (reset now b)"
| step_force: "cb_step b (forceState now st reason b)"

inductive cb_reachable :: "string \<Rightarrow> breaker \<Rightarrow> bool" for name where
  reach_new: "cb_reachable name (new_breaker name)"
| reach_step: "cb_reachable name b \<Longrightarrow> cb_step b b' \<Longrightarrow> cb_reachable name b'"

inductive_cases cb_stepE [elim!]: "cb_step b b'"

text \<open>The recorded transitions form a chain that ends in the current state.\<close>

fun linked :: "cb_transition list \<Rightarrow> circuit_state \<Rightarrow> bool" where
  "linked [] st \<longleftrightarrow> True"
| "linked [t] st \<longleftrightarrow> tr_from t \<noteq> tr_to t \<and> tr_to t = st"
| "linked (t # u # ts) st \<longleftrightarrow> tr_from t \<noteq> tr_to t \<and> tr_to t = tr_from u \<and> linked (u # ts) st"

definition cb_config :: "breaker \<Rightarrow> bool" where
  "cb_config b \<longleftrightarrow> failureThreshold b = FAILURE_THRESHOLD \<and> successThreshold b = SUCCESS_THRESHOLD \<and>
     openTimeoutMs b = OPEN_TIMEOUT_MS"

definition cb_counters :: "breaker \<Rightarrow> bool" where
  "cb_counters b \<longleftrightarrow> (case cb_state b of
      CB_CLOSED \<Rightarrow> consecutiveFailures b < failureThreshold b \<and> halfOpenSuccessCount b = 0 \<and> openedAt b = None
    | CB_OPEN \<Rightarrow> halfOpenSuccessCount b = 0 \<and> openedAt b \<noteq> None
    | CB_HALF_OPEN \<Rightarrow> halfOpenSuccessCount b < successThreshold b)"

definition cb_history :: "breaker \<Rightarrow> bool" where
  "cb_history b \<longleftrightarrow> length (transitionHistory b) \<le> 50 \<and> linked (transitionHistory b) (cb_state b) \<and>
     length (transitionHistory b) \<le> stateTransitions (cb_stats b)"

definition cb_inv :: "breaker \<Rightarrow> bool" where
  "cb_inv b \<longleftrightarrow> cb_config b \<and> cb_counters b \<and> cb_history b"

lemmas threshold_defs = FAILURE_THRESHOLD_def SUCCESS_THRESHOLD_def OPEN_TIMEOUT_MS_def

lemma linked_append:
  "linked ts s \<Longrightarrow> s \<noteq> s' \<Longrightarrow> linked (ts @ [\<lparr>tr_from = s, tr_to = s', tr_timestamp = n, tr_reason = r\<rparr>]) s'"
  by (induction ts s rule: linked.induct) auto

lemma linked_tl: "linked ts s \<Longrightarrow> linked (tl ts) s"
  by (induction ts s rule: linked.induct) auto

lemma transitionTo_state [simp]: "cb_state (transitionTo now st r b) = st"
  by (auto simp: transitionTo_def Let_def split: circuit_state.splits)

lemma transitionTo_config [simp]: "cb_config (transitionTo now st r b) = cb_config b"
  by (auto simp: transitionTo_def cb_config_def Let_def split: circuit_state.splits)

lemma transitionTo_history: "cb_history b \<Longrightarrow> cb_history (transitionTo now st r b)"
  by (auto simp: transitionTo_def cb_history_def Let_def linked_append linked_tl
      split: circuit_state.splits)

lemma transitionTo_counters:
  assumes "cb_config b" and "cb_state b \<noteq> st"
  shows "cb_counters (transitionTo now st r b)"
  using assms
  by (auto simp: transitionTo_def cb_counters_def cb_config_def threshold_defs Let_def
      split: circuit_state.splits)

lemma force_inv: "cb_inv b \<Longrightarrow> cb_inv (transitionTo now st r b)"
proof (cases "cb_state b = st")
  case True
  then show "cb_inv b \<Longrightarrow> ?thesis" by (simp add: transitionTo_def)
next
  case False
  then show "cb_inv b \<Longrightarrow> ?thesis" by (simp add: cb_inv_def transitionTo_history transitionTo_counters)
qed

text \<open>Statistics other than the transition count and the time stamps are outside the invariant.\<close>

lemma cb_inv_stats [simp]:
  "stateTransitions s = stateTransitions (cb_stats b) \<Longrightarrow> cb_inv (b\<lparr>cb_stats := s\<rparr>) = cb_inv b"
  "cb_inv (b\<lparr>lastSuccessTime := t\<rparr>) = cb_inv b"
  "cb_inv (b\<lparr>lastFailureTime := t\<rparr>) = cb_inv b"
  "cb_inv (b\<lparr>lastFailureReason := m\<rparr>) = cb_inv b"
  by (auto simp: cb_inv_def cb_config_def cb_counters_def cb_history_def split: circuit_state.splits)

lemma admit_inv: "cb_inv b \<Longrightarrow> cb_inv (snd (admit now b))"
  by (simp add: admit_def Let_def force_inv)

text \<open>A counter may take any value when the breaker leaves its state.\<close>

lemma leave_inv:
  assumes "cb_inv b" and "cb_state b \<noteq> st"
  shows "cb_inv (transitionTo now st r (b\<lparr>halfOpenSuccessCount := n\<rparr>))"
    and "cb_inv (transitionTo now st r (b\<lparr>consecutiveFailures := n\<rparr>))"
    and "stateTransitions s = stateTransitions (cb_stats b) \<Longrightarrow>
       cb_inv (transitionTo now st r (b\<lparr>halfOpenSuccessCount := n, cb_stats := s\<rparr>))"
proof -
  have "cb_history (b\<lparr>halfOpenSuccessCount := n\<rparr>)" "cb_config (b\<lparr>halfOpenSuccessCount := n\<rparr>)"
    "stateTransitions s = stateTransitions (cb_stats b) \<Longrightarrow> cb_history (b\<lparr>halfOpenSuccessCount := n, cb_stats := s\<rparr>)"
    "cb_config (b\<lparr>halfOpenSuccessCount := n, cb_stats := s\<rparr>)"
    "cb_history (b\<lparr>consecutiveFailures := n\<rparr>)" "cb_config (b\<lparr>consecutiveFailures := n\<rparr>)"
    using assms(1) by (simp_all add: cb_inv_def cb_config_def cb_history_def)
  then show "cb_inv (transitionTo now st r (b\<lparr>halfOpenSuccessCount := n\<rparr>))"
    and "cb_inv (transitionTo now st r (b\<lparr>consecutiveFailures := n\<rparr>))"
    and "stateTransitions s = stateTransitions (cb_stats b) \<Longrightarrow>
       cb_inv (transitionTo now st r (b\<lparr>halfOpenSuccessCount := n, cb_stats := s\<rparr>))"
    using assms(2) unfolding cb_inv_def by (simp_all add: transitionTo_history transitionTo_counters)
qed

lemma stay_inv:
  assumes "cb_inv b"
  shows "cb_state b = CB_HALF_OPEN \<Longrightarrow> n < successThreshold b \<Longrightarrow> cb_inv (b\<lparr>halfOpenSuccessCount := n\<rparr>)"
    and "cb_state b = CB_CLOSED \<Longrightarrow> n < failureThreshold b \<Longrightarrow> cb_inv (b\<lparr>consecutiveFailures := n\<rparr>)"
  using assms by (simp_all add: cb_inv_def cb_config_def cb_counters_def cb_history_def)

lemma on_success_inv:
  assumes "cb_inv b"
  shows "cb_inv (on_success now b)"
proof -
  define c where "c = b\<lparr>cb_stats := (cb_stats b)\<lparr>successfulRequests := successfulRequests (cb_stats b) + 1\<rparr>,
     lastSuccessTime := Some now\<rparr>"
  have c: "cb_inv c" "cb_state c = cb_state b" using assms by (simp_all add: c_def)
  have "on_success now b = (case cb_state c of
      CB_HALF_OPEN \<Rightarrow> if successThreshold c \<le> halfOpenSuccessCount c + 1
        then transitionTo now CB_CLOSED (SuccessThreshold (successThreshold c))
               (c\<lparr>halfOpenSuccessCount := halfOpenSuccessCount c + 1,
                  cb_stats := (cb_stats c)\<lparr>recoveryCount := recoveryCount (cb_stats c) + 1\<rparr>\<rparr>)
        else c\<lparr>halfOpenSuccessCount := halfOpenSuccessCount c + 1\<rparr>
    | CB_CLOSED \<Rightarrow> c\<lparr>consecutiveFailures := 0\<rparr>
    | CB_OPEN \<Rightarrow> c)"
    by (simp add: on_success_def c_def Let_def split: circuit_state.split)
  moreover have "0 < failureThreshold c"
    using c by (simp add: cb_inv_def cb_config_def threshold_defs)
  ultimately show ?thesis
    using c by (auto split: circuit_state.split intro: leave_inv stay_inv)
qed

lemma record_failure_inv:
  assumes "cb_inv b"
  shows "cb_inv (record_failure now msg r1 r2 b)"
proof -
  define c where "c = b\<lparr>cb_stats := (cb_stats b)\<lparr>failedRequests := failedRequests (cb_stats b) + 1\<rparr>,
     lastFailureTime := Some now, lastFailureReason := Some msg\<rparr>"
  have c: "cb_inv c" "cb_state c = cb_state b" using assms by (simp_all add: c_def)
  have "record_failure now msg r1 r2 b = (case cb_state c of
      CB_HALF_OPEN \<Rightarrow> transitionTo now CB_OPEN r1 c
    | CB_CLOSED \<Rightarrow> if failureThreshold c \<le> consecutiveFailures c + 1
        then transitionTo now CB_OPEN r2 (c\<lparr>consecutiveFailures := consecutiveFailures c + 1\<rparr>)
        else c\<lparr>consecutiveFailures := consecutiveFailures c + 1\<rparr>
    | CB_OPEN \<Rightarrow> c)"
    by (simp add: record_failure_def c_def Let_def split: circuit_state.split)
  then show ?thesis
    using c by (auto split: circuit_state.split intro: leave_inv stay_inv force_inv)
qed

lemma reset_inv: "cb_inv b \<Longrightarrow> cb_inv (reset now b)"
  using force_inv[of b now CB_CLOSED ManualReset]
  by (auto simp: reset_def cb_inv_def cb_config_def cb_counters_def cb_history_def threshold_defs)

lemma cb_step_inv: "cb_step b b' \<Longrightarrow> cb_inv b \<Longrightarrow> cb_inv b'"
  by (auto simp: forceState_def intro: admit_inv on_success_inv record_failure_inv force_inv reset_inv)

lemma settle_step: "settle now r b = b \<or> cb_step b (settle now r b)"
  by (auto simp: settle_def on_failure_def split: sum.split intro: cb_step.intros)

lemma cb_reachable_inv: "cb_reachable name b \<Longrightarrow> cb_inv b"
proof (induction rule: cb_reachable.induct)
  case reach_new
  show ?case
    by (simp add: new_breaker_def cb_inv_def cb_config_def cb_counters_def cb_history_def threshold_defs)
next
  case (reach_step b b')
  then show ?case by (simp only: cb_step_inv)
qed

subsection \<open>Properties\<close>

text \<open>C6: In every state a breaker can reach, by any interleaving of requests entering, succeeding
  and failing with administrative resets and forced states: a closed breaker has fewer consecutive
  failures than the threshold and no opening time, an open one has an opening time, a half-open one
  fewer probe successes than its threshold; the history keeps at most 50 transitions, each a real
  change, each starting where the one before ended, the last one ending in the current state.\<close>

theorem breaker_invariant:
  assumes "cb_reachable name b"
  shows "(cb_state b = CB_CLOSED \<longrightarrow> consecutiveFailures b < 5 \<and> halfOpenSuccessCount b = 0 \<and> openedAt b = None) \<and>
     (cb_state b = CB_OPEN \<longrightarrow> halfOpenSuccessCount b = 0 \<and> openedAt b \<noteq> None) \<and>
     (cb_state b = CB_HALF_OPEN \<longrightarrow> halfOpenSuccessCount b < 3) \<and>
     length (transitionHistory b) \<le> 50 \<and> linked (transitionHistory b) (cb_state b)"
  using cb_reachable_inv[OF assms]
  by (auto simp: cb_inv_def cb_config_def cb_counters_def cb_history_def threshold_defs)

theorem breaker_invariant_witness:
  "let b = snd (admit 7 (new_breaker ''ledger-service''))
   in length (transitionHistory b) \<le> 50 \<and> linked (transitionHistory b) (cb_state b)"
proof -
  have "cb_reachable ''ledger-service'' (snd (admit 7 (new_breaker ''ledger-service'')))"
    by (rule reach_step[OF reach_new step_admit])
  from breaker_invariant[OF this] show ?thesis by (simp add: Let_def)
qed

text \<open>The longest success-free stretch of service failures in a list of outcomes.\<close>

fun max_failures :: "nat \<Rightarrow> (app_error + 'a) list \<Rightarrow> nat" where
  "max_failures n [] = n"
| "max_failures n (Inr x # os) = max n (max_failures 0 os)"
| "max_failures n (Inl e # os) = (if isFailure e then max_failures (n + 1) os else max_failures n os)"

fun settle_all :: "(nat \<times> (app_error + 'a)) list \<Rightarrow> breaker \<Rightarrow> breaker" where
  "settle_all [] b = b"
| "settle_all ((now, r) # rs) b = settle_all rs (settle now r b)"

lemma max_failures_ge: "n \<le> max_failures n os"
  by (induction n os rule: max_failures.induct) auto

lemma settle_open: "cb_state b = CB_OPEN \<Longrightarrow> cb_state (settle now r b) = CB_OPEN \<and> openedAt (settle now r b) = openedAt b"
  by (auto simp: settle_def on_success_def on_failure_def record_failure_def Let_def split: sum.split)

lemma settle_all_open: "cb_state b = CB_OPEN \<Longrightarrow> cb_state (settle_all rs b) = CB_OPEN"
  by (induction rs b rule: settle_all.induct) (auto simp: settle_open)

lemma settle_closed:
  assumes "cb_state b = CB_CLOSED"
  shows "settle now (Inr x) b = b\<lparr>cb_stats := (cb_stats b)\<lparr>successfulRequests := successfulRequests (cb_stats b) + 1\<rparr>,
           lastSuccessTime := Some now, consecutiveFailures := 0\<rparr>"
    and "isFailure e \<Longrightarrow> consecutiveFailures b + 1 < failureThreshold b \<Longrightarrow>
       cb_state (settle now (Inl e) b) = CB_CLOSED \<and>
       consecutiveFailures (settle now (Inl e) b) = consecutiveFailures b + 1 \<and>
       failureThreshold (settle now (Inl e) b) = failureThreshold b"
    and "isFailure e \<Longrightarrow> failureThreshold b \<le> consecutiveFailures b + 1 \<Longrightarrow>
       cb_state (settle now (Inl e) b) = CB_OPEN"
    and "\<not> isFailure e \<Longrightarrow> settle now (Inl e) b = b"
  using assms by (simp_all add: settle_def on_success_def on_failure_def record_failure_def Let_def)

text \<open>C34: A closed breaker trips exactly when there are as many service failures without a success
  in between as its threshold says. Client errors (4xx but 408 and 429) neither count nor reset
  the count.\<close>

theorem breaker_trips_iff:
  assumes "cb_state b = CB_CLOSED" and "consecutiveFailures b < failureThreshold b"
  shows "cb_state (settle_all rs b) =
     (if failureThreshold b \<le> max_failures (consecutiveFailures b) (map snd rs) then CB_OPEN else CB_CLOSED)"
  using assms
proof (induction rs arbitrary: b)
  case Nil
  then show ?case by simp
next
  case (Cons p rs)
  obtain now r where p: "p = (now, r)" by force
  show ?case
  proof (cases r)
    case (Inr x)
    have "settle now (Inr x) b = b\<lparr>cb_stats := (cb_stats b)\<lparr>successfulRequests := successfulRequests (cb_stats b) + 1\<rparr>,
        lastSuccessTime := Some now, consecutiveFailures := 0\<rparr>" (is "_ = ?b")
      by (rule settle_closed(1)[OF Cons.prems(1)])
    with Cons.IH[of ?b] Cons.prems p Inr show ?thesis by (auto simp: max_def)
  next
    case (Inl e)
    have sc: "isFailure e \<Longrightarrow> consecutiveFailures b + 1 < failureThreshold b \<Longrightarrow>
         cb_state (settle now r b) = CB_CLOSED \<and>
         consecutiveFailures (settle now r b) = consecutiveFailures b + 1 \<and>
         failureThreshold (settle now r b) = failureThreshold b"
      "isFailure e \<Longrightarrow> failureThreshold b \<le> consecutiveFailures b + 1 \<Longrightarrow>
         cb_state (settle now r b) = CB_OPEN"
      "\<not> isFailure e \<Longrightarrow> settle now r b = b"
      unfolding Inl using settle_closed(2-4)[OF Cons.prems(1)] by blast+
    show ?thesis
    proof (cases "isFailure e")
      case False
      with sc(3) Cons.IH[OF Cons.prems] p Inl show ?thesis by simp
    next
      case f: True
      show ?thesis
      proof (cases "consecutiveFailures b + 1 < failureThreshold b")
        case True
        from sc(1)[OF f True] Cons.IH[of "settle now r b"] True p Inl f show ?thesis by simp
      next
        case False
        then have "cb_state (settle_all rs (settle now r b)) = CB_OPEN"
          using sc(2)[OF f] settle_all_open by auto
        moreover have "failureThreshold b \<le> max_failures (consecutiveFailures b + 1) (map snd rs)"
          using False max_failures_ge le_trans by (metis not_less)
        ultimately show ?thesis using p Inl f by simp
      qed
    qed
  qed
qed

definition failing :: "nat \<Rightarrow> (nat \<times> (app_error + unit)) list" where
  "failing n = map (\<lambda>i. (i, Inl (PlainError None (Msg ''down'')))) [0..<n]"

theorem breaker_trips_iff_witness:
  "cb_state (settle_all (failing 5) (new_breaker ''ledger-service'')) = CB_OPEN \<and>
   cb_state (settle_all (failing 4) (new_breaker ''ledger-service'')) = CB_CLOSED"
proof -
  let ?b = "new_breaker ''ledger-service''"
  have c: "cb_state ?b = CB_CLOSED" "consecutiveFailures ?b < failureThreshold ?b"
    by (simp_all add: new_breaker_def threshold_defs)
  have "max_failures 0 (map snd (failing 5)) = 5" "max_failures 0 (map snd (failing 4)) = 4"
    by code_simp+
  with breaker_trips_iff[OF c, of "failing 5"] breaker_trips_iff[OF c, of "failing 4"] show ?thesis
    by (simp add: new_breaker_def threshold_defs)
qed

text \<open>Fail fast. An open breaker whose timeout has not expired answers 503 at once, without
  running the action and without changing anything but its statistics; the seconds it tells the
  caller to wait are at least 1, at most the timeout rounded up, and long enough: a request that
  comes that many seconds later is admitted as a probe if the breaker has not been touched.\<close>

lemma breaker_fails_fast:
  assumes "cb_state b = CB_OPEN" and "openedAt b = Some t" and "t \<le> now"
    and "now < t + openTimeoutMs b"
  shows "\<exists>n. execute now t1 None action (b, s) =
       (Inl (BreakerOpenError (cb_name b) n (lastFailureReason b)), snd (admit now b), s) \<and>
     cb_state (snd (admit now b)) = CB_OPEN \<and> openedAt (snd (admit now b)) = Some t \<and>
     1 \<le> n \<and> int n \<le> ceil_seconds (int (openTimeoutMs b)) \<and>
     (\<forall>later \<ge> now + n * 1000. fst (admit later (snd (admit now b))) = Inr () \<and>
        cb_state (snd (admit later (snd (admit now b)))) = CB_HALF_OPEN)"
proof -
  let ?left = "int (openTimeoutMs b) - timeSinceOpen now b"
  have l: "?left = int (openTimeoutMs b) - (int now - int t)" "0 < ?left"
    using assms by (simp_all add: timeSinceOpen_def)
  have up: "?left \<le> ceil_seconds ?left * 1000" and low: "1 \<le> ceil_seconds ?left"
    using l(2) by (simp_all add: ceil_seconds_def)
  have "retryAfterSec now b = nat (ceil_seconds ?left)"
    using low by (simp add: retryAfterSec_def max_def)
  then have n: "int (retryAfterSec now b) = ceil_seconds ?left" using low by simp
  have mono: "ceil_seconds ?left \<le> ceil_seconds (int (openTimeoutMs b))"
    unfolding ceil_seconds_def using l assms(3) by (simp add: zdiv_mono1)
  have admit: "admit now b = (Inl (BreakerOpenError (cb_name b) (retryAfterSec now b) (lastFailureReason b)),
      snd (admit now b))" "cb_state (snd (admit now b)) = CB_OPEN" "openedAt (snd (admit now b)) = Some t"
      "openTimeoutMs (snd (admit now b)) = openTimeoutMs b"
    using assms(1,2) l(2) by (simp_all add: admit_def Let_def retryAfterSec_def timeSinceOpen_def)
  have later: "fst (admit later (snd (admit now b))) = Inr () \<and>
      cb_state (snd (admit later (snd (admit now b)))) = CB_HALF_OPEN"
    if "now + retryAfterSec now b * 1000 \<le> later" for later
  proof -
    have "int now + int (retryAfterSec now b) * 1000 \<le> int later" using that by linarith
    then have "int (openTimeoutMs b) \<le> int later - int t" using up l(1) n by linarith
    then show ?thesis
      using admit(2-4) by (simp add: admit_def[of later] Let_def timeSinceOpen_def)
  qed
  have "execute now t1 None action (b, s) =
       (Inl (BreakerOpenError (cb_name b) (retryAfterSec now b) (lastFailureReason b)), snd (admit now b), s)"
    unfolding execute_def fst_conv snd_conv by (subst admit(1)) simp
  with admit n low mono later show ?thesis
    by (intro exI[of _ "retryAfterSec now b"]) auto
qed

definition tripped :: breaker where
  "tripped = settle_all (failing 5) (new_breaker ''ledger-service'')"

lemma tripped_facts: "cb_state tripped = CB_OPEN" "openedAt tripped = Some 4" "openTimeoutMs tripped = 30000"
  by (simp_all add: tripped_def failing_def upt_rec settle_def on_failure_def record_failure_def Let_def
      isFailure_def transitionTo_def new_breaker_def threshold_defs)

lemma breaker_fails_fast_example:
  "\<exists>n. fst (execute 10004 0 None (\<lambda>s. (Inr (), s)) (tripped, ())) =
       Inl (BreakerOpenError (cb_name tripped) n (lastFailureReason tripped)) \<and> 1 \<le> n \<and>
     int n \<le> ceil_seconds (int (openTimeoutMs tripped))"
proof -
  have "(10004 :: nat) < 4 + openTimeoutMs tripped" by (simp add: tripped_facts)
  from breaker_fails_fast[OF tripped_facts(1,2) _ this, of 0 "\<lambda>s. (Inr (), s)" "()"]
  obtain n where "execute 10004 0 None (\<lambda>s. (Inr (), s)) (tripped, ()) =
       (Inl (BreakerOpenError (cb_name tripped) n (lastFailureReason tripped)), snd (admit 10004 tripped), ())"
      "1 \<le> n" "int n \<le> ceil_seconds (int (openTimeoutMs tripped))"
    by auto
  then show ?thesis by (intro exI[of _ n]) simp
qed

text \<open>C35: Recovery. Once the timeout has expired, the next request is let through as a probe; the
  third success without a failure closes the breaker with all counters cleared, and a failure
  before that opens it again, from that moment on.\<close>

theorem breaker_recovers:
  assumes "cb_inv b" and "cb_state b = CB_OPEN" and "int (openTimeoutMs b) \<le> timeSinceOpen now b"
  shows "let h = snd (admit now b); h1 = on_success t1 h; h2 = on_success t2 h1; c = on_success t3 h2
     in fst (admit now b) = Inr () \<and> cb_state h = CB_HALF_OPEN \<and> cb_state h1 = CB_HALF_OPEN \<and>
        cb_state h2 = CB_HALF_OPEN \<and> cb_state c = CB_CLOSED \<and> consecutiveFailures c = 0 \<and>
        halfOpenSuccessCount c = 0 \<and> openedAt c = None \<and>
        (\<forall>f \<in> {h, h1, h2}. cb_state (on_failure t e f) = CB_OPEN \<and> openedAt (on_failure t e f) = Some t)"
proof -
  define h where "h = snd (admit now b)"
  define h1 where "h1 = on_success t1 h"
  define h2 where "h2 = on_success t2 h1"
  define c where "c = on_success t3 h2"
  have gate: "fst (admit now b) = Inr ()"
    using assms(2,3) by (simp add: admit_def Let_def timeSinceOpen_def)
  have th: "successThreshold b = 3" using assms(1) by (simp add: cb_inv_def cb_config_def threshold_defs)
  have h: "cb_state h = CB_HALF_OPEN" "halfOpenSuccessCount h = 0" "successThreshold h = 3"
    using assms(2,3) th
    by (simp_all add: h_def admit_def Let_def timeSinceOpen_def transitionTo_def)
  have h1: "cb_state h1 = CB_HALF_OPEN" "halfOpenSuccessCount h1 = 1" "successThreshold h1 = 3"
    using h by (simp_all add: h1_def on_success_def Let_def)
  have h2: "cb_state h2 = CB_HALF_OPEN" "halfOpenSuccessCount h2 = 2" "successThreshold h2 = 3"
    using h1 by (simp_all add: h2_def on_success_def Let_def)
  have c: "cb_state c = CB_CLOSED" "consecutiveFailures c = 0" "halfOpenSuccessCount c = 0" "openedAt c = None"
    using h2 by (simp_all add: c_def on_success_def Let_def transitionTo_def)
  have fail: "cb_state (on_failure t e f) = CB_OPEN \<and> openedAt (on_failure t e f) = Some t"
    if "cb_state f = CB_HALF_OPEN" for f
    using that by (simp add: on_failure_def record_failure_def Let_def transitionTo_def)
  show ?thesis
    unfolding Let_def h_def[symmetric] h1_def[symmetric] h2_def[symmetric] c_def[symmetric]
    using gate h(1) h1(1) h2(1) c fail[OF h(1)] fail[OF h1(1)] fail[OF h2(1)] by simp
qed

theorem breaker_recovers_witness:
  "cb_state (on_success 40003 (on_success 40002 (on_success 40001 (snd (admit 40000 tripped))))) = CB_CLOSED"
proof -
  have "cb_reachable ''ledger-service'' (settle_all (failing n) (new_breaker ''ledger-service''))" for n
  proof -
    have "cb_reachable nm (settle_all rs b)" if "cb_reachable nm b" for nm b and rs :: "(nat \<times> (app_error + unit)) list"
      using that
    proof (induction rs arbitrary: b)
      case Nil
      then show ?case by simp
    next
      case (Cons p rs)
      obtain now r where p: "p = (now, r)" by force
      have "cb_reachable nm (settle now r b)"
        using settle_step[of now r b] Cons.prems by (metis reach_step)
      with Cons.IH p show ?case by simp
    qed
    then show ?thesis using reach_new by blast
  qed
  then have "cb_inv tripped" unfolding tripped_def by (rule cb_reachable_inv)
  from breaker_recovers[OF this tripped_facts(1), of 40000 40001 40002 40003] show ?thesis
    by (simp add: Let_def timeSinceOpen_def tripped_facts)
qed

end
