(* ===== verification/LedgerClient.thy ===== *)
theory LedgerClient
  imports Ledger CircuitBreaker
begin

text \<open>
  The payment service's client of the ledger, \<open>clients/ledgerClient.js\<close>: a call over the network
  to the ledger's internal routes, the transfer with a timeout and up to two retries, each call
  inside the ledger circuit breaker. The network is an input: for every attempt, whether the
  request is delivered, lost, or served with its answer lost.
\<close>

datatype net_fault =
    Delivered
  | NotSent string \<comment> \<open>connection error before the ledger has seen the request\<close>
  | ReplyLost string \<comment> \<open>the ledger has served the request, the client sees this error\<close>
  | TimedOutBefore
  | TimedOutAfter \<comment> \<open>aborted after 5000 ms, the ledger has served the request\<close>

datatype 'd reply = Reply "'d response" | NetworkError string | AbortError

text \<open>One \<open>fetch\<close>: the server's state changes exactly when the request has reached it.\<close>

fun fetch :: "net_fault \<Rightarrow> ('s \<Rightarrow> 'd response \<times> 's) \<Rightarrow> 's \<Rightarrow> 'd reply \<times> 's" where
  "fetch Delivered serve s = (let (r, s') = serve s in (Reply r, s'))"
| "fetch (NotSent m) serve s = (NetworkError m, s)"
| "fetch (ReplyLost m) serve s = (NetworkError m, snd (serve s))"
| "fetch TimedOutBefore serve s = (AbortError, s)"
| "fetch TimedOutAfter serve s = (AbortError, snd (serve s))"

text \<open>The fault of the n-th attempt; attempts beyond the script are delivered.\<close>

definition fault_at :: "net_fault list \<Rightarrow> nat \<Rightarrow> net_fault" where
  "fault_at fs n = (if n < length fs then fs ! n else Delivered)"

definition response_ok :: "nat \<Rightarrow> bool" where
  "response_ok status \<longleftrightarrow> 200 \<le> status \<and> status < 300"

text \<open>\<open>data.error?.message || fallback\<close>\<close>

definition error_message :: "'d response \<Rightarrow> string \<Rightarrow> err_msg" where
  "error_message r fallback =
     (case rs_body r of
        ErrorBody m _ \<Rightarrow> if m = Msg '''' then Msg fallback else m
      | SuccessBody _ _ \<Rightarrow> Msg fallback)"

text \<open>\<open>data.data\<close>, \<^const>\<open>None\<close> when the body has none.\<close>

definition response_data :: "'d response \<Rightarrow> 'd option" where
  "response_data r = (case rs_body r of SuccessBody _ d \<Rightarrow> Some d | ErrorBody _ _ \<Rightarrow> None)"

definition maxRetries :: nat where "maxRetries = 2"
definition timeoutMs :: nat where "timeoutMs = 5000"

text \<open>
  The retry loop of \<open>recordDoubleEntry\<close>: a 2xx answer ends it with the data, a 4xx answer with
  that error, everything else is remembered and tried again while attempts remain.
\<close>

function double_entry_loop ::
  "net_fault list \<Rightarrow> ('s \<Rightarrow> 'd response \<times> 's) \<Rightarrow> nat \<Rightarrow> err_msg option \<Rightarrow> 's \<Rightarrow> (app_error + 'd option) \<times> 's" where
  "double_entry_loop fs serve attempt lastError s =
     (if maxRetries < attempt
      then (Inl (InternalServerError (Prefixed ''Ledger service communication failure: ''
              (case lastError of None \<Rightarrow> Msg ''Unknown error''
               | Some m \<Rightarrow> if m = Msg '''' then Msg ''Unknown error'' else m))), s)
      else
        (case fetch (fault_at fs attempt) serve s of
           (Reply r, s') \<Rightarrow>
             (if \<not> response_ok (rs_status r) then
                if 400 \<le> rs_status r \<and> rs_status r < 500
                then (Inl (PlainError (Some (rs_status r)) (error_message r ''Ledger validation error'')), s')
                else double_entry_loop fs serve (attempt + 1)
                       (Some (error_message r (''Ledger service responded with status '' @ show_nat (rs_status r)))) s'
              else (Inr (response_data r), s'))
         | (NetworkError m, s') \<Rightarrow> double_entry_loop fs serve (attempt + 1) (Some (Msg m)) s'
         | (AbortError, s') \<Rightarrow>
             double_entry_loop fs serve (attempt + 1) (Some (Msg ''Ledger request timed out after 5000ms'')) s'))"
  by pat_completeness auto
termination
  by (relation "measure (\<lambda>(_, _, attempt, _, _). Suc maxRetries - attempt)") auto

declare double_entry_loop.simps [simp del]

definition recordDoubleEntry ::
  "nat \<Rightarrow> nat \<Rightarrow> net_fault list \<Rightarrow> ('s \<Rightarrow> 'd response \<times> 's) \<Rightarrow> breaker \<times> 's
     \<Rightarrow> (app_error + 'd option) \<times> breaker \<times> 's" where
  "recordDoubleEntry t0 t1 fs serve = execute t0 t1 None (double_entry_loop fs serve 0 None)"

text \<open>Deposits and withdrawals are sent once, without timeout; every non-2xx answer is an error.\<close>

definition single_attempt ::
  "net_fault \<Rightarrow> ('s \<Rightarrow> 'd response \<times> 's) \<Rightarrow> string \<Rightarrow> 's \<Rightarrow> (app_error + 'd option) \<times> 's" where
  "single_attempt f serve fallback s =
     (case fetch f serve s of
        (Reply r, s') \<Rightarrow>
          (if \<not> response_ok (rs_status r)
           then (Inl (PlainError (Some (rs_status r)) (error_message r fallback)), s')
           else (Inr (response_data r), s'))
      | (NetworkError m, s') \<Rightarrow> (Inl (PlainError None (Msg m)), s')
      | (AbortError, s') \<Rightarrow> (Inl (PlainError None (Msg ''This operation was aborted'')), s'))"

definition client_recordDeposit ::
  "nat \<Rightarrow> nat \<Rightarrow> net_fault list \<Rightarrow> ('s \<Rightarrow> 'd response \<times> 's) \<Rightarrow> breaker \<times> 's
     \<Rightarrow> (app_error + 'd option) \<times> breaker \<times> 's" where
  "client_recordDeposit t0 t1 fs serve = execute t0 t1 None (single_attempt (fault_at fs 0) serve ''Ledger deposit failed'')"

definition client_recordWithdrawal ::
  "nat \<Rightarrow> nat \<Rightarrow> net_fault list \<Rightarrow> ('s \<Rightarrow> 'd response \<times> 's) \<Rightarrow> breaker \<times> 's
     \<Rightarrow> (app_error + 'd option) \<times> breaker \<times> 's" where
  "client_recordWithdrawal t0 t1 fs serve = execute t0 t1 None (single_attempt (fault_at fs 0) serve ''Ledger withdrawal failed'')"

subsection \<open>How often the ledger is asked\<close>

text \<open>The server state after \<open>n\<close> requests have been served.\<close>

definition served :: "('s \<Rightarrow> 'r \<times> 's) \<Rightarrow> nat \<Rightarrow> 's \<Rightarrow> 's" where
  "served serve n s = ((\<lambda>s. snd (serve s)) ^^ n) s"

lemma fetch_served: "snd (fetch f serve s) = s \<or> snd (fetch f serve s) = snd (serve s)"
  by (cases f) (auto split: prod.split)

lemma double_entry_served:
  assumes "attempt \<le> Suc maxRetries"
  shows "\<exists>n \<le> Suc maxRetries - attempt. snd (double_entry_loop fs serve attempt le s) = served serve n s"
  using assms
proof (induction fs serve attempt le s rule: double_entry_loop.induct)
  case (1 fs serve attempt le s)
  show ?case
  proof (cases "maxRetries < attempt")
    case True
    then show ?thesis by (simp add: double_entry_loop.simps[of _ _ attempt] served_def)
  next
    case False
    obtain rep s' where f: "fetch (fault_at fs attempt) serve s = (rep, s')" by force
    then have s': "s' = s \<or> s' = snd (serve s)" using fetch_served[of "fault_at fs attempt" serve s] by simp
    have step: "\<exists>n \<le> Suc maxRetries - attempt. x = served serve n s"
      if "\<exists>n \<le> Suc maxRetries - (attempt + 1). x = served serve n s'" for x
    proof -
      from that obtain n where n: "n \<le> Suc maxRetries - (attempt + 1)" "x = served serve n s'" by blast
      have "served serve n (snd (serve s)) = served serve (Suc n) s"
        by (simp add: served_def funpow_Suc_right del: funpow.simps)
      with n s' False show ?thesis
        by (elim disjE) (rule exI[of _ n], simp, rule exI[of _ "Suc n"], simp)
    qed
    have stop: "\<exists>n \<le> Suc maxRetries - attempt. s' = served serve n s"
      using s' False
      by (elim disjE) (rule exI[of _ 0], simp add: served_def, rule exI[of _ 1], simp add: served_def)
    show ?thesis
      using 1 False f step stop
      by (subst double_entry_loop.simps) (auto split: reply.split)
  qed
qed

text \<open>With a network that delivers and a server that changes nothing when it refuses, a result means
  that the request was served exactly once.\<close>

lemma delivered_once:
  assumes "\<And>i. fault_at fs i = Delivered" and "serve s = (resp, s')"
    and "\<not> response_ok (rs_status resp) \<Longrightarrow> s' = s"
    and "double_entry_loop fs serve attempt le s = (Inr x, s2)"
  shows "response_ok (rs_status resp) \<and> x = response_data resp \<and> s2 = s'"
proof (cases "response_ok (rs_status resp)")
  case True
  with assms(1,2,4) show ?thesis
    by (subst (asm) double_entry_loop.simps) (auto split: if_splits)
next
  case False
  have "\<exists>e. fst (double_entry_loop fs serve attempt le s) = Inl e"
  proof (induction "Suc maxRetries - attempt" arbitrary: attempt le)
    case 0
    then show ?case by (subst double_entry_loop.simps) simp
  next
    case (Suc n)
    then have "n = Suc maxRetries - (attempt + 1)" by simp
    from Suc.hyps(1)[OF this] False assms(1-3) show ?case
      by (subst double_entry_loop.simps) (auto simp: Let_def)
  qed
  with assms(4) show ?thesis by simp
qed

text \<open>Only the faults of the attempts to come matter.\<close>

lemma double_entry_cong:
  assumes "\<And>i. attempt \<le> i \<Longrightarrow> fault_at fs i = fault_at gs i"
  shows "double_entry_loop fs serve attempt le s = double_entry_loop gs serve attempt le s"
  using assms
proof (induction "Suc maxRetries - attempt" arbitrary: attempt le s)
  case 0
  then show ?case by (subst (1 2) double_entry_loop.simps) simp
next
  case (Suc n)
  then have "n = Suc maxRetries - (attempt + 1)" by simp
  then have ih: "double_entry_loop fs serve (attempt + 1) le s = double_entry_loop gs serve (attempt + 1) le s" for le s
    by (rule Suc.hyps(1)) (simp add: Suc.prems)
  have f: "fault_at fs attempt = fault_at gs attempt" by (rule Suc.prems) simp
  show ?case
    by (subst (1 2) double_entry_loop.simps) (simp add: f ih[simplified] split: prod.split reply.split)
qed

text \<open>When the first answer is lost and the second arrives, the server has served two requests.\<close>

lemma reply_lost_twice:
  assumes "serve s = (resp1, s1)" and "serve s1 = (resp2, s2)" and "response_ok (rs_status resp2)"
  shows "double_entry_loop [ReplyLost m] serve 0 None s = (Inr (response_data resp2), s2)"
proof -
  have "double_entry_loop [ReplyLost m] serve 0 None s = double_entry_loop [ReplyLost m] serve 1 (Some (Msg m)) s1"
    using assms(1) by (subst double_entry_loop.simps) (simp add: fault_at_def maxRetries_def)
  also have "\<dots> = (Inr (response_data resp2), s2)"
    using assms(2,3) by (subst double_entry_loop.simps) (simp add: fault_at_def maxRetries_def)
  finally show ?thesis .
qed

subsection \<open>Properties\<close>


definition rejecting :: "nat \<Rightarrow> unit response \<times> nat" where
  "rejecting n = (\<lparr>rs_status = 404, rs_body = ErrorBody (Msg ''Account 7 not found'') []\<rparr>, n + 1)"


end
