(* ===== verification/AccountCache.thy ===== *)
theory AccountCache
  imports Database Redis
begin

text \<open>
  The account cache of \<open>shared/src/cache/accountCache.js\<close> on Redis database 1. A cached value is
  the JSON text of an account row with its owner, or of a balance, represented by the record.
  Every Redis failure is swallowed: a failed read is a miss, a failed write or delete is ignored.
  The measured latencies are left out.
\<close>

record owner =
  ow_id :: string
  ow_email :: string
  ow_firstName :: string
  ow_lastName :: string

record account_view =
  av_account :: account
  av_user :: "owner option" \<comment> \<open>\<open>include: { user }\<close>\<close>

record balance_view =
  bv_accountNumber :: string
  bv_userId :: string
  bv_balance :: int
  bv_currency :: string
  bv_status :: account_status

datatype db1_value = DetailsJson account_view | BalanceJson balance_view

record cache_metrics =
  c_hits :: nat
  c_misses :: nat
  c_invalidations :: nat
  c_sets :: nat

record 's account_cache =
  ac_redis :: "'s conn"
  ac_metrics :: cache_metrics

definition ACCOUNT_BALANCE_TTL :: nat where "ACCOUNT_BALANCE_TTL = 30"
definition ACCOUNT_DETAILS_TTL :: nat where "ACCOUNT_DETAILS_TTL = 300"

definition getBalanceKey :: "string \<Rightarrow> string" where
  "getBalanceKey n = ''account:balance:'' @ n"

definition getDetailsKey :: "string \<Rightarrow> string" where
  "getDetailsKey n = ''account:details:'' @ n"

lemma cache_keys [simp]:
  "getBalanceKey a = getBalanceKey b \<longleftrightarrow> a = b" "getDetailsKey a = getDetailsKey b \<longleftrightarrow> a = b"
  "getBalanceKey a \<noteq> getDetailsKey b" "getDetailsKey a \<noteq> getBalanceKey b"
  by (simp_all add: getBalanceKey_def getDetailsKey_def)

definition cache_read ::
  "('s, db1_value) kv \<Rightarrow> string \<Rightarrow> 's account_cache \<Rightarrow> db1_value option \<times> 's account_cache" where
  "cache_read K key st =
     (let (result, c) = redis_call (get_cmd K key) (ac_redis st);
          st = st\<lparr>ac_redis := c\<rparr>
      in case result of
           Inr (Some v) \<Rightarrow> (Some v, st\<lparr>ac_metrics := (ac_metrics st)\<lparr>c_hits := c_hits (ac_metrics st) + 1\<rparr>\<rparr>)
         | Inr None \<Rightarrow> (None, st\<lparr>ac_metrics := (ac_metrics st)\<lparr>c_misses := c_misses (ac_metrics st) + 1\<rparr>\<rparr>)
         | Inl _ \<Rightarrow> (None, st))"

definition cache_write ::
  "('s, db1_value) kv \<Rightarrow> string \<Rightarrow> db1_value \<Rightarrow> nat \<Rightarrow> 's account_cache \<Rightarrow> 's account_cache" where
  "cache_write K key v ttl st =
     (let (result, c) = redis_call (set_ex K key v ttl) (ac_redis st);
          st = st\<lparr>ac_redis := c\<rparr>
      in case result of
           Inr _ \<Rightarrow> st\<lparr>ac_metrics := (ac_metrics st)\<lparr>c_sets := c_sets (ac_metrics st) + 1\<rparr>\<rparr>
         | Inl _ \<Rightarrow> st)"

text \<open>The two kinds of keys are disjoint, so a key never holds the other kind of value.\<close>

definition getBalance ::
  "('s, db1_value) kv \<Rightarrow> string \<Rightarrow> 's account_cache \<Rightarrow> balance_view option \<times> 's account_cache" where
  "getBalance K n st =
     (let (v, st) = cache_read K (getBalanceKey n) st
      in (case v of Some (BalanceJson b) \<Rightarrow> Some b | _ \<Rightarrow> None, st))"

definition setBalance ::
  "('s, db1_value) kv \<Rightarrow> string \<Rightarrow> balance_view \<Rightarrow> 's account_cache \<Rightarrow> 's account_cache" where
  "setBalance K n b st = cache_write K (getBalanceKey n) (BalanceJson b) ACCOUNT_BALANCE_TTL st"

definition getDetails ::
  "('s, db1_value) kv \<Rightarrow> string \<Rightarrow> 's account_cache \<Rightarrow> account_view option \<times> 's account_cache" where
  "getDetails K n st =
     (let (v, st) = cache_read K (getDetailsKey n) st
      in (case v of Some (DetailsJson a) \<Rightarrow> Some a | _ \<Rightarrow> None, st))"

definition setDetails ::
  "('s, db1_value) kv \<Rightarrow> string \<Rightarrow> account_view \<Rightarrow> 's account_cache \<Rightarrow> 's account_cache" where
  "setDetails K n a st = cache_write K (getDetailsKey n) (DetailsJson a) ACCOUNT_DETAILS_TTL st"

definition cache_delete ::
  "('s, db1_value) kv \<Rightarrow> string list \<Rightarrow> 's account_cache \<Rightarrow> 's account_cache" where
  "cache_delete K keys st =
     (let (result, c) = redis_call (del_cmd K keys) (ac_redis st);
          st = st\<lparr>ac_redis := c\<rparr>
      in case result of
           Inr n \<Rightarrow> st\<lparr>ac_metrics := (ac_metrics st)\<lparr>c_invalidations := c_invalidations (ac_metrics st) + n\<rparr>\<rparr>
         | Inl _ \<Rightarrow> st)"

definition invalidateAccount ::
  "('s, db1_value) kv \<Rightarrow> string \<Rightarrow> 's account_cache \<Rightarrow> 's account_cache" where
  "invalidateAccount K n st = cache_delete K [getBalanceKey n, getDetailsKey n] st"

definition invalidateAccounts ::
  "('s, db1_value) kv \<Rightarrow> string list \<Rightarrow> 's account_cache \<Rightarrow> 's account_cache" where
  "invalidateAccounts K ns st =
     (if ns = [] then st
      else cache_delete K (concat (map (\<lambda>n. [getBalanceKey n, getDetailsKey n]) ns)) st)"

text \<open>\<open>hitRatio\<close> to four decimals.\<close>

definition hitRatio :: "cache_metrics \<Rightarrow> rat" where
  "hitRatio m =
     (if 0 < c_hits m + c_misses m
      then to_fixed 4 (fl (of_nat (c_hits m) / of_nat (c_hits m + c_misses m))) else 0)"

subsection \<open>What the cache promises its clients\<close>

text \<open>The contract the account and payment services rely on, for an entry of either kind.\<close>

locale read_cache =
  fixes get :: "string \<Rightarrow> 'c \<Rightarrow> 'v option \<times> 'c"
    and put :: "string \<Rightarrow> 'v \<Rightarrow> 'c \<Rightarrow> 'c"
    and drop_keys :: "string list \<Rightarrow> 'c \<Rightarrow> 'c"
    and up :: "'c \<Rightarrow> bool" \<comment> \<open>the store answers\<close>
  assumes get_put: "up c \<Longrightarrow> fst (get n (put n v c)) = Some v"
    and get_dropped: "up c \<Longrightarrow> n \<in> set ns \<Longrightarrow> fst (get n (drop_keys ns c)) = None"
    and up_put: "up c \<Longrightarrow> up (put n v c)"
    and up_drop: "up c \<Longrightarrow> up (drop_keys ns c)"
    and up_get: "up c \<Longrightarrow> up (snd (get n c))"
    and get_twice: "up c \<Longrightarrow> fst (get n (snd (get m c))) = fst (get n c)"
begin

text \<open>Cache-aside: read the cache, on a miss load and store.\<close>

definition aside :: "(string \<Rightarrow> 'v) \<Rightarrow> string \<Rightarrow> 'c \<Rightarrow> 'v \<times> 'c" where
  "aside load n c = (case get n c of (Some v, c) \<Rightarrow> (v, c) | (None, c) \<Rightarrow> (load n, put n (load n) c))"

lemma aside_after_drop: "up c \<Longrightarrow> n \<in> set ns \<Longrightarrow> fst (aside load n (drop_keys ns c)) = load n"
  using get_dropped[of c n ns] by (auto simp: aside_def split: prod.split option.split)

lemma aside_stable:
  assumes "up c"
  shows "fst (aside load' n (snd (aside load n c))) = fst (aside load n c)"
proof (cases "get n c")
  case (Pair r c')
  show ?thesis
  proof (cases r)
    case None
    have "up c'" using up_get[OF assms, of n] Pair by simp
    then have "fst (get n (put n (load n) c')) = Some (load n)" by (rule get_put)
    with Pair None show ?thesis by (auto simp: aside_def split: prod.split)
  next
    case (Some v)
    have "fst (get n c') = Some v" using get_twice[OF assms, of n n] Pair Some by simp
    with Pair Some show ?thesis by (auto simp: aside_def split: prod.split option.split)
  qed
qed

end

definition cache_up :: "'s account_cache \<Rightarrow> bool" where
  "cache_up st = healthy (ac_redis st)"

lemma cache_read_up: "cache_up st \<Longrightarrow>
    fst (cache_read K key st) = kv_get K key (store (ac_redis st)) \<and>
    ac_redis (snd (cache_read K key st)) = ac_redis st"
  by (auto simp: cache_up_def cache_read_def redis_call_healthy get_cmd_def Let_def split: option.split)

lemma cache_write_up: "cache_up st \<Longrightarrow>
    ac_redis (cache_write K key v ttl st) =
      (ac_redis st)\<lparr>store := kv_set K key v (ttl * 1000) (store (ac_redis st))\<rparr>"
  by (auto simp: cache_up_def cache_write_def redis_call_healthy set_ex_def Let_def)

lemma cache_delete_up: "cache_up st \<Longrightarrow>
    ac_redis (cache_delete K keys st) = (ac_redis st)\<lparr>store := snd (del_cmd K keys (store (ac_redis st)))\<rparr>"
  by (auto simp: cache_up_def cache_delete_def redis_call_healthy Let_def)

lemma invalidate_up: "cache_up st \<Longrightarrow> ns \<noteq> [] \<Longrightarrow>
    ac_redis (invalidateAccounts K ns st) =
      (ac_redis st)\<lparr>store := snd (del_cmd K (concat (map (\<lambda>n. [getBalanceKey n, getDetailsKey n]) ns))
         (store (ac_redis st)))\<rparr>"
  by (simp add: invalidateAccounts_def cache_delete_up)

lemma get_invalidated:
  assumes K: "redis_kv K" and "cache_up st" and "n \<in> set ns"
  shows "kv_get K (getBalanceKey n) (store (ac_redis (invalidateAccounts K ns st))) = None \<and>
     kv_get K (getDetailsKey n) (store (ac_redis (invalidateAccounts K ns st))) = None"
proof -
  from assms(3) have "ns \<noteq> []" by auto
  with assms show ?thesis by (auto simp: invalidate_up redis_kv.get_del_cmd[OF K])
qed

lemma cache_up_kept:
  assumes "cache_up st"
  shows "cache_up (invalidateAccounts K ns st)" and "cache_up (cache_write K key v ttl st)"
    and "cache_up (snd (cache_read K key st))"
  using assms cache_delete_up[OF assms] cache_write_up[OF assms] cache_read_up[OF assms]
  by (auto simp: cache_up_def invalidateAccounts_def)

lemma getDetails_up: "cache_up st \<Longrightarrow>
    fst (getDetails K n st) = (case kv_get K (getDetailsKey n) (store (ac_redis st)) of
      Some (DetailsJson a) \<Rightarrow> Some a | _ \<Rightarrow> None)"
  using cache_read_up[of st K "getDetailsKey n"]
  by (cases "cache_read K (getDetailsKey n) st") (simp add: getDetails_def)

lemma getBalance_up: "cache_up st \<Longrightarrow>
    fst (getBalance K n st) = (case kv_get K (getBalanceKey n) (store (ac_redis st)) of
      Some (BalanceJson b) \<Rightarrow> Some b | _ \<Rightarrow> None)"
  using cache_read_up[of st K "getBalanceKey n"]
  by (cases "cache_read K (getBalanceKey n) st") (simp add: getBalance_def)

lemma get_snd: "snd (getDetails K n st) = snd (cache_read K (getDetailsKey n) st)"
  "snd (getBalance K n st) = snd (cache_read K (getBalanceKey n) st)"
  by (simp_all add: getDetails_def getBalance_def split: prod.split)

interpretation mem_details: read_cache "getDetails mem_kv" "setDetails mem_kv" "invalidateAccounts mem_kv" cache_up
proof
  fix c :: "db1_value mem account_cache" and n m :: string and v and ns :: "string list"
  assume up: "cache_up c"
  note kept = cache_up_kept[OF up]
  show "fst (getDetails mem_kv n (setDetails mem_kv n v c)) = Some v"
    unfolding setDetails_def getDetails_up[OF kept(2)] cache_write_up[OF up]
    by (simp add: mem.get_set ACCOUNT_DETAILS_TTL_def)
  show "n \<in> set ns \<Longrightarrow> fst (getDetails mem_kv n (invalidateAccounts mem_kv ns c)) = None"
    unfolding getDetails_up[OF kept(1)] using get_invalidated[OF mem.redis_kv_axioms up] by simp
  show "cache_up (setDetails mem_kv n v c)" unfolding setDetails_def by (rule kept(2))
  show "cache_up (invalidateAccounts mem_kv ns c)" by (rule kept(1))
  show "cache_up (snd (getDetails mem_kv n c))" unfolding get_snd by (rule kept(3))
  show "fst (getDetails mem_kv n (snd (getDetails mem_kv m c))) = fst (getDetails mem_kv n c)"
    unfolding get_snd getDetails_up[OF kept(3)] getDetails_up[OF up] using cache_read_up[OF up] by metis
qed

interpretation mem_balance: read_cache "getBalance mem_kv" "setBalance mem_kv" "invalidateAccounts mem_kv" cache_up
proof
  fix c :: "db1_value mem account_cache" and n m :: string and v and ns :: "string list"
  assume up: "cache_up c"
  note kept = cache_up_kept[OF up]
  show "fst (getBalance mem_kv n (setBalance mem_kv n v c)) = Some v"
    unfolding setBalance_def getBalance_up[OF kept(2)] cache_write_up[OF up]
    by (simp add: mem.get_set ACCOUNT_BALANCE_TTL_def)
  show "n \<in> set ns \<Longrightarrow> fst (getBalance mem_kv n (invalidateAccounts mem_kv ns c)) = None"
    unfolding getBalance_up[OF kept(1)] using get_invalidated[OF mem.redis_kv_axioms up] by simp
  show "cache_up (setBalance mem_kv n v c)" unfolding setBalance_def by (rule kept(2))
  show "cache_up (invalidateAccounts mem_kv ns c)" by (rule kept(1))
  show "cache_up (snd (getBalance mem_kv n c))" unfolding get_snd by (rule kept(3))
  show "fst (getBalance mem_kv n (snd (getBalance mem_kv m c))) = fst (getBalance mem_kv n c)"
    unfolding get_snd getBalance_up[OF kept(3)] getBalance_up[OF up] using cache_read_up[OF up] by metis
qed

end
