(* ===== verification/Accounts.thy ===== *)
theory Accounts
  imports AccountCache Ledger
begin

text \<open>
  The account service: \<open>accountService.js\<close>, \<open>accountRepository.js\<close>, the account number generator
  and \<open>accountController.js\<close>; the customer look-ups of \<open>customerRepository.js\<close> and
  \<open>customerController.js\<close>.
\<close>

subsection \<open>Creating accounts\<close>

text \<open>\<open>generateAccountNumber\<close>: the eight results of \<open>randomInt(0, 10)\<close> are an input.\<close>

definition generateAccountNumber :: "nat list \<Rightarrow> string" where
  "generateAccountNumber ds = ''1000'' @ map (\<lambda>d. char_of (48 + d)) ds"

record create_account_data =
  ca_type :: "account_type option"
  ca_currency :: "string option"
  ca_initialDeposit :: "rat option"

text \<open>\<open>account.create\<close>: the account number is unique, the balance must fit its column.\<close>

definition repo_createAccount ::
  "db_env \<Rightarrow> string \<Rightarrow> string \<Rightarrow> account_type \<Rightarrow> string \<Rightarrow> rat \<Rightarrow> db \<Rightarrow> (app_error + account) \<times> db" where
  "repo_createAccount env accountNumber userId type currency balance db =
     store_dec env balance db (\<lambda>bal.
       let a = \<lparr>a_id = new_id env (db_seq db), a_accountNumber = accountNumber, a_userId = userId,
                a_type = type, a_status = ACTIVE, a_balance = bal,
                a_currency = (if currency = '''' then ''USD'' else currency), a_version = 0,
                a_deletedAt = None, a_createdAt = db_now db\<rparr>
       in if \<exists>b \<in> set (db_accounts db). a_accountNumber b = accountNumber
          then (Inl unique_violation, db)
          else (Inr a, db\<lparr>db_accounts := db_accounts db @ [a], db_seq := db_seq db + 1\<rparr>))"

definition maxAttempts :: nat where "maxAttempts = 5"

text \<open>The collision loop; \<open>rand i\<close> are the digits drawn in attempt \<open>i\<close>.\<close>

function create_loop ::
  "db_env \<Rightarrow> (nat \<Rightarrow> nat list) \<Rightarrow> string \<Rightarrow> account_type \<Rightarrow> string \<Rightarrow> rat \<Rightarrow> nat \<Rightarrow> db
     \<Rightarrow> (app_error + account option) \<times> db" where
  "create_loop env rand userId type currency deposit attempts db =
     (if \<not> attempts < maxAttempts then (Inr None, db)
      else
        let attempts' = attempts + 1;
            accountNumber = generateAccountNumber (rand attempts')
        in case repo_createAccount env accountNumber userId type currency deposit db of
             (Inr a, db') \<Rightarrow> (Inr (Some a), db')
           | (Inl e, db') \<Rightarrow>
               (if e = unique_violation \<and> attempts' < maxAttempts
                then create_loop env rand userId type currency deposit attempts' db'
                else (Inl e, db')))"
  by pat_completeness auto
termination
  by (relation "measure (\<lambda>(_, _, _, _, _, _, attempts, _). maxAttempts - attempts)") auto

declare create_loop.simps [simp del]

definition createAccount ::
  "db_env \<Rightarrow> (nat \<Rightarrow> nat list) \<Rightarrow> string \<Rightarrow> create_account_data \<Rightarrow> db
     \<Rightarrow> (app_error + account option) \<times> db" where
  "createAccount env rand userId d db =
     (case user_by_id userId db of
        None \<Rightarrow> (Inl (NotFoundError (Msg (''Customer with ID '' @ userId @ '' not found''))), db)
      | Some _ \<Rightarrow>
          create_loop env rand userId
            (case ca_type d of None \<Rightarrow> CHECKING | Some t \<Rightarrow> t)
            (case ca_currency d of None \<Rightarrow> ''USD'' | Some c \<Rightarrow> c)
            (case ca_initialDeposit d of None \<Rightarrow> 0 | Some x \<Rightarrow> x) 0 db)"

text \<open>The controller decides for whom the account is opened.\<close>

definition createAccount_handler ::
  "db_env \<Rightarrow> (nat \<Rightarrow> nat list) \<Rightarrow> string \<Rightarrow> role option \<Rightarrow> string option \<Rightarrow> create_account_data \<Rightarrow> db
     \<Rightarrow> (app_error + account option response) \<times> db" where
  "createAccount_handler env rand requestingUserId role customerId d db =
     (if role = Some TELLER \<or> role = Some ADMIN then
        (if \<not> truthy customerId
         then (Inl (BadRequestError (Msg ''customerId is required when creating an account as Teller or Admin'')), db)
         else (let (r, db') = createAccount env rand (the customerId) d db
               in (rbind r (\<lambda>a. Inr (api_created ''Bank account created successfully'' a)), db')))
      else (let (r, db') = createAccount env rand requestingUserId d db
            in (rbind r (\<lambda>a. Inr (api_created ''Bank account created successfully'' a)), db')))"

subsection \<open>Reading accounts\<close>

definition owner_of :: "string \<Rightarrow> db \<Rightarrow> owner option" where
  "owner_of i db = map_option (\<lambda>u. \<lparr>ow_id = u_id u, ow_email = u_email u,
     ow_firstName = u_firstName u, ow_lastName = u_lastName u\<rparr>) (List.find (\<lambda>u. u_id u = i) (db_users db))"

definition findByAccountNumber :: "string \<Rightarrow> db \<Rightarrow> account_view option" where
  "findByAccountNumber n db =
     map_option (\<lambda>a. \<lparr>av_account = a, av_user = owner_of (a_userId a) db\<rparr>) (account_by_number n db)"

definition not_owner :: app_error where
  "not_owner = ForbiddenError (Msg ''Access denied: You do not own this bank account'')"

definition getAccountDetails ::
  "('s, db1_value) kv \<Rightarrow> string \<Rightarrow> string \<Rightarrow> role option \<Rightarrow> db \<Rightarrow> 's account_cache
     \<Rightarrow> (app_error + account_view) \<times> 's account_cache" where
  "getAccountDetails K n userId role db c =
     (let (cached, c) = getDetails K n c
      in case cached of
           Some v \<Rightarrow>
             (if role \<noteq> Some ADMIN \<and> role \<noteq> Some TELLER \<and> a_userId (av_account v) \<noteq> userId
              then (Inl not_owner, c) else (Inr v, c))
         | None \<Rightarrow>
             (case findByAccountNumber n db of
                None \<Rightarrow> (Inl (NotFoundError (Msg (''Account number '' @ n @ '' not found''))), c)
              | Some v \<Rightarrow>
                  if role = Some ADMIN \<or> role = Some TELLER then (Inr v, setDetails K n v c)
                  else if a_userId (av_account v) \<noteq> userId then (Inl not_owner, c)
                  else (Inr v, setDetails K n v c)))"

record balance_answer =
  ba_accountNumber :: string
  ba_balance :: int
  ba_currency :: string
  ba_status :: account_status

definition answer_of :: "balance_view \<Rightarrow> balance_answer" where
  "answer_of b = \<lparr>ba_accountNumber = bv_accountNumber b, ba_balance = bv_balance b,
     ba_currency = bv_currency b, ba_status = bv_status b\<rparr>"

definition balance_payload :: "account_view \<Rightarrow> balance_view" where
  "balance_payload v = \<lparr>bv_accountNumber = a_accountNumber (av_account v),
     bv_userId = a_userId (av_account v), bv_balance = a_balance (av_account v),
     bv_currency = a_currency (av_account v), bv_status = a_status (av_account v)\<rparr>"

definition getAccountBalance ::
  "('s, db1_value) kv \<Rightarrow> string \<Rightarrow> string \<Rightarrow> role option \<Rightarrow> db \<Rightarrow> 's account_cache
     \<Rightarrow> (app_error + balance_answer) \<times> 's account_cache" where
  "getAccountBalance K n userId role db c =
     (let (cached, c) = getBalance K n c
      in case cached of
           Some b \<Rightarrow>
             (if role \<noteq> Some ADMIN \<and> role \<noteq> Some TELLER \<and> bv_userId b \<noteq> userId
              then (Inl not_owner, c) else (Inr (answer_of b), c))
         | None \<Rightarrow>
             (case getAccountDetails K n userId role db c of
                (Inl e, c) \<Rightarrow> (Inl e, c)
              | (Inr v, c) \<Rightarrow> (Inr (answer_of (balance_payload v)), setBalance K n (balance_payload v) c)))"

subsection \<open>Lists of accounts\<close>

definition newest_accounts :: "account list \<Rightarrow> account list" where
  "newest_accounts = newest_by a_createdAt"

definition account_matches :: "string \<Rightarrow> db \<Rightarrow> account \<Rightarrow> bool" where
  "account_matches search db a \<longleftrightarrow> a_deletedAt a = None \<and>
     (search = '''' \<or> contains (to_lower search) (to_lower (a_accountNumber a)) \<or>
      (case owner_of (a_userId a) db of None \<Rightarrow> False
       | Some u \<Rightarrow> contains (to_lower search) (to_lower (ow_firstName u)) \<or>
           contains (to_lower search) (to_lower (ow_lastName u)) \<or>
           contains (to_lower search) (to_lower (ow_email u))))"

record account_page =
  pg_accounts :: "account list"
  pg_stats :: "(nat \<times> int) option" \<comment> \<open>number of accounts and sum of balances, for staff\<close>
  pg_page :: nat
  pg_limit :: nat
  pg_totalCount :: nat
  pg_totalPages :: nat

definition page_slice :: "nat \<Rightarrow> nat \<Rightarrow> 'r list \<Rightarrow> 'r list" where
  "page_slice skip limit rows = take limit (drop skip rows)"

text \<open>\<open>Math.ceil(total / limit) || 1\<close>; \<open>page\<close> and \<open>limit\<close> are at least 1 by the validators.\<close>

definition total_pages :: "nat \<Rightarrow> nat \<Rightarrow> nat" where
  "total_pages n limit = (let p = (n + limit - 1) div limit in if p = 0 then 1 else p)"

definition getUserAccounts :: "string \<Rightarrow> role option \<Rightarrow> nat \<Rightarrow> nat \<Rightarrow> string \<Rightarrow> db \<Rightarrow> account_page" where
  "getUserAccounts userId role page limit search db =
     (let skip = (page - 1) * limit
      in if role = Some TELLER \<or> role = Some ADMIN then
           (let rows = newest_accounts (filter (account_matches search db) (db_accounts db));
                live = filter (\<lambda>a. a_deletedAt a = None) (db_accounts db)
            in \<lparr>pg_accounts = page_slice skip limit rows,
                pg_stats = Some (length live, \<Sum>a\<leftarrow>live. a_balance a),
                pg_page = page, pg_limit = limit, pg_totalCount = length rows,
                pg_totalPages = total_pages (length rows) limit\<rparr>)
         else
           (let rows = newest_accounts (filter (\<lambda>a. a_userId a = userId \<and> a_deletedAt a = None) (db_accounts db))
            in \<lparr>pg_accounts = page_slice skip limit rows, pg_stats = None,
                pg_page = page, pg_limit = limit, pg_totalCount = length rows,
                pg_totalPages = total_pages (length rows) limit\<rparr>))"

subsection \<open>Customer search\<close>

text \<open>
  The words of the name are split at white space. The search by free text (\<open>query\<close>) is listed
  as the source has it; the controller passes the query as the name too.
\<close>

record customer_query =
  cq_customerId :: "string option"
  cq_email :: "string option"
  cq_name :: "string option"
  cq_query :: "string option"

fun words_of :: "string \<Rightarrow> string \<Rightarrow> string list" where
  "words_of acc [] = (if acc = [] then [] else [rev acc])"
| "words_of acc (c # s) =
     (if is_space c then (if acc = [] then words_of [] s else rev acc # words_of [] s)
      else words_of (c # acc) s)"

definition ci_contains :: "string \<Rightarrow> string \<Rightarrow> bool" where
  "ci_contains p s \<longleftrightarrow> contains (to_lower p) (to_lower s)"

definition customer_where :: "(string \<Rightarrow> bool) \<Rightarrow> customer_query \<Rightarrow> user \<Rightarrow> bool" where
  "customer_where is_uuid q u \<longleftrightarrow> u_deletedAt u = None \<and>
     (if truthy (cq_customerId q) then u_id u = the (cq_customerId q)
      else if truthy (cq_email q) then ci_contains (the (cq_email q)) (u_email u)
      else if truthy (cq_name q) then
        (let name = the (cq_name q); parts = words_of [] name
         in if length parts > 1
            then (ci_contains (parts ! 0) (u_firstName u) \<and> ci_contains (parts ! 1) (u_lastName u)) \<or>
                 ci_contains name (u_firstName u) \<or> ci_contains name (u_lastName u)
            else ci_contains name (u_firstName u) \<or> ci_contains name (u_lastName u) \<or>
                 ci_contains name (u_email u))
      else if truthy (cq_query q) then
        (let p = js_trim (the (cq_query q))
         in if is_uuid p then u_id u = p \<or> ci_contains p (u_email u)
            else ci_contains p (u_email u) \<or> ci_contains p (u_firstName u) \<or> ci_contains p (u_lastName u))
      else True)"

definition searchCustomers :: "(string \<Rightarrow> bool) \<Rightarrow> customer_query \<Rightarrow> db \<Rightarrow> user list" where
  "searchCustomers is_uuid q db =
     take 20 (sort_key (\<lambda>u. - int (u_createdAt u)) (filter (customer_where is_uuid q) (db_users db)))"

definition searchCustomers_handler ::
  "(string \<Rightarrow> bool) \<Rightarrow> role option \<Rightarrow> customer_query \<Rightarrow> db \<Rightarrow> app_error + user list" where
  "searchCustomers_handler is_uuid role q db =
     (if role \<noteq> Some TELLER \<and> role \<noteq> Some ADMIN
      then Inl (ForbiddenError (Msg ''Access denied: Customer search is restricted to Tellers and Administrators''))
      else Inr (searchCustomers is_uuid (q\<lparr>cq_name := js_or (cq_name q) (cq_query q)\<rparr>) db))"

definition getCustomerById_handler ::
  "role option \<Rightarrow> string \<Rightarrow> db \<Rightarrow> app_error + (user \<times> account list)" where
  "getCustomerById_handler role customerId db =
     (if role \<noteq> Some TELLER \<and> role \<noteq> Some ADMIN
      then Inl (ForbiddenError (Msg ''Access denied: Customer details are restricted to Tellers and Administrators''))
      else (case user_by_id customerId db of
              None \<Rightarrow> Inl (NotFoundError (Msg (''Customer with ID '' @ customerId @ '' not found'')))
            | Some u \<Rightarrow> Inr (u, filter (\<lambda>a. a_userId a = u_id u \<and> a_deletedAt a = None) (db_accounts db))))"

subsection \<open>Lemmas\<close>

lemma repo_createAccount_Inr:
  assumes "repo_createAccount env n u ty cur bal db = (Inr a, db')"
  shows "db_accounts db' = db_accounts db @ [a] \<and> (\<forall>b \<in> set (db_accounts db). a_accountNumber b \<noteq> n) \<and>
     a_accountNumber a = n \<and> a_userId a = u \<and> a_status a = ACTIVE \<and> a_version a = 0 \<and> a_deletedAt a = None \<and>
     to_dec env bal = Some (a_balance a) \<and> a_type a = ty \<and> db_entries db' = db_entries db \<and>
     db_transactions db' = db_transactions db \<and> a_id a = new_id env (db_seq db)"
  using assms
  by (auto simp: repo_createAccount_def store_dec_def Let_def split: option.splits if_splits)

lemma repo_createAccount_Inl:
  assumes "repo_createAccount env n u ty cur bal db = (Inl e, db')"
  shows "db' = db \<and> (e = unique_violation \<longleftrightarrow>
     to_dec env bal \<noteq> None \<and> (\<exists>b \<in> set (db_accounts db). a_accountNumber b = n))"
  using assms
  by (auto simp: repo_createAccount_def store_dec_def Let_def unique_violation_def numeric_overflow_def
      split: option.splits if_splits)

definition taken :: "string \<Rightarrow> db \<Rightarrow> bool" where
  "taken n db \<longleftrightarrow> (\<exists>b \<in> set (db_accounts db). a_accountNumber b = n)"

definition candidates :: "(nat \<Rightarrow> nat list) \<Rightarrow> nat \<Rightarrow> string list" where
  "candidates rand attempts = map (\<lambda>i. generateAccountNumber (rand i)) [attempts + 1..<maxAttempts + 1]"

text \<open>The loop creates the account under the first candidate that is free.\<close>

lemma create_loop_spec:
  assumes "attempts < maxAttempts" and "to_dec env dep = Some c"
  shows "create_loop env rand u ty cur dep attempts db =
     (case List.find (\<lambda>n. \<not> taken n db) (candidates rand attempts) of
        None \<Rightarrow> (Inl unique_violation, db)
      | Some n \<Rightarrow> (case repo_createAccount env n u ty cur dep db of
           (Inr a, db') \<Rightarrow> (Inr (Some a), db') | (Inl e, db') \<Rightarrow> (Inl e, db')))"
  using assms
proof (induction "maxAttempts - attempts" arbitrary: attempts)
  case 0
  then show ?case by simp
next
  case (Suc k)
  let ?n = "generateAccountNumber (rand (attempts + 1))"
  have cand: "candidates rand attempts = ?n # candidates rand (attempts + 1)"
    using Suc.prems(1) by (simp add: candidates_def upt_conv_Cons del: upt_Suc)
  show ?case
  proof (cases "taken ?n db")
    case False
    then have "\<exists>a db'. repo_createAccount env ?n u ty cur dep db = (Inr a, db')"
      using Suc.prems(2) by (auto simp: repo_createAccount_def store_dec_def taken_def Let_def)
    with False Suc.prems(1) show ?thesis
      by (subst create_loop.simps) (auto simp: cand Let_def)
  next
    case True
    then have r: "repo_createAccount env ?n u ty cur dep db = (Inl unique_violation, db)"
      using Suc.prems(2) by (auto simp: repo_createAccount_def store_dec_def taken_def Let_def)
    show ?thesis
    proof (cases "attempts + 1 < maxAttempts")
      case more: True
      have "k = maxAttempts - (attempts + 1)" using Suc.hyps(2) by simp
      from Suc.hyps(1)[OF this more Suc.prems(2)] True r more Suc.prems(1) show ?thesis
        by (subst create_loop.simps) (simp add: cand Let_def)
    next
      case False
      then have "candidates rand (attempts + 1) = []" by (simp add: candidates_def)
      with False True r Suc.prems(1) show ?thesis
        by (subst create_loop.simps) (simp add: cand Let_def)
    qed
  qed
qed

lemma getAccountDetails_owner:
  assumes "getAccountDetails K n u role db c = (Inr v, c')" and "\<not> is_staff role"
  shows "a_userId (av_account v) = u"
  using assms
  by (auto simp: getAccountDetails_def is_staff_def Let_def split: prod.splits option.splits if_splits)

subsection \<open>Properties\<close>

text \<open>C37: Opening an account: if one of the five account numbers drawn is free, the account is
  created under the first free one, ACTIVE, version 0, owned by the given user, with the initial
  deposit as balance; all other rows stay, keys remain unique. If all five are taken the
  collision error is returned and nothing is written.\<close>

theorem createAccount_outcome:
  assumes "user_by_id userId db \<noteq> None"
    and "to_dec env (case ca_initialDeposit d of None \<Rightarrow> 0 | Some x \<Rightarrow> x) = Some c"
    and "wf_db db" and "\<forall>a \<in> set (db_accounts db). a_id a \<noteq> new_id env (db_seq db)"
  shows "case List.find (\<lambda>n. \<not> taken n db) (map (\<lambda>i. generateAccountNumber (rand i)) [1, 2, 3, 4, 5]) of
       None \<Rightarrow> createAccount env rand userId d db = (Inl unique_violation, db)
     | Some n \<Rightarrow> \<exists>a db'. createAccount env rand userId d db = (Inr (Some a), db') \<and>
         a_accountNumber a = n \<and> a_userId a = userId \<and> a_status a = ACTIVE \<and> a_version a = 0 \<and>
         a_balance a = c \<and> db_accounts db' = db_accounts db @ [a] \<and> db_entries db' = db_entries db \<and> wf_db db'"
proof -
  obtain us where us: "user_by_id userId db = Some us" using assms(1) by auto
  have five: "candidates rand 0 = map (\<lambda>i. generateAccountNumber (rand i)) [1, 2, 3, 4, 5]"
    by (simp add: candidates_def maxAttempts_def upt_rec eval_nat_numeral)
  note spec = create_loop_spec[OF _ assms(2), of 0 rand userId "case ca_type d of None \<Rightarrow> CHECKING | Some t \<Rightarrow> t"
      "case ca_currency d of None \<Rightarrow> ''USD'' | Some c \<Rightarrow> c" db, unfolded five]
  show ?thesis
  proof (cases "List.find (\<lambda>n. \<not> taken n db) (map (\<lambda>i. generateAccountNumber (rand i)) [1, 2, 3, 4, 5])")
    case None
    with spec show ?thesis by (simp add: createAccount_def us maxAttempts_def)
  next
    case (Some n)
    then have free: "\<not> taken n db" by (blast dest: find_SomeD)
    then obtain a db' where r: "repo_createAccount env n userId
        (case ca_type d of None \<Rightarrow> CHECKING | Some t \<Rightarrow> t) (case ca_currency d of None \<Rightarrow> ''USD'' | Some c \<Rightarrow> c)
        (case ca_initialDeposit d of None \<Rightarrow> 0 | Some x \<Rightarrow> x) db = (Inr a, db')"
      using assms(2) by (auto simp: repo_createAccount_def store_dec_def taken_def Let_def)
    note f = repo_createAccount_Inr[OF r]
    then have "wf_db db'" using assms(3,4) by (auto simp: wf_db_def image_iff)
    moreover have "createAccount env rand userId d db = (Inr (Some a), db')"
      using spec Some r by (simp add: createAccount_def us maxAttempts_def)
    ultimately show ?thesis unfolding Some option.case using f assms(2) by auto
  qed
qed

definition sample_user :: "string \<Rightarrow> user" where
  "sample_user i = \<lparr>u_id = i, u_email = i @ ''@bank.test'', u_passwordHash = ''h'', u_firstName = i,
     u_lastName = ''Doe'', u_role = CUSTOMER, u_isActive = True, u_deletedAt = None, u_createdAt = 0\<rparr>"

definition bank_db :: db where
  "bank_db = sample_db\<lparr>db_users := [sample_user ''alice'', sample_user ''bob'']\<rparr>"

definition sample_rand :: "nat \<Rightarrow> nat list" where
  "sample_rand i = (if i = 1 then [0, 0, 0, 0, 0, 0, 0, 1] else [8, 4, 7, 2, 9, 1, 0, 3])"

theorem createAccount_outcome_witness:
  "\<exists>a db'. createAccount sample_env sample_rand ''alice''
       \<lparr>ca_type = None, ca_currency = None, ca_initialDeposit = Some 5\<rparr> bank_db = (Inr (Some a), db') \<and>
     a_accountNumber a = ''100084729103'' \<and> a_balance a = 500 \<and> db_entries db' = []"
proof -
  let ?d = "\<lparr>ca_type = None, ca_currency = None, ca_initialDeposit = Some 5\<rparr>"
  have u: "user_by_id ''alice'' bank_db \<noteq> None" by (simp add: user_by_id_def bank_db_def sample_user_def)
  have "to_dec sample_env 5 = Some 500" by code_simp
  then have d: "to_dec sample_env (case ca_initialDeposit ?d of None \<Rightarrow> 0 | Some x \<Rightarrow> x) = Some 500" by simp
  have w: "wf_db bank_db" "\<forall>a \<in> set (db_accounts bank_db). a_id a \<noteq> new_id sample_env (db_seq bank_db)"
    by (simp_all add: bank_db_def sample_defs wf_db_def)
  have f: "List.find (\<lambda>n. \<not> taken n bank_db) (map (\<lambda>i. generateAccountNumber (sample_rand i)) [1, 2, 3, 4, 5])
      = Some ''100084729103''"
    by code_simp
  have "db_entries bank_db = []" by (simp add: bank_db_def sample_defs)
  with createAccount_outcome[OF u d w, of sample_rand, unfolded f option.case] show ?thesis by auto
qed


definition empty_cache :: "db1_value mem account_cache" where
  "empty_cache = \<lparr>ac_redis = \<lparr>store = mem_empty, faults = []\<rparr>,
     ac_metrics = \<lparr>c_hits = 0, c_misses = 0, c_invalidations = 0, c_sets = 0\<rparr>\<rparr>"


text \<open>C39: Cache coherence. After a successful invalidation of an account, the balance and the details
  that the account service answers are those of the database, for every authorised caller.\<close>

theorem invalidate_then_read:
  assumes "redis_kv K" and "cache_up c" and "n \<in> set ns" and "account_by_number n db = Some a"
    and "is_staff role \<or> a_userId a = userId"
  shows "\<exists>b v c1 c2. getAccountBalance K n userId role db (invalidateAccounts K ns c) = (Inr b, c1) \<and>
       ba_balance b = a_balance a \<and> ba_status b = a_status a \<and>
     getAccountDetails K n userId role db (invalidateAccounts K ns c) = (Inr v, c2) \<and> av_account v = a"
proof -
  let ?c = "invalidateAccounts K ns c"
  have up: "cache_up ?c" by (rule cache_up_kept[OF assms(2)])
  have gone: "kv_get K (getBalanceKey n) (store (ac_redis ?c)) = None"
    "kv_get K (getDetailsKey n) (store (ac_redis ?c)) = None"
    using get_invalidated[OF assms(1-3)] by simp_all
  have v: "findByAccountNumber n db = Some \<lparr>av_account = a, av_user = owner_of (a_userId a) db\<rparr>"
    by (simp add: findByAccountNumber_def assms(4))
  have details: "\<exists>c2. getAccountDetails K n userId role db c' =
      (Inr \<lparr>av_account = a, av_user = owner_of (a_userId a) db\<rparr>, c2)"
    if "cache_up c'" "kv_get K (getDetailsKey n) (store (ac_redis c')) = None" for c'
  proof -
    obtain r c1 where g: "getDetails K n c' = (r, c1)" by force
    then have "r = None" using getDetails_up[OF that(1), of K n] that(2) by simp
    with g v assms(5) show ?thesis by (auto simp: getAccountDetails_def is_staff_def)
  qed
  obtain r c1 where g: "getBalance K n ?c = (r, c1)" by force
  have "r = None" using getBalance_up[OF up, of K n] gone g by simp
  have c1: "c1 = snd (cache_read K (getBalanceKey n) ?c)" using g get_snd(2)[of K n ?c] by simp
  then have "cache_up c1" "kv_get K (getDetailsKey n) (store (ac_redis c1)) = None"
    using cache_up_kept(3)[OF up] cache_read_up[OF up] gone(2) by simp_all
  from details[OF this] obtain c2 where
    "getAccountDetails K n userId role db c1 = (Inr \<lparr>av_account = a, av_user = owner_of (a_userId a) db\<rparr>, c2)"
    by blast
  with g \<open>r = None\<close> details[OF up gone(2)] show ?thesis
    by (auto simp: getAccountBalance_def answer_of_def balance_payload_def)
qed

theorem invalidate_then_read_witness:
  "\<exists>b v c1 c2. getAccountBalance mem_kv ''100000000001'' ''t1'' (Some TELLER) bank_db
       (invalidateAccounts mem_kv [''100000000001''] empty_cache) = (Inr b, c1) \<and> ba_balance b = 10000 \<and>
     getAccountDetails mem_kv ''100000000001'' ''t1'' (Some TELLER) bank_db
       (invalidateAccounts mem_kv [''100000000001''] empty_cache) = (Inr v, c2)"
proof -
  let ?n = "''100000000001''" and ?a = "sample_account ''A'' ''100000000001'' ''alice'' 10000"
  have up: "cache_up empty_cache" by (simp add: cache_up_def healthy_def empty_cache_def)
  have mem: "?n \<in> set [?n]" by simp
  have acc: "account_by_number ?n bank_db = Some ?a"
    by (simp add: account_by_number_def bank_db_def sample_defs)
  have staff: "is_staff (Some TELLER) \<or> a_userId ?a = ''t1''" by (simp add: is_staff_def)
  have bal: "a_balance ?a = 10000" by (simp add: sample_account_def)
  from invalidate_then_read[OF mem.redis_kv_axioms up mem acc staff, unfolded bal] show ?thesis
    by (elim exE conjE) (intro exI conjI; assumption)
qed

definition wait_ms :: "('s, db1_value) kv \<Rightarrow> nat \<Rightarrow> 's account_cache \<Rightarrow> 's account_cache" where
  "wait_ms K d c = c\<lparr>ac_redis := (ac_redis c)\<lparr>store := kv_wait K d (store (ac_redis c))\<rparr>\<rparr>"

lemma getBalance_parts:
  assumes "cache_up c"
  shows "getBalance K n c = ((case kv_get K (getBalanceKey n) (store (ac_redis c)) of
      Some (BalanceJson b) \<Rightarrow> Some b | _ \<Rightarrow> None), snd (getBalance K n c))"
    and "ac_redis (snd (getBalance K n c)) = ac_redis c"
  using getBalance_up[OF assms, of K n] cache_read_up[OF assms]
  by (simp_all add: prod_eq_iff get_snd)

lemma getDetails_parts:
  assumes "cache_up c"
  shows "getDetails K n c = ((case kv_get K (getDetailsKey n) (store (ac_redis c)) of
      Some (DetailsJson a) \<Rightarrow> Some a | _ \<Rightarrow> None), snd (getDetails K n c))"
    and "ac_redis (snd (getDetails K n c)) = ac_redis c"
  using getDetails_up[OF assms, of K n] cache_read_up[OF assms]
  by (simp_all add: prod_eq_iff get_snd)

text \<open>Bound on staleness. A balance read is answered from a 30 second entry that is filled from
  the 5 minute details entry, so a balance that has changed without a successful invalidation is
  still answered for up to 330 seconds, not 30: details read now, balance read less than 300
  seconds later, balance read again less than 30 seconds after that, all see the old balance
  although the database changed right after the first read.\<close>

lemma stale_balance:
  assumes "redis_kv K" and "cache_up c" and "account_by_number n db = Some a"
    and "is_staff role \<or> a_userId a = userId" and "d1 < 300000" and "d2 < 30000"
    and "kv_get K (getBalanceKey n) (store (ac_redis c)) = None"
    and "kv_get K (getDetailsKey n) (store (ac_redis c)) = None"
  shows "\<exists>b b' c3. (let c1 = snd (getAccountDetails K n userId role db c);
         r2 = getAccountBalance K n userId role db' (wait_ms K d1 c1);
         r3 = getAccountBalance K n userId role db' (wait_ms K d2 (snd r2))
     in fst r2 = Inr b \<and> r3 = (Inr b', c3) \<and> ba_balance b = a_balance a \<and> ba_balance b' = a_balance a)"
proof -
  note laws = redis_kv.get_set[OF assms(1)] redis_kv.get_set_other[OF assms(1)]
    redis_kv.ttl_set[OF assms(1)] redis_kv.wait_get[OF assms(1)]
  define v where "v = \<lparr>av_account = a, av_user = owner_of (a_userId a) db\<rparr>"
  have fv: "findByAccountNumber n db = Some v" by (simp add: findByAccountNumber_def assms(3) v_def)
  define c0 where "c0 = snd (getDetails K n c)"
  have c0: "getDetails K n c = (None, c0)" "ac_redis c0 = ac_redis c"
    using getDetails_parts[OF assms(2), of K n] assms(8) by (simp_all add: c0_def)
  then have up0: "cache_up c0" using assms(2) by (simp add: cache_up_def)
  have c1: "snd (getAccountDetails K n userId role db c) = setDetails K n v c0"
    using assms(4) by (auto simp: getAccountDetails_def c0 fv is_staff_def v_def)
  define s1 where "s1 = kv_set K (getDetailsKey n) (DetailsJson v) 300000 (store (ac_redis c))"
  have red1: "ac_redis (setDetails K n v c0) = (ac_redis c)\<lparr>store := s1\<rparr>"
    unfolding setDetails_def cache_write_up[OF up0] by (simp add: c0 s1_def ACCOUNT_DETAILS_TTL_def)
  define w1 where "w1 = wait_ms K d1 (setDetails K n v c0)"
  have up1: "cache_up w1" using assms(2) by (simp add: w1_def wait_ms_def red1 cache_up_def healthy_def)
  have st1: "store (ac_redis w1) = kv_wait K d1 s1" by (simp add: w1_def wait_ms_def red1)
  have k1: "kv_get K (getBalanceKey n) (kv_wait K d1 s1) = None"
    using assms(7) by (auto simp: laws s1_def split: option.split)
  have k2: "kv_get K (getDetailsKey n) (kv_wait K d1 s1) = Some (DetailsJson v)"
    using assms(5) by (simp add: laws s1_def)
  define w2 where "w2 = snd (getBalance K n w1)"
  have g2: "getBalance K n w1 = (None, w2)" "ac_redis w2 = ac_redis w1"
    using getBalance_parts[OF up1, of K n] k1 st1 by (simp_all add: w2_def)
  then have up2: "cache_up w2" using up1 by (simp add: cache_up_def)
  define w3 where "w3 = snd (getDetails K n w2)"
  have g3: "getDetails K n w2 = (Some v, w3)" "ac_redis w3 = ac_redis w1"
    using getDetails_parts[OF up2, of K n] k2 st1 g2 by (simp_all add: w3_def)
  then have up3: "cache_up w3" using up1 by (simp add: cache_up_def)
  have r2: "getAccountBalance K n userId role db' w1 =
      (Inr (answer_of (balance_payload v)), setBalance K n (balance_payload v) w3)"
    using assms(4) by (auto simp: getAccountBalance_def getAccountDetails_def g2 g3 is_staff_def v_def)
  define s2 where "s2 = kv_set K (getBalanceKey n) (BalanceJson (balance_payload v)) 30000 (kv_wait K d1 s1)"
  have red2: "ac_redis (setBalance K n (balance_payload v) w3) = (ac_redis w1)\<lparr>store := s2\<rparr>"
    unfolding setBalance_def cache_write_up[OF up3] by (simp add: g3 s2_def st1 ACCOUNT_BALANCE_TTL_def)
  define w4 where "w4 = wait_ms K d2 (setBalance K n (balance_payload v) w3)"
  have up4: "cache_up w4" using up1 by (simp add: w4_def wait_ms_def red2 cache_up_def healthy_def)
  have "kv_get K (getBalanceKey n) (store (ac_redis w4)) = Some (BalanceJson (balance_payload v))"
    using assms(6) by (simp add: w4_def wait_ms_def red2 laws s2_def)
  then have g4: "fst (getBalance K n w4) = Some (balance_payload v)"
    using getBalance_up[OF up4, of K n] by simp
  have r3: "fst (getAccountBalance K n userId role db' w4) = Inr (answer_of (balance_payload v))"
    using assms(4) g4
    by (cases "getBalance K n w4") (auto simp: getAccountBalance_def balance_payload_def is_staff_def v_def)
  have "ba_balance (answer_of (balance_payload v)) = a_balance a"
    by (simp add: answer_of_def balance_payload_def v_def)
  then show ?thesis
    unfolding c1 Let_def w1_def[symmetric] r2 fst_conv snd_conv w4_def[symmetric]
    using r3 by (metis prod.collapse)
qed

lemma stale_balance_example:
  "\<exists>b b' c3. (let c1 = snd (getAccountDetails mem_kv ''100000000001'' ''alice'' (Some CUSTOMER) bank_db empty_cache);
       r2 = getAccountBalance mem_kv ''100000000001'' ''alice'' (Some CUSTOMER) (bank_db\<lparr>db_accounts := []\<rparr>) (wait_ms mem_kv 299999 c1);
       r3 = getAccountBalance mem_kv ''100000000001'' ''alice'' (Some CUSTOMER) (bank_db\<lparr>db_accounts := []\<rparr>) (wait_ms mem_kv 29999 (snd r2))
     in fst r2 = Inr b \<and> r3 = (Inr b', c3) \<and> ba_balance b = 10000 \<and> ba_balance b' = 10000)"
proof -
  let ?n = "''100000000001''" and ?a = "sample_account ''A'' ''100000000001'' ''alice'' 10000"
  have up: "cache_up empty_cache" by (simp add: cache_up_def healthy_def empty_cache_def)
  have acc: "account_by_number ?n bank_db = Some ?a"
    by (simp add: account_by_number_def bank_db_def sample_defs)
  have own: "is_staff (Some CUSTOMER) \<or> a_userId ?a = ''alice''" by (simp add: sample_account_def)
  have bal: "a_balance ?a = 10000" by (simp add: sample_account_def)
  have none: "kv_get mem_kv k (store (ac_redis empty_cache)) = None" for k
    by (simp add: empty_cache_def mem_empty_def mem_kv_def mem_live_def)
  show ?thesis
    using stale_balance[OF mem.redis_kv_axioms up acc own _ _ none none,
        of 299999 29999 "bank_db\<lparr>db_accounts := []\<rparr>", unfolded bal] by simp
qed

end
