(* ===== verification/Payment.thy ===== *)
theory Payment
  imports LedgerClient LockService Accounts
begin

text \<open>
  The payment service: \<open>paymentService.js\<close>, the writing half of \<open>paymentRepository.js\<close> and
  \<open>paymentController.js\<close>. A payment is orchestrated over five pieces of state, the fields of
  \<open>world\<close>: the shared database, the lock service on Redis database 2, the account cache on Redis
  database 1, the ledger circuit breaker, and the live event stream. What comes from outside in
  one request (faults of network and database, times, the random reference) is the environment.
\<close>

record payment_response =
  pr_transaction :: "transaction option"
  pr_account :: "account option"
  pr_referenceId :: "string option"
  pr_status :: tx_status
  pr_amount :: rat
  pr_currency :: string
  pr_accounts :: "string list" \<comment> \<open>source and target, or the single account\<close>
  pr_description :: "string option"
  pr_isIdempotent :: bool

record live_event =
  ev_id :: string
  ev_routingKey :: string
  ev_payload :: payload
  ev_accounts :: "string list"

record ('s, 't) world =
  w_db :: db
  w_locks :: "'s lock_service"
  w_cache :: "'t account_cache"
  w_breaker :: breaker
  w_live :: "live_event list"

record user_context =
  uc_userId :: string
  uc_role :: "role option"
  uc_email :: "string option"

record meta_context =
  mc_ip :: "string option"
  mc_userAgent :: "string option"

record pay_env =
  pe_db :: db_env
  pe_lock :: lock_env
  pe_V :: validator_lib
  pe_production :: bool
  pe_ledgerKey :: string \<comment> \<open>the key the ledger expects\<close>
  pe_internalApiKey :: string \<comment> \<open>the key this service sends\<close>
  pe_net :: "net_fault list"
  pe_start :: nat
  pe_end :: nat
  pe_reference :: string \<comment> \<open>\<open>generateReferenceId()\<close>\<close>
  pe_finalize :: "app_error option" \<comment> \<open>a database failure while finalizing\<close>
  pe_mark :: "app_error option" \<comment> \<open>a database failure while marking as failed\<close>
  pe_outbox :: "app_error option" \<comment> \<open>a database failure while recording the outbox event\<close>

subsection \<open>Rows written by payments\<close>

definition create_outbox :: "db_env \<Rightarrow> (string \<Rightarrow> nat \<Rightarrow> outbox_event) \<Rightarrow> db \<Rightarrow> outbox_event \<times> db" where
  "create_outbox env mk db =
     (let o' = mk (new_id env (db_seq db)) (db_now db)
      in (o', db\<lparr>db_outbox := db_outbox db @ [o'], db_seq := db_seq db + 1\<rparr>))"

definition create_audit :: "db_env \<Rightarrow> (string \<Rightarrow> nat \<Rightarrow> audit_log) \<Rightarrow> db \<Rightarrow> audit_log \<times> db" where
  "create_audit env mk db =
     (let a = mk (new_id env (db_seq db)) (db_now db)
      in (a, db\<lparr>db_audits := db_audits db @ [a], db_seq := db_seq db + 1\<rparr>))"

definition pending_event :: "string \<Rightarrow> string option \<Rightarrow> payload \<Rightarrow> string \<Rightarrow> nat \<Rightarrow> outbox_event" where
  "pending_event aggregateId transactionId payload i now =
     \<lparr>o_id = i, o_aggregateType = ''TRANSACTION'', o_aggregateId = aggregateId,
      o_eventType = ''PAYMENT_COMPLETED'', o_payload = payload, o_status = OB_PENDING,
      o_retryCount = 0, o_error = None, o_processedAt = None, o_createdAt = now, o_updatedAt = now,
      o_transactionId = transactionId\<rparr>"

definition createPendingTransaction ::
  "db_env \<Rightarrow> string \<Rightarrow> string \<Rightarrow> string \<Rightarrow> string \<Rightarrow> rat \<Rightarrow> string \<Rightarrow> string option \<Rightarrow> db
     \<Rightarrow> (app_error + transaction) \<times> db" where
  "createPendingTransaction env key ref src tgt amount currency description db =
     store_dec env amount db (\<lambda>c.
       create_tx env (\<lambda>i now. \<lparr>t_id = i, t_idempotencyKey = key, t_referenceId = Some ref,
          t_sourceAccountId = Some src, t_targetAccountId = Some tgt, t_amount = c,
          t_currency = currency, t_type = TRANSFER, t_status = PENDING, t_description = description,
          t_failureReason = None, t_createdAt = now\<rparr>) db)"

text \<open>Status, outbox event and audit log in one database transaction.\<close>

definition finalizeSuccessfulTransaction ::
  "pay_env \<Rightarrow> string \<Rightarrow> string \<Rightarrow> string \<Rightarrow> string \<Rightarrow> rat \<Rightarrow> string \<Rightarrow> string \<Rightarrow> string option
     \<Rightarrow> meta_context \<Rightarrow> db \<Rightarrow> (app_error + transaction \<times> outbox_event \<times> audit_log) \<times> db" where
  "finalizeSuccessfulTransaction env tid ref src tgt amount currency userId email meta =
     in_transaction (\<lambda>db.
       case pe_finalize env of
         Some e \<Rightarrow> (Inl e, db)
       | None \<Rightarrow>
           (case set_tx_status tid COMPLETED None db of
              (Inl e, db) \<Rightarrow> (Inl e, db)
            | (Inr t, db) \<Rightarrow>
                let (o', db) = create_outbox (pe_db env) (pending_event tid (Some tid)
                      (no_payload\<lparr>p_transactionId := Some tid, p_referenceId := Some ref,
                         p_sourceAccountId := Some src, p_targetAccountId := Some tgt,
                         p_amount := Some amount, p_currency := Some currency,
                         p_userId := Some userId, p_email := email, p_recipient := email,
                         p_routingKey := Some ''payment.completed''\<rparr>)) db;
                    (a, db) = create_audit (pe_db env) (\<lambda>i now. \<lparr>au_id = i, au_userId = Some userId,
                      au_action = ''PAYMENT_TRANSFER'', au_entity = ''Transaction'',
                      au_entityId = Some tid,
                      au_metadata = no_payload\<lparr>p_referenceId := Some ref, p_amount := Some amount,
                         p_currency := Some currency, p_sourceAccountId := Some src,
                         p_targetAccountId := Some tgt\<rparr>,
                      au_ipAddress = mc_ip meta, au_userAgent = mc_userAgent meta,
                      au_createdAt = now\<rparr>) db
                in (Inr (t, o', a), db)))"

definition recordOperationOutbox ::
  "pay_env \<Rightarrow> string option \<Rightarrow> string \<Rightarrow> string \<Rightarrow> string \<Rightarrow> rat \<Rightarrow> string \<Rightarrow> string \<Rightarrow> string option
     \<Rightarrow> string \<Rightarrow> meta_context \<Rightarrow> db \<Rightarrow> (app_error + outbox_event \<times> audit_log option) \<times> db" where
  "recordOperationOutbox env tid ref accId accNumber amount currency userId email action meta =
     in_transaction (\<lambda>db.
       case pe_outbox env of
         Some e \<Rightarrow> (Inl e, db)
       | None \<Rightarrow>
           let entity = (if truthy tid then the tid else ref);
               (o', db) = create_outbox (pe_db env) (pending_event entity (if truthy tid then tid else None)
                 (no_payload\<lparr>p_transactionId := tid, p_referenceId := Some ref,
                    p_accountId := Some accId, p_accountNumber := Some accNumber,
                    p_amount := Some amount, p_currency := Some currency, p_userId := Some userId,
                    p_email := email, p_recipient := email,
                    p_routingKey := Some ''payment.completed''\<rparr>)) db
           in if userId = '''' then (Inr (o', None), db)
              else let (a, db) = create_audit (pe_db env) (\<lambda>i now. \<lparr>au_id = i,
                      au_userId = Some userId, au_action = action, au_entity = ''Transaction'',
                      au_entityId = Some entity,
                      au_metadata = no_payload\<lparr>p_referenceId := Some ref, p_amount := Some amount,
                         p_currency := Some currency, p_accountNumber := Some accNumber\<rparr>,
                      au_ipAddress = mc_ip meta, au_userAgent = mc_userAgent meta,
                      au_createdAt = now\<rparr>) db
                   in (Inr (o', Some a), db))"

definition markTransactionFailed :: "pay_env \<Rightarrow> string \<Rightarrow> err_msg \<Rightarrow> db \<Rightarrow> (app_error + transaction) \<times> db" where
  "markTransactionFailed env tid reason db =
     (case pe_mark env of
        Some e \<Rightarrow> (Inl e, db)
      | None \<Rightarrow> set_tx_status tid FAILED (Some reason) db)"

subsection \<open>Transfers\<close>

record transfer_data =
  td_idempotencyKey :: string
  td_source :: string
  td_target :: string
  td_amount :: rat
  td_currency :: "string option"
  td_description :: "string option"

definition owner_email :: "account \<Rightarrow> db \<Rightarrow> string option" where
  "owner_email a db = map_option ow_email (owner_of (a_userId a) db)"

text \<open>The answer to a repeated key: what the transaction row says (the Decimal amount exactly).\<close>

definition replay_response :: "transaction \<Rightarrow> string list \<Rightarrow> payment_response" where
  "replay_response t accounts =
     \<lparr>pr_transaction = Some t, pr_account = None, pr_referenceId = t_referenceId t,
      pr_status = t_status t, pr_amount = of_int (t_amount t) / 100, pr_currency = t_currency t,
      pr_accounts = accounts, pr_description = t_description t, pr_isIdempotent = True\<rparr>"

text \<open>Steps 4 to 6: source with its owner, target, balance.\<close>

definition check_transfer ::
  "user_context \<Rightarrow> transfer_data \<Rightarrow> db \<Rightarrow> app_error + account \<times> account" where
  "check_transfer u d db =
     (case account_by_number (td_source d) db of
        None \<Rightarrow> Inl (not_found ''Source account '' (td_source d))
      | Some src \<Rightarrow>
          if a_userId src \<noteq> uc_userId u \<and> uc_role u \<noteq> Some ADMIN \<and> uc_role u \<noteq> Some TELLER
          then Inl (ForbiddenError (Msg ''Access denied: You do not own the source bank account''))
          else if a_status src \<noteq> ACTIVE then Inl (not_active ''Source account '' src)
          else (case account_by_number (td_target d) db of
                  None \<Rightarrow> Inl (not_found ''Target account '' (td_target d))
                | Some tgt \<Rightarrow>
                    if a_status tgt \<noteq> ACTIVE then Inl (not_active ''Target account '' tgt)
                    else if num_of_cents (a_balance src) < td_amount d then Inl (insufficient_funds src)
                    else Inr (src, tgt)))"

definition ledger_request :: "pay_env \<Rightarrow> transfer_data \<Rightarrow> transfer_req" where
  "ledger_request env d =
     \<lparr>rq_idempotencyKey = td_idempotencyKey d, rq_referenceId = Some (pe_reference env),
      rq_source = td_source d, rq_target = td_target d, rq_amount = td_amount d,
      rq_currency = Some (or_usd (td_currency d)), rq_description = td_description d\<rparr>"

text \<open>The ledger's route for transfers, on the database both services share.\<close>

definition ledger_serve :: "pay_env \<Rightarrow> transfer_data \<Rightarrow> db \<Rightarrow> ledger_result response \<times> db" where
  "ledger_serve env d =
     post_entries_route (pe_production env) (pe_V env) (pe_ledgerKey env) (pe_db env)
       (Some (pe_internalApiKey env)) (ledger_request env d)"

definition call_ledger ::
  "pay_env \<Rightarrow> (breaker \<times> db \<Rightarrow> (app_error + 'a) \<times> breaker \<times> db) \<Rightarrow> ('s, 't) world
     \<Rightarrow> (app_error + 'a) \<times> ('s, 't) world" where
  "call_ledger env client w =
     (let (r, b, db) = client (w_breaker w, w_db w) in (r, w\<lparr>w_breaker := b, w_db := db\<rparr>))"

text \<open>Steps 9 and 10, inside the inner \<open>try\<close>: ledger, finalize, caches, live event.\<close>

definition transfer_commit ::
  "('s, payment_response db2_value) kv \<Rightarrow> ('t, db1_value) kv \<Rightarrow> pay_env \<Rightarrow> user_context \<Rightarrow> meta_context
     \<Rightarrow> transfer_data \<Rightarrow> account \<Rightarrow> account \<Rightarrow> transaction \<Rightarrow> ('s, 't) world
     \<Rightarrow> (app_error + payment_response) \<times> ('s, 't) world" where
  "transfer_commit K C env u meta d src tgt t w =
     (case call_ledger env (recordDoubleEntry (pe_start env) (pe_end env) (pe_net env) (ledger_serve env d)) w of
        (Inl e, w) \<Rightarrow> (Inl e, w)
      | (Inr _, w) \<Rightarrow>
          let email = js_or (uc_email u) (owner_email src (w_db w))
          in case finalizeSuccessfulTransaction env (t_id t) (pe_reference env) (a_id src) (a_id tgt)
                    (td_amount d) (or_usd (td_currency d)) (uc_userId u) email meta (w_db w) of
               (Inl e, db) \<Rightarrow> (Inl e, w\<lparr>w_db := db\<rparr>)
             | (Inr (t', o', _), db) \<Rightarrow>
                 let res = \<lparr>pr_transaction = Some t', pr_account = None,
                             pr_referenceId = Some (pe_reference env), pr_status = COMPLETED,
                             pr_amount = td_amount d, pr_currency = or_usd (td_currency d),
                             pr_accounts = [td_source d, td_target d],
                             pr_description = td_description d, pr_isIdempotent = False\<rparr>;
                     live = \<lparr>ev_id = o_id o', ev_routingKey = ''payment.completed'',
                             ev_payload = no_payload\<lparr>p_transactionId := Some (t_id t'),
                               p_referenceId := Some (pe_reference env), p_amount := Some (td_amount d),
                               p_currency := Some (or_usd (td_currency d)), p_email := email,
                               p_recipient := email\<rparr>,
                             ev_accounts = [td_source d, td_target d]\<rparr>
                 in (Inr res, w\<lparr>w_db := db,
                       w_cache := invalidateAccounts C [td_source d, td_target d] (w_cache w),
                       w_locks := setIdempotencyRecord K (td_idempotencyKey d) res
                                    IDEMPOTENCY_TTL_SECONDS (w_locks w),
                       w_live := w_live w @ [live]\<rparr>))"

text \<open>Step 11: any error of the commit marks the transaction as failed and is rethrown.\<close>

definition transfer_try ::
  "('s, payment_response db2_value) kv \<Rightarrow> ('t, db1_value) kv \<Rightarrow> pay_env \<Rightarrow> user_context \<Rightarrow> meta_context
     \<Rightarrow> transfer_data \<Rightarrow> account \<Rightarrow> account \<Rightarrow> transaction \<Rightarrow> ('s, 't) world
     \<Rightarrow> (app_error + payment_response) \<times> ('s, 't) world" where
  "transfer_try K C env u meta d src tgt t w =
     (case transfer_commit K C env u meta d src tgt t w of
        (Inr r, w) \<Rightarrow> (Inr r, w)
      | (Inl e, w) \<Rightarrow>
          (case markTransactionFailed env (t_id t) (errorMessage e) (w_db w) of
             (Inl e', db) \<Rightarrow> (Inl e', w\<lparr>w_db := db\<rparr>)
           | (Inr _, db) \<Rightarrow> (Inl e, w\<lparr>w_db := db\<rparr>)))"

text \<open>Steps 3 to 11, with the locks held.\<close>

definition transfer_body ::
  "('s, payment_response db2_value) kv \<Rightarrow> ('t, db1_value) kv \<Rightarrow> pay_env \<Rightarrow> user_context \<Rightarrow> meta_context
     \<Rightarrow> transfer_data \<Rightarrow> ('s, 't) world \<Rightarrow> (app_error + payment_response) \<times> ('s, 't) world" where
  "transfer_body K C env u meta d w =
     (case tx_by_key (td_idempotencyKey d) (w_db w) of
        Some t \<Rightarrow>
          (let res = replay_response t [td_source d, td_target d];
               ls = w_locks w;
               ls = ls\<lparr>ls_metrics := (ls_metrics ls)
                      \<lparr>idempotencyHitsPostgres := idempotencyHitsPostgres (ls_metrics ls) + 1\<rparr>\<rparr>
           in (Inr res, w\<lparr>w_locks := setIdempotencyRecord K (td_idempotencyKey d) res
                                 IDEMPOTENCY_TTL_SECONDS ls\<rparr>))
      | None \<Rightarrow>
          (case check_transfer u d (w_db w) of
             Inl e \<Rightarrow> (Inl e, w)
           | Inr (src, tgt) \<Rightarrow>
               (case createPendingTransaction (pe_db env) (td_idempotencyKey d) (pe_reference env)
                       (a_id src) (a_id tgt) (td_amount d) (or_usd (td_currency d))
                       (td_description d) (w_db w) of
                  (Inl e, db) \<Rightarrow> (Inl e, w\<lparr>w_db := db\<rparr>)
                | (Inr t, db) \<Rightarrow> transfer_try K C env u meta d src tgt t (w\<lparr>w_db := db\<rparr>))))"

text \<open>
  The frame shared by the three payments: the Redis record first, then the locks in canonical
  order, the body, and the release of the locks whatever the body did.
\<close>

definition with_idempotency ::
  "('s, payment_response db2_value) kv \<Rightarrow> pay_env \<Rightarrow> string \<Rightarrow> string list
     \<Rightarrow> (('s, 't) world \<Rightarrow> (app_error + payment_response) \<times> ('s, 't) world) \<Rightarrow> ('s, 't) world
     \<Rightarrow> (app_error + payment_response) \<times> ('s, 't) world" where
  "with_idempotency K env key accounts body w =
     (case getIdempotencyRecord K key (w_locks w) of
        (Some r, ls) \<Rightarrow> (Inr (r\<lparr>pr_isIdempotent := True\<rparr>), w\<lparr>w_locks := ls\<rparr>)
      | (None, ls) \<Rightarrow>
          (case acquireAccountLocks K (pe_lock env) LOCK_EXPIRATION_MS accounts ls of
             (Inl e, ls) \<Rightarrow> (Inl e, w\<lparr>w_locks := ls\<rparr>)
           | (Inr locks, ls) \<Rightarrow>
               (let (r, w) = body (w\<lparr>w_locks := ls\<rparr>)
                in (r, w\<lparr>w_locks := releaseAccountLocks K locks (w_locks w)\<rparr>))))"

definition processTransfer ::
  "('s, payment_response db2_value) kv \<Rightarrow> ('t, db1_value) kv \<Rightarrow> pay_env \<Rightarrow> user_context \<Rightarrow> meta_context
     \<Rightarrow> transfer_data \<Rightarrow> ('s, 't) world \<Rightarrow> (app_error + payment_response) \<times> ('s, 't) world" where
  "processTransfer K C env u meta d =
     with_idempotency K env (td_idempotencyKey d) [td_source d, td_target d]
       (transfer_body K C env u meta d)"

subsection \<open>Deposits and withdrawals\<close>

record cash_data =
  cd_idempotencyKey :: string
  cd_accountNumber :: string
  cd_amount :: rat
  cd_currency :: "string option"
  cd_description :: "string option"

definition cash_request :: "pay_env \<Rightarrow> cash_data \<Rightarrow> string \<Rightarrow> single_req" where
  "cash_request env d description =
     \<lparr>sr_idempotencyKey = cd_idempotencyKey d, sr_referenceId = Some (pe_reference env),
      sr_accountNumber = cd_accountNumber d, sr_amount = cd_amount d,
      sr_currency = Some (or_usd (cd_currency d)), sr_description = Some description\<rparr>"

definition or_text :: "string \<Rightarrow> string option \<Rightarrow> string" where
  "or_text d v = (case v of None \<Rightarrow> d | Some s \<Rightarrow> s)"

text \<open>
  After the ledger's answer: cache, outbox event (its failure is swallowed), live event, response,
  Redis record. A missing body makes \<open>ledgerResult.transaction\<close> throw. The fallback event
  identifier prints the current time.
\<close>

definition cash_commit ::
  "('s, payment_response db2_value) kv \<Rightarrow> ('t, db1_value) kv \<Rightarrow> pay_env \<Rightarrow> user_context \<Rightarrow> meta_context
     \<Rightarrow> cash_data \<Rightarrow> string \<Rightarrow> string \<Rightarrow> account \<Rightarrow> ledger_result option \<Rightarrow> ('s, 't) world
     \<Rightarrow> (app_error + payment_response) \<times> ('s, 't) world" where
  "cash_commit K C env u meta d action description acc result w =
     (let w = w\<lparr>w_cache := invalidateAccounts C [cd_accountNumber d] (w_cache w)\<rparr>;
          email = js_or (uc_email u) (owner_email acc (w_db w))
      in case result of
           None \<Rightarrow> (Inl (PlainError None (Msg ''Cannot read properties of undefined (reading 'transaction')'')), w)
         | Some lr \<Rightarrow>
             let tid = Some (t_id (lr_transaction lr));
                 (ob, db) = recordOperationOutbox env tid (pe_reference env) (a_id acc) (cd_accountNumber d)
                    (cd_amount d) (or_usd (cd_currency d))
                    (if a_userId acc = '''' then uc_userId u else a_userId acc) email action meta (w_db w);
                 evid = (case ob of Inr (o', _) \<Rightarrow> o_id o' | Inl _ \<Rightarrow> ''evt-'' @ show_nat (pe_end env));
                 live = \<lparr>ev_id = evid, ev_routingKey = ''payment.completed'',
                         ev_payload = no_payload\<lparr>p_transactionId := tid,
                           p_referenceId := Some (pe_reference env), p_amount := Some (cd_amount d),
                           p_currency := Some (or_usd (cd_currency d)), p_email := email,
                           p_recipient := email, p_accountNumber := Some (cd_accountNumber d)\<rparr>,
                         ev_accounts = [cd_accountNumber d]\<rparr>;
                 res = \<lparr>pr_transaction = Some (lr_transaction lr),
                        pr_account = (case lr_accounts lr of [] \<Rightarrow> None | a # _ \<Rightarrow> Some a),
                        pr_referenceId = Some (pe_reference env), pr_status = COMPLETED,
                        pr_amount = cd_amount d, pr_currency = or_usd (cd_currency d),
                        pr_accounts = [cd_accountNumber d], pr_description = Some description,
                        pr_isIdempotent = False\<rparr>
             in (Inr res, w\<lparr>w_db := db, w_live := w_live w @ [live],
                   w_locks := setIdempotencyRecord K (cd_idempotencyKey d) res
                                IDEMPOTENCY_TTL_SECONDS (w_locks w)\<rparr>))"

definition cash_replay ::
  "('s, payment_response db2_value) kv \<Rightarrow> cash_data \<Rightarrow> transaction \<Rightarrow> ('s, 't) world
     \<Rightarrow> (app_error + payment_response) \<times> ('s, 't) world" where
  "cash_replay K d t w =
     (let res = replay_response t [cd_accountNumber d]
      in (Inr res, w\<lparr>w_locks := setIdempotencyRecord K (cd_idempotencyKey d) res
                                  IDEMPOTENCY_TTL_SECONDS (w_locks w)\<rparr>))"

definition deposit_body ::
  "('s, payment_response db2_value) kv \<Rightarrow> ('t, db1_value) kv \<Rightarrow> pay_env \<Rightarrow> user_context \<Rightarrow> meta_context
     \<Rightarrow> cash_data \<Rightarrow> ('s, 't) world \<Rightarrow> (app_error + payment_response) \<times> ('s, 't) world" where
  "deposit_body K C env u meta d w =
     (let description = or_text ''Cash Deposit'' (cd_description d)
      in case tx_by_key (cd_idempotencyKey d) (w_db w) of
           Some t \<Rightarrow> cash_replay K d t w
         | None \<Rightarrow>
             (case active_account ''Account '' (cd_accountNumber d) (w_db w) of
                Inl e \<Rightarrow> (Inl e, w)
              | Inr acc \<Rightarrow>
                  (case call_ledger env (client_recordDeposit (pe_start env) (pe_end env) (pe_net env)
                          (post_deposit_route (pe_production env) (pe_V env) (pe_ledgerKey env) (pe_db env)
                             (Some (pe_internalApiKey env)) (cash_request env d description))) w of
                     (Inl e, w) \<Rightarrow> (Inl e, w)
                   | (Inr result, w) \<Rightarrow>
                       cash_commit K C env u meta d ''CASH_DEPOSIT'' description acc result w)))"

definition withdrawal_body ::
  "('s, payment_response db2_value) kv \<Rightarrow> ('t, db1_value) kv \<Rightarrow> pay_env \<Rightarrow> user_context \<Rightarrow> meta_context
     \<Rightarrow> cash_data \<Rightarrow> ('s, 't) world \<Rightarrow> (app_error + payment_response) \<times> ('s, 't) world" where
  "withdrawal_body K C env u meta d w =
     (let description = or_text ''Cash Withdrawal'' (cd_description d)
      in case tx_by_key (cd_idempotencyKey d) (w_db w) of
           Some t \<Rightarrow> cash_replay K d t w
         | None \<Rightarrow>
             (case account_by_number (cd_accountNumber d) (w_db w) of
                None \<Rightarrow> (Inl (not_found ''Account '' (cd_accountNumber d)), w)
              | Some acc \<Rightarrow>
                  if a_userId acc \<noteq> uc_userId u \<and> uc_role u \<noteq> Some ADMIN \<and> uc_role u \<noteq> Some TELLER
                  then (Inl (ForbiddenError (Msg ''Access denied: You do not own this bank account'')), w)
                  else if a_status acc \<noteq> ACTIVE then (Inl (not_active ''Account '' acc), w)
                  else if num_of_cents (a_balance acc) < cd_amount d then (Inl (insufficient_funds acc), w)
                  else
                    (case call_ledger env (client_recordWithdrawal (pe_start env) (pe_end env) (pe_net env)
                          (post_withdraw_route (pe_production env) (pe_V env) (pe_ledgerKey env) (pe_db env)
                             (Some (pe_internalApiKey env)) (cash_request env d description))) w of
                       (Inl e, w) \<Rightarrow> (Inl e, w)
                     | (Inr result, w) \<Rightarrow>
                         cash_commit K C env u meta d ''CASH_WITHDRAWAL'' description acc result w)))"

definition processDeposit ::
  "('s, payment_response db2_value) kv \<Rightarrow> ('t, db1_value) kv \<Rightarrow> pay_env \<Rightarrow> user_context \<Rightarrow> meta_context
     \<Rightarrow> cash_data \<Rightarrow> ('s, 't) world \<Rightarrow> (app_error + payment_response) \<times> ('s, 't) world" where
  "processDeposit K C env u meta d =
     with_idempotency K env (cd_idempotencyKey d) [cd_accountNumber d] (deposit_body K C env u meta d)"

definition processWithdrawal ::
  "('s, payment_response db2_value) kv \<Rightarrow> ('t, db1_value) kv \<Rightarrow> pay_env \<Rightarrow> user_context \<Rightarrow> meta_context
     \<Rightarrow> cash_data \<Rightarrow> ('s, 't) world \<Rightarrow> (app_error + payment_response) \<times> ('s, 't) world" where
  "processWithdrawal K C env u meta d =
     with_idempotency K env (cd_idempotencyKey d) [cd_accountNumber d] (withdrawal_body K C env u meta d)"

subsection \<open>The HTTP side\<close>

text \<open>The controllers and the request validators; the token's user identifier is present.\<close>

definition user_context_of :: "claims \<Rightarrow> user_context" where
  "user_context_of c = \<lparr>uc_userId = or_text '''' (cl_userId c), uc_role = cl_role c, uc_email = cl_email c\<rparr>"

definition payment_answer :: "string \<Rightarrow> payment_response \<Rightarrow> payment_response response" where
  "payment_answer msg r = api_success msg r (if pr_isIdempotent r then 200 else 201)"

definition transfer_handler ::
  "('s, payment_response db2_value) kv \<Rightarrow> ('t, db1_value) kv \<Rightarrow> pay_env \<Rightarrow> claims \<Rightarrow> meta_context
     \<Rightarrow> transfer_data \<Rightarrow> ('s, 't) world \<Rightarrow> (app_error + payment_response response) \<times> ('s, 't) world" where
  "transfer_handler K C env cl meta d w =
     (let (r, w) = processTransfer K C env (user_context_of cl) meta d w
      in (rbind r (\<lambda>x. Inr (payment_answer ''Payment processed successfully'' x)), w))"

definition deposit_handler ::
  "('s, payment_response db2_value) kv \<Rightarrow> ('t, db1_value) kv \<Rightarrow> pay_env \<Rightarrow> claims \<Rightarrow> meta_context
     \<Rightarrow> cash_data \<Rightarrow> ('s, 't) world \<Rightarrow> (app_error + payment_response response) \<times> ('s, 't) world" where
  "deposit_handler K C env cl meta d w =
     (let (r, w) = processDeposit K C env (user_context_of cl) meta d w
      in (rbind r (\<lambda>x. Inr (payment_answer ''Deposit processed successfully'' x)), w))"

definition withdraw_handler ::
  "('s, payment_response db2_value) kv \<Rightarrow> ('t, db1_value) kv \<Rightarrow> pay_env \<Rightarrow> claims \<Rightarrow> meta_context
     \<Rightarrow> cash_data \<Rightarrow> ('s, 't) world \<Rightarrow> (app_error + payment_response response) \<times> ('s, 't) world" where
  "withdraw_handler K C env cl meta d w =
     (let (r, w) = processWithdrawal K C env (user_context_of cl) meta d w
      in (rbind r (\<lambda>x. Inr (payment_answer ''Withdrawal processed successfully'' x)), w))"

definition description_check :: "string option \<Rightarrow> (string \<times> string) list" where
  "description_check v = check (v = None \<or> length (js_trim (the v)) \<le> 255) ''description''
     ''Description cannot exceed 255 characters''"

definition currency_check :: "string option \<Rightarrow> (string \<times> string) list" where
  "currency_check v = check (v = None \<or> length (the v) = 3) ''currency''
     ''Currency must be a 3-character ISO code (e.g. USD)''"

definition transferValidation :: "validator_lib \<Rightarrow> transfer_data \<Rightarrow> (string \<times> string) list" where
  "transferValidation V d =
     check (isUUID V (td_idempotencyKey d)) ''idempotencyKey'' ''idempotencyKey must be a valid UUID'' @
     account_number_check V ''sourceAccountNumber'' (td_source d)
       ''Source account number must be a 12-digit numeric string'' @
     account_number_check V ''targetAccountNumber'' (td_target d)
       ''Target account number must be a 12-digit numeric string'' @
     check (td_target d \<noteq> td_source d) ''targetAccountNumber''
       ''Target account number cannot be identical to source account number'' @
     check (0 < td_amount d) ''amount'' ''Amount must be a positive number greater than 0'' @
     currency_check (td_currency d) @ description_check (td_description d)"

text \<open>\<open>depositValidation\<close> and \<open>withdrawValidation\<close> are the same checks.\<close>

definition cashValidation :: "validator_lib \<Rightarrow> cash_data \<Rightarrow> (string \<times> string) list" where
  "cashValidation V d =
     check (isUUID V (cd_idempotencyKey d)) ''idempotencyKey'' ''idempotencyKey must be a valid UUID'' @
     account_number_check V ''accountNumber'' (cd_accountNumber d)
       ''Account number must be a 12-digit numeric string'' @
     check (0 < cd_amount d) ''amount'' ''Amount must be a positive number greater than 0'' @
     currency_check (cd_currency d) @ description_check (cd_description d)"

subsection \<open>Lemmas\<close>

lemma with_idempotency_body:
  assumes "with_idempotency K env key accs body w = (Inr r, w')" and "\<not> pr_isIdempotent r"
  obtains ls w1 where "body (w\<lparr>w_locks := ls\<rparr>) = (Inr r, w1)" "w_db w' = w_db w1"
    "w_live w' = w_live w1" "w_breaker w' = w_breaker w1" "w_cache w' = w_cache w1"
proof -
  obtain rec ls where g: "getIdempotencyRecord K key (w_locks w) = (rec, ls)" by force
  show thesis
  proof (cases rec)
    case (Some x)
    with assms g show ?thesis by (auto simp: with_idempotency_def)
  next
    case None
    obtain l ls' where l: "acquireAccountLocks K (pe_lock env) LOCK_EXPIRATION_MS accs ls = (l, ls')" by force
    show ?thesis
    proof (cases l)
      case (Inl e)
      with assms g None l show ?thesis by (simp add: with_idempotency_def)
    next
      case (Inr locks)
      obtain r1 w1 where b: "body (w\<lparr>w_locks := ls'\<rparr>) = (r1, w1)" by force
      with assms g None l Inr show ?thesis
        by (intro that[of ls' w1]) (auto simp: with_idempotency_def)
    qed
  qed
qed

text \<open>A body that fails makes the payment fail, with the same database.\<close>

lemma with_idempotency_error:
  assumes "with_idempotency K env key accs body w = (Inl e, w')"
  shows "w_db w' = w_db w \<or> (\<exists>ls w1. body (w\<lparr>w_locks := ls\<rparr>) = (Inl e, w1) \<and> w_db w' = w_db w1)"
  using assms
  by (auto simp: with_idempotency_def split: prod.splits option.splits sum.splits) blast

lemma check_transfer_Inr:
  "check_transfer u d db = Inr (src, tgt) \<longleftrightarrow>
     account_by_number (td_source d) db = Some src \<and> account_by_number (td_target d) db = Some tgt \<and>
     (a_userId src = uc_userId u \<or> is_staff (uc_role u)) \<and> a_status src = ACTIVE \<and> a_status tgt = ACTIVE \<and>
     \<not> num_of_cents (a_balance src) < td_amount d"
  by (auto simp: check_transfer_def is_staff_def split: option.splits if_splits)

lemma transfer_body_Inr:
  assumes "transfer_body K C env u meta d w = (Inr r, w')" and "\<not> pr_isIdempotent r"
  obtains src tgt t db1 where "tx_by_key (td_idempotencyKey d) (w_db w) = None"
    "check_transfer u d (w_db w) = Inr (src, tgt)"
    "createPendingTransaction (pe_db env) (td_idempotencyKey d) (pe_reference env) (a_id src) (a_id tgt)
       (td_amount d) (or_usd (td_currency d)) (td_description d) (w_db w) = (Inr t, db1)"
    "transfer_commit K C env u meta d src tgt t (w\<lparr>w_db := db1\<rparr>) = (Inr r, w')"
proof -
  have none: "tx_by_key (td_idempotencyKey d) (w_db w) = None"
    using assms by (auto simp: transfer_body_def replay_response_def Let_def split: option.splits)
  obtain src tgt where c: "check_transfer u d (w_db w) = Inr (src, tgt)"
    using assms(1) none by (auto simp: transfer_body_def split: sum.splits)
  obtain t db1 where p: "createPendingTransaction (pe_db env) (td_idempotencyKey d) (pe_reference env) (a_id src)
      (a_id tgt) (td_amount d) (or_usd (td_currency d)) (td_description d) (w_db w) = (Inr t, db1)"
    using assms(1) none c by (auto simp: transfer_body_def split: sum.splits prod.splits)
  have "transfer_try K C env u meta d src tgt t (w\<lparr>w_db := db1\<rparr>) = (Inr r, w')"
    using assms(1) none c p by (simp add: transfer_body_def)
  then have "transfer_commit K C env u meta d src tgt t (w\<lparr>w_db := db1\<rparr>) = (Inr r, w')"
    by (auto simp: transfer_try_def split: prod.splits sum.splits)
  with none c p show thesis by (rule that)
qed

lemma createPending_Inr:
  assumes "createPendingTransaction env key ref src tgt amount cur desc db = (Inr t, db1)"
  shows "db_transactions db1 = db_transactions db @ [t] \<and> db_accounts db1 = db_accounts db \<and>
     db_entries db1 = db_entries db \<and> db_outbox db1 = db_outbox db \<and> db_audits db1 = db_audits db \<and>
     db_users db1 = db_users db \<and>
     t_idempotencyKey t = key \<and> t_status t = PENDING \<and> t_id t = new_id env (db_seq db) \<and>
     to_dec env amount = Some (t_amount t) \<and> t_referenceId t = Some ref \<and>
     t_sourceAccountId t = Some src \<and> t_targetAccountId t = Some tgt \<and>
     (\<forall>u \<in> set (db_transactions db). t_idempotencyKey u \<noteq> key)"
  using assms
  by (auto simp: createPendingTransaction_def store_dec_def create_tx_def Let_def split: option.splits if_splits)

lemma commit_ledger:
  assumes "transfer_commit K C env u meta d src tgt t w = (Inr r, w')"
  obtains x b db2 t' o' a where
    "recordDoubleEntry (pe_start env) (pe_end env) (pe_net env) (ledger_serve env d) (w_breaker w, w_db w) =
       (Inr x, b, db2)"
    "finalizeSuccessfulTransaction env (t_id t) (pe_reference env) (a_id src) (a_id tgt) (td_amount d)
       (or_usd (td_currency d)) (uc_userId u) (js_or (uc_email u) (owner_email src db2)) meta db2 =
       (Inr (t', o', a), w_db w')"
    "r = \<lparr>pr_transaction = Some t', pr_account = None, pr_referenceId = Some (pe_reference env),
       pr_status = COMPLETED, pr_amount = td_amount d, pr_currency = or_usd (td_currency d),
       pr_accounts = [td_source d, td_target d], pr_description = td_description d, pr_isIdempotent = False\<rparr>"
    "w_cache w' = invalidateAccounts C [td_source d, td_target d] (w_cache w)"
    "\<exists>l. w_live w' = w_live w @ [l] \<and> ev_id l = o_id o'"
  using assms
  by (auto simp: transfer_commit_def call_ledger_def Let_def split: prod.splits sum.splits)

lemma finalize_Inr:
  assumes "finalizeSuccessfulTransaction env tid ref src tgt amount cur uid email meta db = (Inr (t', o', a), db')"
    and "tx_by_id tid db = Some t"
  shows "db_accounts db' = db_accounts db \<and> db_entries db' = db_entries db \<and>
     db_outbox db' = db_outbox db @ [o'] \<and> o_status o' = OB_PENDING \<and> o_transactionId o' = Some tid \<and>
     o_eventType o' = ''PAYMENT_COMPLETED'' \<and> o_retryCount o' = 0 \<and>
     db_audits db' = db_audits db @ [a] \<and> au_action a = ''PAYMENT_TRANSFER'' \<and> au_entityId a = Some tid \<and>
     au_userId a = Some uid \<and> t' = t\<lparr>t_status := COMPLETED\<rparr> \<and>
     db_transactions db' = map (\<lambda>x. if t_id x = tid then x\<lparr>t_status := COMPLETED\<rparr> else x) (db_transactions db)"
  using assms
  by (auto simp: finalizeSuccessfulTransaction_def in_transaction_Inr set_tx_status_def create_outbox_def
      create_audit_def pending_event_def Let_def split: option.splits)

text \<open>One service of the ledger's route on a pending transaction: the book gets the two entries.\<close>

lemma ledger_serve_ok:
  assumes "ledger_serve env d db = (resp, db')" and "response_ok (rs_status resp)"
  obtains res where "executeDoubleEntryTransfer (pe_db env) (sanitize_transfer (ledger_request env d)) db = (Inr res, db')"
  using assms transfer_route_not_ok unfolding ledger_serve_def response_ok_def by fastforce

lemma ledger_serve_refused:
  assumes "ledger_serve env d db = (resp, db')" and "\<not> response_ok (rs_status resp)"
  shows "db' = db"
  using assms transfer_route_not_ok unfolding ledger_serve_def response_ok_def by fastforce

lemma sanitize_fields [simp]:
  "rq_source (sanitize_transfer (ledger_request env d)) = td_source d"
  "rq_target (sanitize_transfer (ledger_request env d)) = td_target d"
  "rq_amount (sanitize_transfer (ledger_request env d)) = td_amount d"
  "rq_idempotencyKey (sanitize_transfer (ledger_request env d)) = td_idempotencyKey d"
  by (simp_all add: sanitize_transfer_def ledger_request_def)

lemma money_db_pending:
  assumes "createPendingTransaction env key ref src tgt amount cur desc db = (Inr t, db1)" and "money_db db"
  shows "money_db db1" and "tx_by_key key db1 = Some t"
    and "\<forall>u \<in> set (db_transactions db). t_id u \<noteq> new_id env (db_seq db) \<Longrightarrow> tx_by_id (t_id t) db1 = Some t"
proof -
  note p = createPending_Inr[OF assms(1)]
  then show "money_db db1" using assms(2) by (auto simp: money_db_def wf_db_def)
  show "tx_by_key key db1 = Some t"
  proof -
    have "List.find (\<lambda>u. t_idempotencyKey u = key) (db_transactions db) = None"
      using p by (auto simp: find_None_iff)
    with p show ?thesis by (simp add: tx_by_key_def find_append)
  qed
  assume "\<forall>u \<in> set (db_transactions db). t_id u \<noteq> new_id env (db_seq db)"
  then have "List.find (\<lambda>u. t_id u = t_id t) (db_transactions db) = None"
    using p by (auto simp: find_None_iff)
  with p show "tx_by_id (t_id t) db1 = Some t" by (simp add: tx_by_id_def find_append)
qed

text \<open>A body that leaves the database alone makes a payment that does.\<close>

lemma with_idempotency_db:
  assumes "\<And>ls. w_db (snd (body (w\<lparr>w_locks := ls\<rparr>))) = w_db w"
  shows "w_db (snd (with_idempotency K env key accs body w)) = w_db w"
proof -
  obtain rec ls where g: "getIdempotencyRecord K key (w_locks w) = (rec, ls)" by force
  obtain l ls' where l: "acquireAccountLocks K (pe_lock env) LOCK_EXPIRATION_MS accs ls = (l, ls')" by force
  show ?thesis
    using g l assms[of ls']
    by (cases rec; cases l; cases "body (w\<lparr>w_locks := ls'\<rparr>)") (auto simp: with_idempotency_def)
qed

lemma finalize_entries:
  assumes "finalizeSuccessfulTransaction env tid ref src tgt amount cur uid email meta db = (Inr x, db')"
  shows "db_entries db' = db_entries db \<and> db_accounts db' = db_accounts db"
  using assms
  by (auto simp: finalizeSuccessfulTransaction_def in_transaction_Inr set_tx_status_def create_outbox_def
      create_audit_def Let_def split: option.splits)

text \<open>A result after a lost answer means that the ledger has posted both times.\<close>

lemma reply_lost_served_twice:
  assumes "double_entry_loop [ReplyLost m] (ledger_serve env d) 0 None db1 = (Inr x, db2)"
  obtains db1a res1 res2 where
    "executeDoubleEntryTransfer (pe_db env) (sanitize_transfer (ledger_request env d)) db1 = (Inr res1, db1a)"
    "executeDoubleEntryTransfer (pe_db env) (sanitize_transfer (ledger_request env d)) db1a = (Inr res2, db2)"
proof -
  obtain resp1 s1 where s1: "ledger_serve env d db1 = (resp1, s1)" by force
  obtain resp2 s2 where s2: "ledger_serve env d s1 = (resp2, s2)" by force
  have "double_entry_loop [ReplyLost m] (ledger_serve env d) 0 None db1 =
      double_entry_loop [ReplyLost m] (ledger_serve env d) 1 (Some (Msg m)) s1"
    using s1 by (subst double_entry_loop.simps) (simp add: fault_at_def maxRetries_def)
  also have "\<dots> = double_entry_loop [] (ledger_serve env d) 1 (Some (Msg m)) s1"
    by (rule double_entry_cong) (simp add: fault_at_def)
  finally have l: "double_entry_loop [] (ledger_serve env d) 1 (Some (Msg m)) s1 = (Inr x, db2)"
    using assms by simp
  have d: "fault_at [] i = Delivered" for i by (simp add: fault_at_def)
  from delivered_once[OF d s2 ledger_serve_refused[OF s2] l]
  have ok2: "response_ok (rs_status resp2)" and db2: "db2 = s2" by auto
  have ok1: "response_ok (rs_status resp1)"
  proof (rule ccontr)
    assume n: "\<not> response_ok (rs_status resp1)"
    with ledger_serve_refused[OF s1] have "s1 = db1" by simp
    with s1 s2 n ok2 show False by simp
  qed
  obtain res1 where "executeDoubleEntryTransfer (pe_db env) (sanitize_transfer (ledger_request env d)) db1 = (Inr res1, s1)"
    by (rule ledger_serve_ok[OF s1 ok1])
  moreover obtain res2 where
    "executeDoubleEntryTransfer (pe_db env) (sanitize_transfer (ledger_request env d)) s1 = (Inr res2, s2)"
    by (rule ledger_serve_ok[OF s2 ok2])
  ultimately show thesis using that db2 by blast
qed

lemma transfer_body_Inl:
  assumes "transfer_body K C env u meta d w = (Inl e, w')"
  shows "w_db w' = w_db w \<or> (\<exists>src tgt t db1.
     createPendingTransaction (pe_db env) (td_idempotencyKey d) (pe_reference env) (a_id src) (a_id tgt)
       (td_amount d) (or_usd (td_currency d)) (td_description d) (w_db w) = (Inr t, db1) \<and>
     transfer_try K C env u meta d src tgt t (w\<lparr>w_db := db1\<rparr>) = (Inl e, w'))"
proof -
  have none: "tx_by_key (td_idempotencyKey d) (w_db w) = None"
    using assms by (auto simp: transfer_body_def Let_def split: option.splits)
  show ?thesis
  proof (cases "check_transfer u d (w_db w)")
    case (Inl e')
    with assms none show ?thesis by (simp add: transfer_body_def)
  next
    case (Inr st)
    obtain src tgt where st: "st = (src, tgt)" by force
    obtain r db1 where p: "createPendingTransaction (pe_db env) (td_idempotencyKey d) (pe_reference env) (a_id src)
        (a_id tgt) (td_amount d) (or_usd (td_currency d)) (td_description d) (w_db w) = (r, db1)" by force
    show ?thesis
    proof (cases r)
      case (Inl e')
      with p have "db1 = w_db w"
        by (auto simp: createPendingTransaction_def store_dec_def create_tx_def Let_def split: option.splits if_splits)
      with assms none Inr st p Inl show ?thesis by (auto simp: transfer_body_def)
    next
      case r: (Inr t)
      with assms none Inr st p show ?thesis by (auto simp: transfer_body_def)
    qed
  qed
qed

text \<open>Over a network that delivers, a commit fails only if the ledger has refused.\<close>

lemma commit_error_delivered:
  assumes "transfer_commit K C env u meta d src tgt t w = (Inl e, w')"
    and "\<forall>i. fault_at (pe_net env) i = Delivered" and "pe_finalize env = None"
    and "\<And>db. db_transactions db = db_transactions (w_db w) \<Longrightarrow> tx_by_id (t_id t) db \<noteq> None"
    and "tx_by_key (td_idempotencyKey d) (w_db w) \<noteq> None"
  shows "w_db w' = w_db w"
proof -
  obtain resp db2 where serve: "ledger_serve env d (w_db w) = (resp, db2)" by force
  let ?rec = "recordDoubleEntry (pe_start env) (pe_end env) (pe_net env) (ledger_serve env d) (w_breaker w, w_db w)"
  have "snd (snd ?rec) = w_db w \<or> (\<exists>x b. ?rec = (Inr x, b, db2) \<and> response_ok (rs_status resp))"
  proof (cases "admit (pe_start env) (w_breaker w)")
    case (Pair gate b)
    show ?thesis
    proof (cases gate)
      case (Inl e')
      with Pair show ?thesis by (simp add: recordDoubleEntry_def execute_no_fallback)
    next
      case (Inr un)
      have d: "fault_at (pe_net env) i = Delivered" for i using assms(2) by simp
      show ?thesis
      proof (cases "response_ok (rs_status resp)")
        case True
        then have "double_entry_loop (pe_net env) (ledger_serve env d) 0 None (w_db w) = (Inr (response_data resp), db2)"
          using serve d by (subst double_entry_loop.simps) (simp add: maxRetries_def)
        with True Pair Inr show ?thesis by (simp add: recordDoubleEntry_def execute_no_fallback)
      next
        case False
        with ledger_serve_refused[OF serve] serve have "snd (ledger_serve env d (w_db w)) = w_db w" by simp
        moreover obtain n where "snd (double_entry_loop (pe_net env) (ledger_serve env d) 0 None (w_db w)) =
            served (ledger_serve env d) n (w_db w)"
          using double_entry_served[of 0 "pe_net env" "ledger_serve env d" None "w_db w"] by auto
        moreover have "served f n x = x" if "snd (f x) = x" for f :: "db \<Rightarrow> ledger_result response \<times> db" and n x
          using that by (induction n) (auto simp: served_def)
        ultimately show ?thesis using Pair Inr by (simp add: recordDoubleEntry_def execute_no_fallback)
      qed
    qed
  qed
  then show ?thesis
  proof
    assume "snd (snd ?rec) = w_db w"
    with assms(1,3) show ?thesis
      by (auto simp: transfer_commit_def call_ledger_def Let_def finalizeSuccessfulTransaction_def in_transaction_Inl
          split: prod.splits sum.splits)
  next
    assume "\<exists>x b. ?rec = (Inr x, b, db2) \<and> response_ok (rs_status resp)"
    then obtain x b where rec: "?rec = (Inr x, b, db2)" and ok: "response_ok (rs_status resp)" by blast
    obtain res where ex: "executeDoubleEntryTransfer (pe_db env) (sanitize_transfer (ledger_request env d)) (w_db w) = (Inr res, db2)"
      by (rule ledger_serve_ok[OF serve ok])
    have "db_transactions db2 = db_transactions (w_db w)"
      by (rule transfer_keeps_rows[OF ex]) (use assms(5) in simp)
    from assms(4)[OF this] obtain t0 where "tx_by_id (t_id t) db2 = Some t0" by blast
    then have "fst (finalizeSuccessfulTransaction env (t_id t) ref sa ta am cur uid em meta db2) \<noteq> Inl e'" for ref sa ta am cur uid em e'
      using assms(3) by (auto simp: finalizeSuccessfulTransaction_def in_transaction_def set_tx_status_def Let_def
          split: prod.splits)
    with assms(1) rec show ?thesis
      by (auto simp: transfer_commit_def call_ledger_def Let_def split: prod.splits sum.splits)
        (metis fst_conv)+
  qed
qed

end
