(* ===== verification/PaymentProps.thy ===== *)
theory PaymentProps
  imports Payment "HOL-Library.Code_Target_Nat"
begin

text \<open>What a payment does end to end.\<close>

subsection \<open>A sample world\<close>

definition pay_locks :: "payment_response db2_value mem lock_service" where
  "pay_locks = \<lparr>ls_redis = \<lparr>store = mem_empty, faults = []\<rparr>,
     ls_metrics = \<lparr>locksAcquired = 0, lockConflicts = 0, locksReleased = 0, idempotencyHitsRedis = 0,
       idempotencyHitsPostgres = 0, lockWaitTimeTotalMs = 0\<rparr>, ls_seq = 0\<rparr>"

definition sample_world :: "(payment_response db2_value mem, db1_value mem) world" where
  "sample_world = \<lparr>w_db = bank_db, w_locks = pay_locks, w_cache = empty_cache,
     w_breaker = new_breaker ''ledger-service'', w_live = []\<rparr>"

definition sample_V :: validator_lib where
  "sample_V = \<lparr>isUUID = (\<lambda>s. s \<noteq> ''''), isNumeric = (\<lambda>s. \<forall>c \<in> set s. c \<in> set ''0123456789'')\<rparr>"

definition sample_pay_env :: "net_fault list \<Rightarrow> pay_env" where
  "sample_pay_env net = \<lparr>pe_db = sample_env, pe_lock = demo_env, pe_V = sample_V, pe_production = False,
     pe_ledgerKey = ''key'', pe_internalApiKey = ''key'', pe_net = net, pe_start = 1000, pe_end = 1001,
     pe_reference = ''REF-1'', pe_finalize = None, pe_mark = None, pe_outbox = None\<rparr>"

definition alice :: user_context where
  "alice = \<lparr>uc_userId = ''alice'', uc_role = Some CUSTOMER, uc_email = Some ''alice@bank.test''\<rparr>"

definition no_meta :: meta_context where
  "no_meta = \<lparr>mc_ip = None, mc_userAgent = None\<rparr>"

definition sample_payment :: transfer_data where
  "sample_payment = \<lparr>td_idempotencyKey = ''k1'', td_source = ''100000000001'', td_target = ''100000000002'',
     td_amount = 51 / 2, td_currency = None, td_description = None\<rparr>"

definition sample_run where
  "sample_run net = processTransfer mem_kv mem_kv (sample_pay_env net) alice no_meta sample_payment sample_world"

text \<open>The sample payment succeeds for real, whatever the network script of the two used below.\<close>

definition run_summary :: "(app_error + payment_response) \<times> ('s, 't) world \<Rightarrow> bool option \<times> int list" where
  "run_summary x = (case fst x of Inl _ \<Rightarrow> None | Inr r \<Rightarrow> Some (pr_isIdempotent r),
     map a_balance (db_accounts (w_db (snd x))))"

lemma sample_run_delivered: "run_summary (sample_run []) = (Some False, [7450, 7550])"
  by code_simp

lemma sample_run_lost: "run_summary (sample_run [ReplyLost ''socket hang up'']) = (Some False, [4900, 10100])"
  by code_simp

lemma run_summary_ok: "run_summary x = (Some False, bs) \<Longrightarrow> \<exists>r w. x = (Inr r, w) \<and> \<not> pr_isIdempotent r"
  by (cases x) (auto simp: run_summary_def split: sum.splits)

lemma sample_world_facts:
  "decimal_codec (to_dec (pe_db (sample_pay_env net)))" "money_db (w_db sample_world)"
  "\<forall>t \<in> set (db_transactions (w_db sample_world)). t_id t \<noteq> new_id (pe_db (sample_pay_env net)) (db_seq (w_db sample_world))"
  "td_amount sample_payment = num_of_cents 2550" "money 2550"
proof -
  show "td_amount sample_payment = num_of_cents 2550" by code_simp
  show "decimal_codec (to_dec (pe_db (sample_pay_env net)))" by (simp add: sample_pay_env_def)
  show "money_db (w_db sample_world)"
    using sample_money(1) by (simp add: sample_world_def bank_db_def money_db_def wf_db_def)
qed (simp_all add: sample_world_def bank_db_def sample_db_def money_def money_max_def)

subsection \<open>Properties\<close>

text \<open>C1: A transfer that the payment service completes over a network that delivers has happened
  exactly once and completely: the caller owns the source account or is staff; on the book it is
  one valid debit of the source and one valid credit of the target for the amount; its transaction
  row is COMPLETED; one PENDING outbox event and one audit record were written with it; the live
  event carries the outbox event's identifier.\<close>

theorem transfer_end_to_end:
  assumes "processTransfer K C env u meta d w = (Inr r, w')" and "\<not> pr_isIdempotent r"
    and "\<forall>i. fault_at (pe_net env) i = Delivered"
    and "decimal_codec (to_dec (pe_db env))" and "money_db (w_db w)" and "money c" and "0 < c"
    and "td_amount d = num_of_cents c"
    and "\<forall>t \<in> set (db_transactions (w_db w)). t_id t \<noteq> new_id (pe_db env) (db_seq (w_db w))"
  shows "\<exists>src tgt k1 k2 t o' a l.
     account_by_number (td_source d) (w_db w) = Some src \<and> account_by_number (td_target d) (w_db w) = Some tgt \<and>
     (a_userId src = uc_userId u \<or> is_staff (uc_role u)) \<and> a_id src \<noteq> a_id tgt \<and> c \<le> a_balance src \<and>
     entry_is k1 (t_id t) (a_id src) DEBIT c (a_balance src - c) \<and>
     entry_is k2 (t_id t) (a_id tgt) CREDIT c (a_balance tgt + c) \<and>
     valid_entries [k1, k2] (book_of (w_db w)) \<and>
     book_of (w_db w') = post_entries [k1, k2] (book_of (w_db w)) \<and>
     tx_by_key (td_idempotencyKey d) (w_db w') = Some t \<and> t_status t = COMPLETED \<and> pr_transaction r = Some t \<and>
     db_outbox (w_db w') = db_outbox (w_db w) @ [o'] \<and> o_status o' = OB_PENDING \<and> o_transactionId o' = Some (t_id t) \<and>
     db_audits (w_db w') = db_audits (w_db w) @ [a] \<and> au_entityId a = Some (t_id t) \<and>
     w_live w' = w_live w @ [l] \<and> ev_id l = o_id o'"
proof -
  obtain ls w1 where body: "transfer_body K C env u meta d (w\<lparr>w_locks := ls\<rparr>) = (Inr r, w1)"
    and w': "w_db w' = w_db w1" "w_live w' = w_live w1"
    by (rule with_idempotency_body[OF assms(1)[unfolded processTransfer_def] assms(2)]) blast
  let ?w = "w\<lparr>w_locks := ls\<rparr>"
  obtain src tgt t db1 where none: "tx_by_key (td_idempotencyKey d) (w_db w) = None"
    and chk: "check_transfer u d (w_db w) = Inr (src, tgt)"
    and pend: "createPendingTransaction (pe_db env) (td_idempotencyKey d) (pe_reference env) (a_id src) (a_id tgt)
       (td_amount d) (or_usd (td_currency d)) (td_description d) (w_db w) = (Inr t, db1)"
    and com: "transfer_commit K C env u meta d src tgt t (?w\<lparr>w_db := db1\<rparr>) = (Inr r, w1)"
    by (rule transfer_body_Inr[OF body assms(2)]) auto
  note p = createPending_Inr[OF pend] and p' = money_db_pending[OF pend assms(5)]
  obtain x b db2 t' o' a where
    rec: "recordDoubleEntry (pe_start env) (pe_end env) (pe_net env) (ledger_serve env d) (w_breaker w, db1) = (Inr x, b, db2)"
    and fin: "finalizeSuccessfulTransaction env (t_id t) (pe_reference env) (a_id src) (a_id tgt) (td_amount d)
       (or_usd (td_currency d)) (uc_userId u) (js_or (uc_email u) (owner_email src db2)) meta db2 =
       (Inr (t', o', a), w_db w1)"
    and r: "pr_transaction r = Some t'" and live: "\<exists>l. w_live w1 = w_live w @ [l] \<and> ev_id l = o_id o'"
    by (rule commit_ledger[OF com]) auto
  obtain resp db2' where serve: "ledger_serve env d db1 = (resp, db2')" by force
  obtain x' where "double_entry_loop (pe_net env) (ledger_serve env d) 0 None db1 = (Inr x', db2)"
    using rec by (auto simp: recordDoubleEntry_def execute_no_fallback split: prod.splits sum.splits)
      (metis prod.collapse)
  from delivered_once[OF assms(3)[rule_format] serve ledger_serve_refused[OF serve] this]
  have ok: "response_ok (rs_status resp)" and db2: "db2 = db2'" by auto
  obtain res where ex: "executeDoubleEntryTransfer (pe_db env) (sanitize_transfer (ledger_request env d)) db1 = (Inr res, db2)"
    using ledger_serve_ok[OF serve ok] db2 by blast
  let ?rq = "sanitize_transfer (ledger_request env d)"
  have key: "tx_by_key (rq_idempotencyKey ?rq) db1 = Some t" using p'(2) by simp
  have amt: "rq_amount ?rq = num_of_cents c" using assms(8) by simp
  have nid: "\<not> lr_isIdempotent res"
    by (rule transfer_not_replayed[OF key _ ex]) (use p in simp)
  obtain src' tgt' k1 k2 where e: "account_by_number (td_source d) db1 = Some src'"
      "account_by_number (td_target d) db1 = Some tgt'" "a_id src' \<noteq> a_id tgt'" "c \<le> a_balance src'"
      "book_of db2 = post_entries [k1, k2] (book_of db1)"
      "entry_is k1 (t_id (lr_transaction res)) (a_id src') DEBIT c (a_balance src' - c)"
      "entry_is k2 (t_id (lr_transaction res)) (a_id tgt') CREDIT c (a_balance tgt' + c)"
      "lr_transaction res = t \<and> db_transactions db2 = db_transactions db1"
      "db_outbox db2 = db_outbox db1" "db_audits db2 = db_audits db1"
    by (rule transfer_effect[OF assms(4) p'(1) assms(6) amt ex nid, unfolded sanitize_fields p'(2) option.case])
      (use transfer_frame[OF ex] in blast)
  have same: "src' = src" "tgt' = tgt"
    using e(1,2) chk p by (simp_all add: check_transfer_Inr account_by_number_def)
  have id2: "tx_by_id (t_id t) db2 = Some t" using p'(3)[OF assms(9)] e(8) by (simp add: tx_by_id_def)
  note f = finalize_Inr[OF fin id2]
  have bk1: "book_of db1 = book_of (w_db w)" using p by (simp add: book_of_def)
  have bk: "book_of (w_db w') = post_entries [k1, k2] (book_of (w_db w))"
    using f e(5) w' bk1 by (simp add: book_of_def)
  have "valid_entries [k1, k2] (book_of db1)"
    by (rule transfer_entries_valid[OF _ _ e(3,4) _ e(6,7)])
      (use e(1,2) p'(1) assms(7) in \<open>auto simp: money_db_def dest!: account_by_number_SomeD\<close>)
  moreover have "tx_by_key (td_idempotencyKey d) (w_db w') = Some t'"
    using p'(2) f w' e(8)
    by (auto simp: tx_by_key_def find_map_key[of _ "\<lambda>x. if t_id x = t_id t then x\<lparr>t_status := COMPLETED\<rparr> else x"])
  ultimately show ?thesis
    using chk e f r live w' bk p bk1 same
    by (intro exI[of _ src] exI[of _ tgt] exI[of _ k1] exI[of _ k2] exI[of _ t'] exI[of _ o'] exI[of _ a])
      (auto simp: check_transfer_Inr)
qed

theorem transfer_end_to_end_witness:
  "\<exists>r w' k1 k2. processTransfer mem_kv mem_kv (sample_pay_env []) alice no_meta sample_payment sample_world = (Inr r, w') \<and>
     book_of (w_db w') = post_entries [k1, k2] (book_of (w_db sample_world)) \<and>
     length (db_outbox (w_db w')) = length (db_outbox (w_db sample_world)) + 1"
proof -
  obtain r w' where r: "processTransfer mem_kv mem_kv (sample_pay_env []) alice no_meta sample_payment sample_world = (Inr r, w')"
      "\<not> pr_isIdempotent r"
    using run_summary_ok[OF sample_run_delivered] by (auto simp: sample_run_def)
  have d: "\<forall>i. fault_at (pe_net (sample_pay_env [])) i = Delivered"
    by (simp add: sample_pay_env_def fault_at_def)
  have c: "0 < (2550::int)" by simp
  from transfer_end_to_end[OF r d sample_world_facts(1,2,5) c sample_world_facts(4,3)] r show ?thesis
    by (elim exE conjE) (auto intro!: exI)
qed


definition failed_row :: transaction where
  "failed_row = \<lparr>t_id = ''T'', t_idempotencyKey = ''k1'', t_referenceId = Some ''REF-0'',
     t_sourceAccountId = Some ''A'', t_targetAccountId = Some ''B'', t_amount = 2550,
     t_currency = ''USD'', t_type = TRANSFER, t_status = FAILED, t_description = None,
     t_failureReason = Some (Msg ''down''), t_createdAt = 1\<rparr>"

definition failed_world :: "(payment_response db2_value mem, db1_value mem) world" where
  "failed_world = sample_world\<lparr>w_db := bank_db\<lparr>db_transactions := [failed_row]\<rparr>\<rparr>"


text \<open>C8: Nobody but the owner of the source account, a teller or an administrator can move money out
  of it: a transfer or withdrawal request of anybody else never changes the database.\<close>

theorem debit_requires_owner:
  assumes "\<not> is_staff (uc_role u)"
    and "\<And>a. account_by_number n (w_db w) = Some a \<Longrightarrow> a_userId a \<noteq> uc_userId u"
    and "td_source d = n" and "cd_accountNumber e = n"
  shows "w_db (snd (processTransfer K C env u meta d w)) = w_db w \<and>
     w_db (snd (processWithdrawal K C env u meta e w)) = w_db w"
proof -
  have t: "w_db (snd (transfer_body K C env u meta d (w\<lparr>w_locks := ls\<rparr>))) = w_db w" for ls
    using assms by (auto simp: transfer_body_def check_transfer_def is_staff_def Let_def split: option.split)
  have wd: "w_db (snd (withdrawal_body K C env u meta e (w\<lparr>w_locks := ls\<rparr>))) = w_db w" for ls
    using assms by (auto simp: withdrawal_body_def cash_replay_def is_staff_def Let_def split: option.split)
  from with_idempotency_db[of "transfer_body K C env u meta d" w] with_idempotency_db[of "withdrawal_body K C env u meta e" w]
  show ?thesis unfolding processTransfer_def processWithdrawal_def using t wd by blast
qed

definition mallory :: user_context where
  "mallory = \<lparr>uc_userId = ''mallory'', uc_role = Some CUSTOMER, uc_email = None\<rparr>"

definition sample_cash :: "string \<Rightarrow> cash_data" where
  "sample_cash n = \<lparr>cd_idempotencyKey = ''k2'', cd_accountNumber = n, cd_amount = 100,
     cd_currency = None, cd_description = None\<rparr>"

theorem debit_requires_owner_witness:
  "w_db (snd (processTransfer mem_kv mem_kv (sample_pay_env []) mallory no_meta sample_payment sample_world)) =
     w_db sample_world \<and>
   w_db (snd (processWithdrawal mem_kv mem_kv (sample_pay_env []) mallory no_meta (sample_cash ''100000000001'') sample_world)) =
     w_db sample_world"
  by (rule debit_requires_owner[of mallory "''100000000001''"])
    (simp_all add: mallory_def is_staff_def sample_payment_def sample_cash_def,
     auto simp: sample_world_def bank_db_def sample_defs account_by_number_def)

text \<open>Deposits have no such check: a customer can credit any active account with any amount, and
  the money is created. Here a customer without an account puts 100.00 on somebody else's.\<close>

lemma deposit_by_anyone:
  "run_summary (processDeposit mem_kv mem_kv (sample_pay_env []) mallory no_meta
     (sample_cash ''100000000001'') sample_world) = (Some False, [20000, 5000])"
  by code_simp



text \<open>C4: Failure safety. When the network delivers and the database does not fail, a transfer that
  is answered with an error has moved no money: no balance, no ledger entry, no outbox event and no
  audit record has changed. If it got as far as a transaction row, that row is FAILED.\<close>

theorem failed_transfer_moves_nothing:
  assumes "processTransfer K C env u meta d w = (Inl e, w')"
    and "\<forall>i. fault_at (pe_net env) i = Delivered" and "pe_finalize env = None" and "pe_mark env = None"
    and "money_db (w_db w)"
    and "\<forall>t \<in> set (db_transactions (w_db w)). t_id t \<noteq> new_id (pe_db env) (db_seq (w_db w))"
  shows "book_of (w_db w') = book_of (w_db w) \<and> db_outbox (w_db w') = db_outbox (w_db w) \<and>
     db_audits (w_db w') = db_audits (w_db w) \<and>
     (db_transactions (w_db w') = db_transactions (w_db w) \<or>
      (\<exists>t. db_transactions (w_db w') = db_transactions (w_db w) @ [t] \<and> t_status t = FAILED \<and>
         t_idempotencyKey t = td_idempotencyKey d))"
proof -
  from with_idempotency_error[OF assms(1)[unfolded processTransfer_def]]
  consider "w_db w' = w_db w" | ls w1 where "transfer_body K C env u meta d (w\<lparr>w_locks := ls\<rparr>) = (Inl e, w1)" "w_db w' = w_db w1"
    by blast
  then show ?thesis
  proof cases
    case 1
    then show ?thesis by simp
  next
    case 2
    from transfer_body_Inl[OF 2(1)] consider "w_db w1 = w_db w" | src tgt t db1 where
      "createPendingTransaction (pe_db env) (td_idempotencyKey d) (pe_reference env) (a_id src) (a_id tgt)
         (td_amount d) (or_usd (td_currency d)) (td_description d) (w_db w) = (Inr t, db1)"
      "transfer_try K C env u meta d src tgt t (w\<lparr>w_locks := ls, w_db := db1\<rparr>) = (Inl e, w1)"
      by auto
    then show ?thesis
    proof cases
      case 1
      with 2 show ?thesis by simp
    next
      case b: 2
      note p = createPending_Inr[OF b(1)]
      have id: "tx_by_id (t_id t) db1 = Some t" by (rule money_db_pending(3)[OF b(1) assms(5,6)])
      obtain e1 w2 where com: "transfer_commit K C env u meta d src tgt t (w\<lparr>w_locks := ls, w_db := db1\<rparr>) = (Inl e1, w2)"
        using b(2) by (auto simp: transfer_try_def split: prod.splits sum.splits)
      have w2: "w_db w2 = db1"
        using commit_error_delivered[OF com assms(2,3)] id money_db_pending(2)[OF b(1) assms(5)]
        by (simp add: tx_by_id_def)
      have "set_tx_status (t_id t) FAILED (Some (errorMessage e1)) db1 =
          (Inr (t\<lparr>t_status := FAILED, t_failureReason := Some (errorMessage e1)\<rparr>), w_db w1)"
        using b(2) com w2 assms(4) id
        by (auto simp: transfer_try_def markTransactionFailed_def set_tx_status_def split: prod.splits)
      then have db: "w_db w1 = db1\<lparr>db_transactions := map (\<lambda>x. if t_id x = t_id t
          then x\<lparr>t_status := FAILED, t_failureReason := Some (errorMessage e1)\<rparr> else x) (db_transactions db1)\<rparr>"
        using id by (simp add: set_tx_status_def)
      have "map (\<lambda>x. if t_id x = t_id t then x\<lparr>t_status := FAILED, t_failureReason := Some (errorMessage e1)\<rparr> else x)
          (db_transactions (w_db w)) = db_transactions (w_db w)"
        using assms(6) p by (intro map_idI) auto
      with db p 2 show ?thesis by (auto simp: book_of_def)
    qed
  qed
qed

definition poor_payment :: transfer_data where
  "poor_payment = sample_payment\<lparr>td_amount := 1000000\<rparr>"

theorem failed_transfer_moves_nothing_witness:
  "\<exists>e w'. processTransfer mem_kv mem_kv (sample_pay_env []) alice no_meta poor_payment sample_world = (Inl e, w') \<and>
     book_of (w_db w') = book_of (w_db sample_world)"
proof -
  have "fst (run_summary (processTransfer mem_kv mem_kv (sample_pay_env []) alice no_meta poor_payment sample_world)) = None"
    by code_simp
  then obtain e w' where r: "processTransfer mem_kv mem_kv (sample_pay_env []) alice no_meta poor_payment sample_world = (Inl e, w')"
    by (cases "processTransfer mem_kv mem_kv (sample_pay_env []) alice no_meta poor_payment sample_world")
      (auto simp: run_summary_def split: sum.splits)
  have d: "\<forall>i. fault_at (pe_net (sample_pay_env [])) i = Delivered" "pe_finalize (sample_pay_env []) = None"
    "pe_mark (sample_pay_env []) = None"
    by (simp_all add: sample_pay_env_def fault_at_def)
  from failed_transfer_moves_nothing[OF r d sample_world_facts(2,3)] r show ?thesis by blast
qed

text \<open>That guarantee needs the last database transaction to succeed. When finalizing fails after
  the ledger has posted, the money has moved but the transaction is recorded as FAILED and the
  caller gets an error; repeating the request is then answered as an idempotent success.\<close>

lemma finalize_failure_hides_payment:
  "let env = (sample_pay_env [])\<lparr>pe_finalize := Some (PlainError None (Msg ''connection lost''))\<rparr>;
       x = processTransfer mem_kv mem_kv env alice no_meta sample_payment sample_world;
       y = processTransfer mem_kv mem_kv (sample_pay_env []) alice no_meta sample_payment (snd x)
   in run_summary x = (None, [7450, 7550]) \<and>
      map t_status (db_transactions (w_db (snd x))) = [FAILED] \<and> db_outbox (w_db (snd x)) = [] \<and>
      run_summary y = (Some True, [7450, 7550])"
  by code_simp

end
