(* ===== verification/GatewayAuth.thy ===== *)
theory GatewayAuth
  imports Http
begin

text \<open>
  Requests at the gateway and its authentication, \<open>services/gateway/src/middleware/gatewayAuth.js\<close>.
  \<open>jwt.verify\<close> with the gateway's secret is a parameter that answers the decoded token, or
  \<^const>\<open>None\<close> when it throws.
\<close>

text \<open>The fields of a decoded token the gateway reads; absent ones are \<^const>\<open>None\<close>.\<close>

record gw_user =
  gu_userId :: "string option"
  gu_id :: "string option"
  gu_sub :: "string option"
  gu_role :: "string option"
  gu_email :: "string option"

text \<open>\<open>req.user.userId || req.user.id || req.user.sub\<close>\<close>

definition user_id_of :: "gw_user \<Rightarrow> string option" where
  "user_id_of u = js_or (gu_userId u) (js_or (gu_id u) (gu_sub u))"

record gw_request =
  gq_method :: string
  gq_path :: string
  gq_authorization :: "string option"
  gq_ip :: "string option" \<comment> \<open>\<open>req.ip\<close>\<close>
  gq_forwarded :: "string option" \<comment> \<open>\<open>X-Forwarded-For\<close>\<close>
  gq_remote :: "string option" \<comment> \<open>\<open>req.socket.remoteAddress\<close>\<close>
  gq_trace :: "string option" \<comment> \<open>\<open>req.traceId\<close>\<close>
  gq_user :: "gw_user option"
  gq_xUserId :: "string option" \<comment> \<open>the identity headers \<open>x-user-id\<close>, \<open>x-user-role\<close>, \<open>x-user-email\<close>\<close>
  gq_xUserRole :: "string option"
  gq_xUserEmail :: "string option"

text \<open>The regular expressions \<open>^p(\/)?$\<close> and \<open>^p(\/.*)?$\<close>; the dot matches no line break.\<close>

definition matches_exactly :: "string \<Rightarrow> string \<Rightarrow> bool" where
  "matches_exactly p path \<longleftrightarrow> path = p \<or> path = p @ ''/''"

definition matches_under :: "string \<Rightarrow> string \<Rightarrow> bool" where
  "matches_under p path \<longleftrightarrow> path = p \<or> starts_with (p @ ''/'') path \<and>
     list_all (\<lambda>c. c \<noteq> char_of (10 :: nat) \<and> c \<noteq> char_of (13 :: nat)) (drop (length p + 1) path)"

definition public_exact :: "string list" where
  "public_exact =
     [''/api/v1/auth/signup'', ''/api/v1/auth/login'', ''/api/v1/auth/refresh'',
      ''/auth/signup'', ''/auth/login'', ''/auth/refresh'',
      ''/admin/circuit-breakers'', ''/api/v1/admin/circuit-breakers'',
      ''/outbox/status'', ''/api/v1/outbox/status'']"

definition public_under :: "string list" where
  "public_under = [''/health'', ''/api/v1/health'', ''/docs'', ''/metrics'', ''/api/v1/metrics'']"

definition isPublicPath :: "string \<Rightarrow> bool" where
  "isPublicPath path \<longleftrightarrow> list_ex (\<lambda>p. matches_exactly p path) public_exact \<or>
     list_ex (\<lambda>p. matches_under p path) public_under \<or> path = ''/favicon.ico''"

text \<open>A header is overwritten only by a field the token has.\<close>

definition override :: "string option \<Rightarrow> string option \<Rightarrow> string option" where
  "override new old = (if truthy new then new else old)"

definition gatewayAuthMiddleware ::
  "(string \<Rightarrow> gw_user option) \<Rightarrow> gw_request \<Rightarrow> app_error + gw_request" where
  "gatewayAuthMiddleware verify req =
     (if isPublicPath (gq_path req) then Inr req
      else rbind (authenticateToken verify ''Invalid or expired Access Token'' (gq_authorization req))
        (\<lambda>u. Inr (req\<lparr>gq_user := Some u,
                     gq_xUserId := override (user_id_of u) (gq_xUserId req),
                     gq_xUserRole := override (gu_role u) (gq_xUserRole req),
                     gq_xUserEmail := override (gu_email u) (gq_xUserEmail req)\<rparr>)))"

lemma gatewayAuth_protected:
  assumes "\<not> isPublicPath (gq_path req)"
  shows "gatewayAuthMiddleware verify req = Inr req' \<longleftrightarrow>
    (\<exists>h u. gq_authorization req = Some h \<and> starts_with ''Bearer '' h \<and> verify (bearer_token h) = Some u \<and>
       req' = req\<lparr>gq_user := Some u, gq_xUserId := override (user_id_of u) (gq_xUserId req),
                  gq_xUserRole := override (gu_role u) (gq_xUserRole req),
                  gq_xUserEmail := override (gu_email u) (gq_xUserEmail req)\<rparr>)"
  using assms by (auto simp: gatewayAuthMiddleware_def rbind_eq_Inr authenticateToken_Inr)

end
