(* ===== verification/RateLimiter.thy ===== *)
theory RateLimiter
  imports GatewayAuth Redis "HOL-Library.AList" "HOL-Library.Product_Lexorder"
begin

text \<open>
  The sliding window rate limiter: the Lua script and the service of
  \<open>shared/src/rate-limit/rateLimiterService.js\<close>, the middleware and the three tiers of
  \<open>services/gateway/src/middleware/rateLimiter.js\<close>. Redis' sorted sets are a parameter with the
  documented laws of their commands; times are \<open>Date.now()\<close> and are inputs. Latencies, log lines
  and Prometheus counters are left out.
\<close>

subsection \<open>Sorted sets\<close>

record 's zsets =
  z_items :: "string \<Rightarrow> 's \<Rightarrow> (string \<times> int) list" \<comment> \<open>\<open>ZRANGE k 0 -1 WITHSCORES\<close>\<close>
  z_add :: "string \<Rightarrow> int \<Rightarrow> string \<Rightarrow> 's \<Rightarrow> 's" \<comment> \<open>\<open>ZADD k score member\<close>\<close>
  z_remrange :: "string \<Rightarrow> int \<Rightarrow> int \<Rightarrow> 's \<Rightarrow> 's" \<comment> \<open>\<open>ZREMRANGEBYSCORE k min max\<close>\<close>
  z_expire :: "string \<Rightarrow> nat \<Rightarrow> 's \<Rightarrow> 's" \<comment> \<open>\<open>EXPIRE k seconds\<close>\<close>
  z_del :: "string \<Rightarrow> 's \<Rightarrow> 's"
  z_ttl :: "string \<Rightarrow> 's \<Rightarrow> nat option" \<comment> \<open>remaining ms\<close>
  z_wait :: "nat \<Rightarrow> 's \<Rightarrow> 's" \<comment> \<open>time passes\<close>

locale redis_zsets =
  fixes Z :: "'s zsets"
  assumes sorted_items: "sorted (map snd (z_items Z k s))"
    and distinct_items: "distinct (map fst (z_items Z k s))"
    and add_items: "set (z_items Z k (z_add Z k sc m s)) =
          insert (m, sc) {x \<in> set (z_items Z k s). fst x \<noteq> m}"
    and add_other: "k' \<noteq> k \<Longrightarrow> z_items Z k' (z_add Z k sc m s) = z_items Z k' s"
    and rem_items: "z_items Z k (z_remrange Z k lo hi s) =
          filter (\<lambda>x. \<not> (lo \<le> snd x \<and> snd x \<le> hi)) (z_items Z k s)"
    and rem_other: "k' \<noteq> k \<Longrightarrow> z_items Z k' (z_remrange Z k lo hi s) = z_items Z k' s"
    and rem_ttl: "z_items Z k (z_remrange Z k lo hi s) \<noteq> [] \<Longrightarrow>
          z_ttl Z k (z_remrange Z k lo hi s) = z_ttl Z k s"
    and expire_items: "0 < t \<Longrightarrow> z_items Z k' (z_expire Z k t s) = z_items Z k' s"
    and expire_ttl: "0 < t \<Longrightarrow> z_items Z k s \<noteq> [] \<Longrightarrow> z_ttl Z k (z_expire Z k t s) = Some (t * 1000)"
    and del_items: "z_items Z k (z_del Z k s) = []"
    and del_other: "k' \<noteq> k \<Longrightarrow> z_items Z k' (z_del Z k s) = z_items Z k' s"
    and wait_items: "z_items Z k (z_wait Z d s) =
          (case z_ttl Z k s of None \<Rightarrow> z_items Z k s | Some t \<Rightarrow> if d < t then z_items Z k s else [])"
    and wait_ttl: "z_ttl Z k s = Some t \<Longrightarrow> d < t \<Longrightarrow> z_ttl Z k (z_wait Z d s) = Some (t - d)"

text \<open>
  An instance: a map of association lists with deadlines, sorted by score when it is read.
\<close>

record zmem =
  zm_now :: nat
  zm_map :: "string \<Rightarrow> ((string \<times> int) list \<times> nat option) option"

definition zm_live :: "string \<Rightarrow> zmem \<Rightarrow> ((string \<times> int) list \<times> nat option) option" where
  "zm_live k s = (case zm_map s k of None \<Rightarrow> None
     | Some (xs, d) \<Rightarrow>
         if xs = [] \<or> (case d of None \<Rightarrow> False | Some d \<Rightarrow> d \<le> zm_now s) then None else Some (xs, d))"

definition zm_raw :: "string \<Rightarrow> zmem \<Rightarrow> (string \<times> int) list" where
  "zm_raw k s = (case zm_live k s of None \<Rightarrow> [] | Some (xs, _) \<Rightarrow> xs)"

definition zm_deadline :: "string \<Rightarrow> zmem \<Rightarrow> nat option" where
  "zm_deadline k s = (case zm_live k s of None \<Rightarrow> None | Some (_, d) \<Rightarrow> d)"

definition zmem_ops :: "zmem zsets" where
  "zmem_ops =
     \<lparr>z_items = (\<lambda>k s. sort_key snd (AList.clearjunk (zm_raw k s))),
      z_add = (\<lambda>k sc m s. s\<lparr>zm_map := (zm_map s)(k \<mapsto> ((m, sc) # zm_raw k s, zm_deadline k s))\<rparr>),
      z_remrange = (\<lambda>k lo hi s. s\<lparr>zm_map := (zm_map s)(k \<mapsto>
         (filter (\<lambda>x. \<not> (lo \<le> snd x \<and> snd x \<le> hi)) (AList.clearjunk (zm_raw k s)), zm_deadline k s))\<rparr>),
      z_expire = (\<lambda>k t s. case zm_live k s of None \<Rightarrow> s
         | Some (xs, _) \<Rightarrow> s\<lparr>zm_map := (zm_map s)(k \<mapsto> (xs, Some (zm_now s + t * 1000)))\<rparr>),
      z_del = (\<lambda>k s. s\<lparr>zm_map := (zm_map s)(k := None)\<rparr>),
      z_ttl = (\<lambda>k s. map_option (\<lambda>d. d - zm_now s) (zm_deadline k s)),
      z_wait = (\<lambda>d s. s\<lparr>zm_now := zm_now s + d\<rparr>)\<rparr>"

definition zmem_empty :: zmem where
  "zmem_empty = \<lparr>zm_now = 0, zm_map = Map.empty\<rparr>"

lemmas zm_defs = zmem_ops_def zm_raw_def zm_live_def zm_deadline_def

lemma zm_raw_upd:
  "zm_raw k' (s\<lparr>zm_map := (zm_map s)(k := v)\<rparr>) =
     (if k' = k then (case v of None \<Rightarrow> [] | Some (xs, d) \<Rightarrow>
        if (case d of None \<Rightarrow> False | Some d \<Rightarrow> d \<le> zm_now s) then [] else xs) else zm_raw k' s)"
  by (auto simp: zm_raw_def zm_live_def split: option.split)

lemma zm_deadline_live: "zm_deadline k s = Some d \<Longrightarrow> zm_now s < d"
  by (auto simp: zm_deadline_def zm_live_def split: option.splits if_splits prod.splits)

lemma delete_notin: "k \<notin> fst ` set ys \<Longrightarrow> AList.delete k ys = ys"
  by (induction ys) auto

lemma clearjunk_filter: "distinct (map fst xs) \<Longrightarrow> AList.clearjunk (filter P xs) = filter P xs"
proof (induction xs)
  case (Cons x xs)
  have "fst x \<notin> fst ` set (filter P xs)" using Cons.prems by auto
  then have "AList.delete (fst x) (filter P xs) = filter P xs"
    by (rule delete_notin)
  with Cons show ?case by (cases x) auto
qed simp

lemma set_clearjunk_add:
  "set (AList.clearjunk ((m, sc) # xs)) = insert (m, sc) {x \<in> set (AList.clearjunk xs). fst x \<noteq> m}"
proof -
  have "set (AList.delete m ys) = {x \<in> set ys. fst x \<noteq> m}" for ys :: "('a \<times> 'b) list"
    by (auto simp: AList.delete_eq)
  then show ?thesis by (simp only: clearjunk.simps clearjunk_delete list.set fst_conv)
qed

lemma distinct_sort_clearjunk: "distinct (map fst (sort_key f (AList.clearjunk xs)))"
  using distinct_clearjunk[of xs] by (simp add: distinct_map)

interpretation zmem: redis_zsets zmem_ops
proof
  fix k k' :: string and s sc m lo hi and t d t' :: nat
  show "sorted (map snd (z_items zmem_ops k s))" by (simp add: zmem_ops_def)
  show "distinct (map fst (z_items zmem_ops k s))"
    by (simp add: zmem_ops_def distinct_sort_clearjunk)
  have "zm_raw k (z_add zmem_ops k sc m s) = (m, sc) # zm_raw k s"
    by (auto simp: zmem_ops_def zm_raw_upd split: option.split dest: zm_deadline_live)
  then show "set (z_items zmem_ops k (z_add zmem_ops k sc m s)) =
        insert (m, sc) {x \<in> set (z_items zmem_ops k s). fst x \<noteq> m}"
    using set_clearjunk_add[of m sc "zm_raw k s"]
    by (simp add: zmem_ops_def del: clearjunk.simps sort_key_simps)
  have raw: "zm_raw k (z_remrange zmem_ops k lo hi s) =
       filter (\<lambda>x. \<not> (lo \<le> snd x \<and> snd x \<le> hi)) (AList.clearjunk (zm_raw k s))"
    by (auto simp: zmem_ops_def zm_raw_upd split: option.split dest: zm_deadline_live)
  then show rem: "z_items zmem_ops k (z_remrange zmem_ops k lo hi s) =
        filter (\<lambda>x. \<not> (lo \<le> snd x \<and> snd x \<le> hi)) (z_items zmem_ops k s)"
    by (simp add: zmem_ops_def clearjunk_filter distinct_clearjunk filter_sort)
  show "z_ttl zmem_ops k (z_remrange zmem_ops k lo hi s) = z_ttl zmem_ops k s"
    if "z_items zmem_ops k (z_remrange zmem_ops k lo hi s) \<noteq> []"
    using that raw
    by (fastforce simp: zmem_ops_def zm_deadline_def zm_live_def zm_raw_def split: option.splits if_splits)
  show "k' \<noteq> k \<Longrightarrow> z_items zmem_ops k' (z_add zmem_ops k sc m s) = z_items zmem_ops k' s"
    "k' \<noteq> k \<Longrightarrow> z_items zmem_ops k' (z_remrange zmem_ops k lo hi s) = z_items zmem_ops k' s"
    "k' \<noteq> k \<Longrightarrow> z_items zmem_ops k' (z_del zmem_ops k s) = z_items zmem_ops k' s"
    "z_items zmem_ops k (z_del zmem_ops k s) = []"
    by (simp_all add: zmem_ops_def zm_raw_upd)
  show "0 < t \<Longrightarrow> z_items zmem_ops k' (z_expire zmem_ops k t s) = z_items zmem_ops k' s"
    by (cases "zm_live k s") (auto simp: zmem_ops_def zm_raw_upd zm_raw_def[of k])
  show "0 < t \<Longrightarrow> z_items zmem_ops k s \<noteq> [] \<Longrightarrow> z_ttl zmem_ops k (z_expire zmem_ops k t s) = Some (t * 1000)"
    by (auto simp: zmem_ops_def zm_raw_def zm_deadline_def zm_live_def split: option.splits if_splits)
  show "z_items zmem_ops k (z_wait zmem_ops d s) =
      (case z_ttl zmem_ops k s of None \<Rightarrow> z_items zmem_ops k s
       | Some t \<Rightarrow> if d < t then z_items zmem_ops k s else [])"
    by (auto simp: zmem_ops_def zm_raw_def zm_deadline_def zm_live_def split: option.splits)
  show "z_ttl zmem_ops k s = Some t \<Longrightarrow> d < t \<Longrightarrow> z_ttl zmem_ops k (z_wait zmem_ops d s) = Some (t - d)"
    by (auto simp: zmem_ops_def zm_deadline_def zm_live_def split: option.splits if_splits)
qed

subsection \<open>The script\<close>

text \<open>
  \<open>SLIDING_WINDOW_LUA\<close>, run atomically by Redis. The answer is the script's table: 1 or 0 for
  allowed, the remaining quota, the reset time and the seconds to wait.
\<close>

definition sliding_window_lua ::
  "'s zsets \<Rightarrow> string \<Rightarrow> int \<Rightarrow> int \<Rightarrow> int \<Rightarrow> string \<Rightarrow> 's \<Rightarrow> (int \<times> int \<times> int \<times> int) \<times> 's" where
  "sliding_window_lua Z key windowMs limit nowMs member s =
     (let clearBefore = nowMs - windowMs;
          s = z_remrange Z key 0 clearBefore s;
          currentCount = int (length (z_items Z key s))
      in if currentCount < limit then
           (let s = z_add Z key nowMs member s;
                s = z_expire Z key (nat (ceil_seconds windowMs + 1)) s;
                remaining = limit - currentCount - 1;
                resetSeconds = ceil_seconds (nowMs + windowMs)
            in ((1, remaining, resetSeconds, 0), s))
         else
           (let oldestTime = (case z_items Z key s of [] \<Rightarrow> nowMs | x # _ \<Rightarrow> snd x);
                resetSeconds = ceil_seconds (oldestTime + windowMs);
                retryAfter = max 1 (ceil_seconds (oldestTime + windowMs - nowMs))
            in ((0, 0, resetSeconds, retryAfter), s)))"

subsection \<open>The service\<close>

record 's rate_limiter =
  rl_redis :: "'s conn"
  allowedRequests :: nat
  blockedRequests :: nat
  totalChecks :: nat

record check_result =
  ck_allowed :: bool
  ck_limit :: int
  ck_remaining :: int
  ck_resetTime :: int
  ck_retryAfter :: int
  ck_error :: "string option"

text \<open>
  \<open>checkRateLimit\<close>: \<open>nowMs\<close> is the time passed to the script, \<open>errMs\<close> the clock in the error
  branch. \<open>init\<close> never throws, so a failed connection shows as a failing command.
\<close>

definition checkRateLimit ::
  "'s zsets \<Rightarrow> string \<Rightarrow> int \<Rightarrow> int \<Rightarrow> int \<Rightarrow> string \<Rightarrow> int \<Rightarrow> 's rate_limiter
     \<Rightarrow> check_result \<times> 's rate_limiter" where
  "checkRateLimit Z key limit windowSeconds nowMs member errMs rl =
     (let windowMs = windowSeconds * 1000;
          (result, c) = redis_call (sliding_window_lua Z key windowMs limit nowMs member) (rl_redis rl);
          rl = rl\<lparr>rl_redis := c\<rparr>
      in case result of
           Inr (a, remaining, resetTime, retryAfter) \<Rightarrow>
             (\<lparr>ck_allowed = (a = 1), ck_limit = limit, ck_remaining = remaining,
               ck_resetTime = resetTime, ck_retryAfter = retryAfter, ck_error = None\<rparr>,
              if a = 1 then rl\<lparr>totalChecks := totalChecks rl + 1, allowedRequests := allowedRequests rl + 1\<rparr>
              else rl\<lparr>totalChecks := totalChecks rl + 1, blockedRequests := blockedRequests rl + 1\<rparr>)
         | Inl m \<Rightarrow>
             (\<lparr>ck_allowed = True, ck_limit = limit, ck_remaining = 1,
               ck_resetTime = ceil_seconds (errMs + windowMs), ck_retryAfter = 0, ck_error = Some m\<rparr>, rl))"

definition rl_reset :: "'s zsets \<Rightarrow> string \<Rightarrow> 's rate_limiter \<Rightarrow> bool \<times> 's rate_limiter" where
  "rl_reset Z key rl =
     (let (result, c) = redis_call (\<lambda>s. ((), z_del Z key s)) (rl_redis rl)
      in (case result of Inl _ \<Rightarrow> False | Inr _ \<Rightarrow> True, rl\<lparr>rl_redis := c\<rparr>))"

subsection \<open>The middleware\<close>

definition excluded_routes :: "string list" where
  "excluded_routes = [''/health'', ''/metrics'', ''/docs'', ''/admin'']"

definition isExcludedRoute :: "string \<Rightarrow> bool" where
  "isExcludedRoute path \<longleftrightarrow> list_ex (\<lambda>e. path = e \<or> starts_with (e @ ''/'') path) excluded_routes"

text \<open>Node joins repeated \<open>X-Forwarded-For\<close> headers into one string.\<close>

definition getClientIp :: "gw_request \<Rightarrow> string" where
  "getClientIp req =
     (if truthy (gq_ip req) then the (gq_ip req)
      else let forwarded = (case gq_forwarded req of None \<Rightarrow> '''' | Some raw \<Rightarrow> js_trim (hd (split_on (CHR '','') raw)))
           in if forwarded \<noteq> '''' then forwarded
              else the (js_or (gq_remote req) (Some ''127.0.0.1'')))"

record tier =
  tr_limit :: int
  tr_windowSeconds :: int
  tr_name :: string
  tr_key :: "gw_request \<Rightarrow> string"

definition ip_key :: "gw_request \<Rightarrow> string" where
  "ip_key req = ''rate:ip:'' @ getClientIp req"

definition user_key :: "gw_request \<Rightarrow> string" where
  "user_key req =
     (case Option.bind (gq_user req) user_id_of of
        Some u \<Rightarrow> if u \<noteq> '''' then ''rate:user:'' @ u else ip_key req
      | None \<Rightarrow> ip_key req)"

definition authRateLimiter :: tier where
  "authRateLimiter = \<lparr>tr_limit = 10, tr_windowSeconds = 60, tr_name = ''AUTH'', tr_key = ip_key\<rparr>"

definition paymentRateLimiter :: tier where
  "paymentRateLimiter = \<lparr>tr_limit = 25, tr_windowSeconds = 60, tr_name = ''PAYMENT'', tr_key = user_key\<rparr>"

definition generalRateLimiter :: tier where
  "generalRateLimiter = \<lparr>tr_limit = 100, tr_windowSeconds = 60, tr_name = ''GENERAL'', tr_key = user_key\<rparr>"

record limit_headers =
  X_RateLimit_Limit :: int
  X_RateLimit_Remaining :: int
  X_RateLimit_Reset :: int
  Retry_After :: "int option"

text \<open>
  \<open>createRateLimiter\<close>: the headers set, and the 429 answer or \<^const>\<open>None\<close> for \<open>next()\<close>. The path
  is the one Express shows the middleware, without the mount point. The details object of the
  answer is written as the list of its fields.
\<close>

definition createRateLimiter ::
  "'s zsets \<Rightarrow> tier \<Rightarrow> int \<Rightarrow> string \<Rightarrow> int \<Rightarrow> gw_request \<Rightarrow> 's rate_limiter
     \<Rightarrow> (limit_headers option \<times> 'd response option) \<times> 's rate_limiter" where
  "createRateLimiter Z T nowMs member errMs req rl =
     (if isExcludedRoute (gq_path req) then ((None, None), rl)
      else
        let (ck, rl) = checkRateLimit Z (tr_key T req) (tr_limit T) (tr_windowSeconds T) nowMs member errMs rl;
            retryAfterSec = max 1 (if ck_retryAfter ck = 0 then 1 else ck_retryAfter ck);
            resetTimeSec = max 0 (if ck_resetTime ck = 0
                                  then ceil_seconds (errMs + tr_windowSeconds T * 1000) else ck_resetTime ck);
            h = \<lparr>X_RateLimit_Limit = ck_limit ck, X_RateLimit_Remaining = max 0 (ck_remaining ck),
                 X_RateLimit_Reset = resetTimeSec, Retry_After = None\<rparr>
        in if \<not> ck_allowed ck
           then ((Some (h\<lparr>Retry_After := Some retryAfterSec\<rparr>),
                  Some (api_error (Msg ''Too many requests. Please try again later.'') 429
                    [''code: RATE_LIMIT_EXCEEDED'', ''tier: '' @ tr_name T,
                     ''limit: '' @ show_nat (nat (ck_limit ck)), ''retryAfter: '' @ show_nat (nat retryAfterSec),
                     ''resetTime: '' @ show_nat (nat resetTimeSec),
                     ''traceId: '' @ (case gq_trace req of None \<Rightarrow> '''' | Some t \<Rightarrow> t)])), rl)
           else ((Some h, None), rl))"

end
