(* ===== verification/RateLimiterProps.thy ===== *)
theory RateLimiterProps
  imports RateLimiter
begin

text \<open>
  The rate limiter against a reference: a sliding window log that remembers the times of all
  requests it has allowed. The script keeps less, Redis drops even more, and the answers are
  the same.
\<close>

subsection \<open>The reference\<close>

text \<open>Allowed times, latest first, and those of them in the window that ends at \<open>t\<close>.\<close>

definition recent :: "int \<Rightarrow> int \<Rightarrow> int list \<Rightarrow> int list" where
  "recent W t acc = filter (\<lambda>a. t - W < a) acc"

definition window_answer :: "int \<Rightarrow> int \<Rightarrow> int \<Rightarrow> int list \<Rightarrow> int \<times> int \<times> int \<times> int" where
  "window_answer W L t acc =
     (let n = int (length (recent W t acc))
      in if n < L then (1, L - n - 1, ceil_seconds (t + W), 0)
         else (0, 0, ceil_seconds (last (recent W t acc) + W),
               max 1 (ceil_seconds (last (recent W t acc) + W - t))))"

fun window_log :: "int \<Rightarrow> int \<Rightarrow> int list \<Rightarrow> int list \<Rightarrow> (int \<times> int \<times> int \<times> int) list" where
  "window_log W L acc [] = []"
| "window_log W L acc (t # ts) =
     window_answer W L t acc #
     window_log W L (if fst (window_answer W L t acc) = 1 then t # acc else acc) ts"

text \<open>The script on a sequence of timed requests for one key; \<open>T\<close> is the time so far.\<close>

fun script_log :: "'s zsets \<Rightarrow> string \<Rightarrow> int \<Rightarrow> int \<Rightarrow> int \<Rightarrow> (int \<times> string) list \<Rightarrow> 's
    \<Rightarrow> (int \<times> int \<times> int \<times> int) list" where
  "script_log Z k W L T [] s = []"
| "script_log Z k W L T ((t, m) # rs) s =
     (let (r, s') = sliding_window_lua Z k W L t m (z_wait Z (nat (t - T)) s)
      in r # script_log Z k W L t rs s')"

definition allowed_times :: "(int \<times> string) list \<Rightarrow> (int \<times> int \<times> int \<times> int) list \<Rightarrow> int list" where
  "allowed_times rs answers = map fst (filter (\<lambda>p. fst (snd p) = 1) (zip (map fst rs) answers))"

definition timed :: "int \<Rightarrow> (int \<times> string) list \<Rightarrow> bool" where
  "timed T rs \<longleftrightarrow> 0 \<le> T \<and> sorted (T # map fst rs) \<and> distinct (map snd rs)"

subsection \<open>Simulation\<close>

text \<open>
  The sorted set at time \<open>T\<close> holds the allowed requests that are still in the window (and perhaps
  older ones), and lives until the last of them leaves it.
\<close>

definition sw_sim :: "'s zsets \<Rightarrow> string \<Rightarrow> int \<Rightarrow> int \<Rightarrow> (string \<times> int) list \<Rightarrow> 's \<Rightarrow> bool" where
  "sw_sim Z k W T acc s \<longleftrightarrow>
     (\<forall>x. T - W < snd x \<longrightarrow> x \<in> set (z_items Z k s) \<longleftrightarrow> x \<in> set acc) \<and>
     set (z_items Z k s) \<subseteq> set acc \<and> distinct (map fst acc) \<and>
     sorted (rev (map snd acc)) \<and> (\<forall>x \<in> set acc. 0 \<le> snd x \<and> snd x \<le> T) \<and>
     (z_items Z k s \<noteq> [] \<longrightarrow>
        (\<exists>ttl. z_ttl Z k s = Some ttl \<and> (\<forall>x \<in> set (z_items Z k s). snd x + W \<le> T + int ttl)))"

lemma sw_simD:
  assumes "sw_sim Z k W T acc s"
  shows "T - W < snd x \<Longrightarrow> x \<in> set (z_items Z k s) \<longleftrightarrow> x \<in> set acc"
    and "x \<in> set (z_items Z k s) \<Longrightarrow> x \<in> set acc"
    and "distinct (map fst acc)" and "sorted (rev (map snd acc))"
    and "x \<in> set acc \<Longrightarrow> 0 \<le> snd x \<and> snd x \<le> T"
    and "y \<in> set (z_items Z k s) \<Longrightarrow>
      \<exists>ttl. z_ttl Z k s = Some ttl \<and> (\<forall>x \<in> set (z_items Z k s). snd x + W \<le> T + int ttl)"
  using assms unfolding sw_sim_def by (blast, blast, blast, blast, blast, force)

lemma sw_simI:
  assumes "\<And>x. T - W < snd x \<Longrightarrow> x \<in> set acc \<Longrightarrow> x \<in> set (z_items Z k s)"
    and "set (z_items Z k s) \<subseteq> set acc"
    and "distinct (map fst acc)" and "sorted (rev (map snd acc))"
    and "\<And>x. x \<in> set acc \<Longrightarrow> 0 \<le> snd x \<and> snd x \<le> T"
    and "z_items Z k s \<noteq> [] \<Longrightarrow> z_ttl Z k s = Some ttl"
    and "\<And>x. x \<in> set (z_items Z k s) \<Longrightarrow> snd x + W \<le> T + int ttl"
  shows "sw_sim Z k W T acc s"
  unfolding sw_sim_def using assms by blast

lemma sorted_hd_le: "sorted xs \<Longrightarrow> x \<in> set xs \<Longrightarrow> hd xs \<le> x"
  by (cases xs) auto

lemma sorted_same_set:
  assumes "sorted (map snd xs)" and "sorted (rev (map snd ys))" and "set xs = set ys" and "xs \<noteq> []"
  shows "snd (hd xs) = last (map snd ys)"
proof -
  let ?a = "map snd xs" and ?b = "rev (map snd ys)"
  have same: "set ?a = set ?b" and ne: "?a \<noteq> []" "?b \<noteq> []" using assms(3,4) by auto
  have "hd ?b \<in> set ?b" "hd ?a \<in> set ?a" using ne by (metis list.set_sel(1))+
  then have "hd ?a = hd ?b"
    using sorted_hd_le[OF assms(1)] sorted_hd_le[OF assms(2)] same by (intro antisym) blast+
  moreover have "hd ?a = snd (hd xs)" using assms(4) by (rule list.map_sel)
  moreover have "hd ?b = last (map snd ys)" by (simp only: hd_rev)
  ultimately show ?thesis by simp
qed

context redis_zsets
begin

lemma sim_wait:
  assumes "sw_sim Z k W T acc s" and "T \<le> t"
  shows "sw_sim Z k W t acc (z_wait Z (nat (t - T)) s)"
proof (cases "z_items Z k s = [] \<or> (\<exists>ttl. z_ttl Z k s = Some ttl \<and> ttl \<le> nat (t - T))")
  case True
  note d = sw_simD[OF assms(1)]
  have none: "z_items Z k (z_wait Z (nat (t - T)) s) = []"
    using True by (auto simp: wait_items split: option.split)
  have old: "\<not> t - W < snd x" if "x \<in> set acc" for x
  proof
    assume w: "t - W < snd x"
    with assms(2) d(1)[of x] that have x: "x \<in> set (z_items Z k s)" by simp
    with d(6)[of x] obtain ttl where "z_ttl Z k s = Some ttl" "snd x + W \<le> T + int ttl" by blast
    with True x assms(2) w show False by auto
  qed
  show ?thesis
    by (rule sw_simI[where ttl = 0]) (use none old d assms(2) in fastforce)+
next
  case False
  note d = sw_simD[OF assms(1)]
  obtain y where "y \<in> set (z_items Z k s)" using False by (cases "z_items Z k s") auto
  from d(6)[OF this] False obtain ttl where ttl: "z_ttl Z k s = Some ttl" "nat (t - T) < ttl"
      "\<forall>x \<in> set (z_items Z k s). snd x + W \<le> T + int ttl" by (metis not_le)
  then have items: "z_items Z k (z_wait Z (nat (t - T)) s) = z_items Z k s"
    and t2: "z_ttl Z k (z_wait Z (nat (t - T)) s) = Some (ttl - nat (t - T))"
    by (simp_all add: wait_items wait_ttl)
  have eq: "t + int (ttl - nat (t - T)) = T + int ttl" using ttl(2) assms(2) by simp
  show ?thesis
  proof (rule sw_simI[where ttl = "ttl - nat (t - T)"])
    show "x \<in> set (z_items Z k (z_wait Z (nat (t - T)) s))" if "t - W < snd x" "x \<in> set acc" for x
      using d(1)[of x] that assms(2) items by simp
    show "set (z_items Z k (z_wait Z (nat (t - T)) s)) \<subseteq> set acc" using d(2) items by auto
    show "snd x + W \<le> t + int (ttl - nat (t - T))"
      if "x \<in> set (z_items Z k (z_wait Z (nat (t - T)) s))" for x
      using bspec[OF ttl(3), of x] that unfolding items eq by simp
    show "0 \<le> snd x \<and> snd x \<le> t" if "x \<in> set acc" for x using d(5)[OF that] assms(2) by simp
  qed (use d t2 in simp_all)
qed

lemma sim_remove:
  assumes "sw_sim Z k W t acc s"
  shows "set (z_items Z k (z_remrange Z k 0 (t - W) s)) = {x \<in> set acc. t - W < snd x}"
    and "length (z_items Z k (z_remrange Z k 0 (t - W) s)) = length (recent W t (map snd acc))"
    and "sw_sim Z k W t acc (z_remrange Z k 0 (t - W) s)"
proof -
  let ?s = "z_remrange Z k 0 (t - W) s"
  note d = sw_simD[OF assms]
  have sub: "set (z_items Z k ?s) \<subseteq> set (z_items Z k s)" by (auto simp: rem_items)
  show set: "set (z_items Z k ?s) = {x \<in> set acc. t - W < snd x}"
  proof (rule set_eqI)
    fix x
    have "x \<in> set (z_items Z k ?s) \<longleftrightarrow> x \<in> set (z_items Z k s) \<and> \<not> (0 \<le> snd x \<and> snd x \<le> t - W)"
      by (simp add: rem_items)
    then show "x \<in> set (z_items Z k ?s) \<longleftrightarrow> x \<in> {x \<in> set acc. t - W < snd x}"
      using d(1)[of x] d(2)[of x] d(5)[of x] by auto
  qed
  have "distinct (z_items Z k ?s)" using distinct_items[of k ?s] by (simp add: distinct_map)
  then have "length (z_items Z k ?s) = card (set (z_items Z k ?s))" by (simp add: distinct_card)
  also have "\<dots> = card (set (filter (\<lambda>x. t - W < snd x) acc))" by (simp only: set set_filter)
  also have "\<dots> = length (filter (\<lambda>x. t - W < snd x) acc)"
    using d(3) by (intro distinct_card distinct_filter) (simp add: distinct_map)
  finally show "length (z_items Z k ?s) = length (recent W t (map snd acc))"
    by (simp add: recent_def filter_map o_def)
  show "sw_sim Z k W t acc ?s"
  proof (cases "z_items Z k ?s = []")
    case True
    then show ?thesis using d set by (intro sw_simI[where ttl = 0]) auto
  next
    case False
    then obtain y where "y \<in> set (z_items Z k s)" using sub by (cases "z_items Z k ?s") auto
    from d(6)[OF this] obtain ttl where "z_ttl Z k s = Some ttl"
      "\<forall>x \<in> set (z_items Z k s). snd x + W \<le> t + int ttl" by blast
    then show ?thesis using d set sub False rem_ttl[OF False]
      by (intro sw_simI[where ttl = ttl]) auto
  qed
qed

lemma sim_add:
  assumes "sw_sim Z k W t acc s" and "0 \<le> t" and "0 < W" and "m \<notin> fst ` set acc"
  shows "sw_sim Z k W t ((m, t) # acc) (z_expire Z k (nat (ceil_seconds W + 1)) (z_add Z k t m s))"
proof -
  let ?e = "nat (ceil_seconds W + 1)" and ?s = "z_add Z k t m s"
  note d = sw_simD[OF assms(1)]
  have e: "0 < ?e" "W \<le> int (?e * 1000)"
    using ceil_seconds_bounds[of W] assms(3) by auto
  have fresh: "fst x \<noteq> m" if "x \<in> set (z_items Z k s)" for x
    using d(2)[OF that] assms(4) by auto
  have items: "set (z_items Z k (z_expire Z k ?e ?s)) = insert (m, t) (set (z_items Z k s))"
    using fresh by (auto simp: expire_items[OF e(1)] add_items)
  have "z_items Z k ?s \<noteq> []" using add_items[of k t m s] by auto
  then have ttl: "z_ttl Z k (z_expire Z k ?e ?s) = Some (?e * 1000)" by (rule expire_ttl[OF e(1)])
  show ?thesis
  proof (rule sw_simI[where ttl = "?e * 1000"])
    show "snd x + W \<le> t + int (?e * 1000)" if "x \<in> set (z_items Z k (z_expire Z k ?e ?s))" for x
      using that e(2) d(2,5)[of x] unfolding items by auto
    show "sorted (rev (map snd ((m, t) # acc)))"
      using d(4,5) by (auto simp: sorted_append)
    show "0 \<le> snd x \<and> snd x \<le> t" if "x \<in> set ((m, t) # acc)" for x
      using that d(5)[of x] assms(2) by auto
    show "x \<in> set (z_items Z k (z_expire Z k ?e ?s))" if "t - W < snd x" "x \<in> set ((m, t) # acc)" for x
      using that d(1)[of x] unfolding items by auto
    show "set (z_items Z k (z_expire Z k ?e ?s)) \<subseteq> set ((m, t) # acc)"
      using d(2) unfolding items by auto
  qed (use d(3) assms(4) ttl in auto)
qed

lemma script_step:
  assumes "sw_sim Z k W t acc s" and "0 \<le> t" and "0 < W" and "0 < L" and "m \<notin> fst ` set acc"
  shows "fst (sliding_window_lua Z k W L t m s) = window_answer W L t (map snd acc)"
    and "sw_sim Z k W t (if fst (window_answer W L t (map snd acc)) = 1 then (m, t) # acc else acc)
           (snd (sliding_window_lua Z k W L t m s))"
proof -
  let ?s = "z_remrange Z k 0 (t - W) s" and ?r = "recent W t (map snd acc)"
  note rm = sim_remove[OF assms(1)]
  have oldest: "(case z_items Z k ?s of [] \<Rightarrow> t | x # _ \<Rightarrow> snd x) = last ?r" if "\<not> int (length ?r) < L"
  proof -
    have ne: "z_items Z k ?s \<noteq> []" using that assms(4) rm(2) by auto
    have "sorted (rev (map snd acc))" using assms(1) by (simp add: sw_sim_def)
    then have "sorted (rev (map snd (filter (\<lambda>x. t - W < snd x) acc)))"
      using sorted_filter[of "\<lambda>x. x" "rev (map snd acc)" "\<lambda>a. t - W < a"]
      by (simp add: rev_filter filter_map o_def rev_map)
    moreover have "set (z_items Z k ?s) = set (filter (\<lambda>x. t - W < snd x) acc)" using rm(1) by simp
    ultimately have "snd (hd (z_items Z k ?s)) = last (map snd (filter (\<lambda>x. t - W < snd x) acc))"
      using sorted_items ne by (intro sorted_same_set)
    with ne show ?thesis by (cases "z_items Z k ?s") (simp_all add: recent_def filter_map o_def)
  qed
  show "fst (sliding_window_lua Z k W L t m s) = window_answer W L t (map snd acc)"
    using rm(2) oldest by (auto simp: sliding_window_lua_def window_answer_def Let_def)
  show "sw_sim Z k W t (if fst (window_answer W L t (map snd acc)) = 1 then (m, t) # acc else acc)
           (snd (sliding_window_lua Z k W L t m s))"
    using rm(2,3) sim_add[OF rm(3) assms(2,3,5)]
    by (auto simp: sliding_window_lua_def window_answer_def Let_def)
qed

lemma script_log_eq:
  assumes "sw_sim Z k W T acc s" and "timed T rs" and "0 < W" and "0 < L"
    and "fst ` set acc \<inter> snd ` set rs = {}"
  shows "script_log Z k W L T rs s = window_log W L (map snd acc) (map fst rs)"
  using assms
proof (induction rs arbitrary: T acc s)
  case Nil
  then show ?case by simp
next
  case (Cons r rs)
  obtain t m where r: "r = (t, m)" by force
  have t: "T \<le> t" "0 \<le> t" "timed t rs" "m \<notin> fst ` set acc" "m \<notin> snd ` set rs"
    using Cons.prems(2,5) r by (auto simp: timed_def)
  let ?a = "window_answer W L t (map snd acc)" and ?s = "z_wait Z (nat (t - T)) s"
  let ?acc = "if fst ?a = 1 then (m, t) # acc else acc"
  note step = script_step[OF sim_wait[OF Cons.prems(1) t(1)] t(2) Cons.prems(3,4) t(4)]
  have "fst ` set ?acc \<inter> snd ` set rs = {}" using Cons.prems(5) t(5) r by auto
  from Cons.IH[OF step(2) t(3) Cons.prems(3,4) this]
  show ?case using step(1) r by (auto simp: Let_def split: prod.split)
qed

end

subsection \<open>The properties\<close>

lemma sw_sim_start: "z_items Z k s = [] \<Longrightarrow> sw_sim Z k W T [] s"
  by (simp add: sw_sim_def)

text \<open>Allowed times of the reference, latest first.\<close>

fun log_allowed :: "int \<Rightarrow> int \<Rightarrow> int list \<Rightarrow> int list \<Rightarrow> int list" where
  "log_allowed W L acc [] = acc"
| "log_allowed W L acc (t # ts) =
     log_allowed W L (if fst (window_answer W L t acc) = 1 then t # acc else acc) ts"

lemma window_answer_iff: "fst (window_answer W L t acc) = 1 \<longleftrightarrow> int (length (recent W t acc)) < L"
  by (simp add: window_answer_def Let_def)

lemma log_allowed_append: "log_allowed W L acc (ts @ us) = log_allowed W L (log_allowed W L acc ts) us"
  by (induction ts arbitrary: acc) auto

lemma window_log_append:
  "window_log W L acc (ts @ us) = window_log W L acc ts @ window_log W L (log_allowed W L acc ts) us"
  by (induction ts arbitrary: acc) auto

lemma length_window_log [simp]: "length (window_log W L acc ts) = length ts"
  by (induction ts arbitrary: acc) auto

lemma allowed_times_log:
  "rev (allowed_times rs (window_log W L acc (map fst rs))) @ acc = log_allowed W L acc (map fst rs)"
  by (induction rs arbitrary: acc) (auto simp: allowed_times_def)

definition window_ok :: "int \<Rightarrow> int \<Rightarrow> int list \<Rightarrow> bool" where
  "window_ok W L acc \<longleftrightarrow> (\<forall>x. int (length (filter (\<lambda>a. x - W < a \<and> a \<le> x) acc)) \<le> L)"

lemma window_ok_Nil: "0 \<le> L \<Longrightarrow> window_ok W L []"
  by (simp add: window_ok_def)

lemma window_ok_step:
  assumes "window_ok W L acc" and "fst (window_answer W L t acc) = 1"
  shows "window_ok W L (t # acc)"
  unfolding window_ok_def
proof
  fix x
  show "int (length (filter (\<lambda>a. x - W < a \<and> a \<le> x) (t # acc))) \<le> L"
  proof (cases "x - W < t \<and> t \<le> x")
    case True
    then have sub: "\<forall>a. x - W < a \<and> a \<le> x \<longrightarrow> t - W < a" by auto
    have "filter (\<lambda>a. x - W < a \<and> a \<le> x) acc = filter (\<lambda>a. x - W < a \<and> a \<le> x) (recent W t acc)"
      unfolding recent_def filter_filter using sub by (intro filter_cong) auto
    then have "length (filter (\<lambda>a. x - W < a \<and> a \<le> x) acc) \<le> length (recent W t acc)"
      by (metis length_filter_le)
    with assms(2) True show ?thesis by (simp add: window_answer_iff)
  next
    case False
    with assms(1) show ?thesis unfolding window_ok_def by auto
  qed
qed

lemma window_ok_log: "window_ok W L acc \<Longrightarrow> window_ok W L (log_allowed W L acc ts)"
  by (induction ts arbitrary: acc) (auto intro: window_ok_step)

lemma log_allowed_le:
  assumes "\<forall>a \<in> set acc. a \<le> T" and "sorted (T # ts)" and "\<forall>u \<in> set ts. u \<le> U" and "T \<le> U"
  shows "\<forall>a \<in> set (log_allowed W L acc ts). a \<le> U"
  using assms
proof (induction ts arbitrary: acc T)
  case (Cons t ts)
  let ?acc = "if fst (window_answer W L t acc) = 1 then t # acc else acc"
  have "\<forall>a \<in> set ?acc. a \<le> t" using Cons.prems(1,2) by auto
  with Cons.IH[of ?acc t] Cons.prems show ?case by simp
qed fastforce

text \<open>C25: The limiter is a sliding window log. On any sequence of requests for one key, in order of
  time and with distinct members, the script answers each request exactly as a reference that
  remembers all allowed requests: allowed if and only if fewer than the limit were allowed in the
  window before, with the same remaining quota, reset time and waiting time, although entries are
  removed and the key expires in between.\<close>

theorem limiter_is_window_log:
  assumes "redis_zsets Z" and "z_items Z k s = []" and "timed T rs" and "0 < W" and "0 < L"
  shows "script_log Z k W L T rs s = window_log W L [] (map fst rs)"
  using redis_zsets.script_log_eq[OF assms(1) sw_sim_start[OF assms(2)] assms(3,4,5)] by simp

theorem limiter_is_window_log_witness:
  "script_log zmem_ops ''k'' 1000 2 0 [(5, ''a''), (10, ''b''), (20, ''c''), (1006, ''d'')] zmem_empty =
   [(1, 1, 2, 0), (1, 0, 2, 0), (0, 0, 2, 1), (1, 0, 3, 0)]"
  by (subst limiter_is_window_log[OF zmem.redis_zsets_axioms])
    (simp_all add: timed_def zmem_ops_def zm_raw_def zm_live_def zmem_empty_def
       window_answer_def recent_def ceil_seconds_def)





subsection \<open>The tiers\<close>

text \<open>
  One user's requests through the middleware of the given tiers, each with its time and member;
  true when let through. Between them time passes at Redis.
\<close>

definition rl_wait :: "'s zsets \<Rightarrow> int \<Rightarrow> 's rate_limiter \<Rightarrow> 's rate_limiter" where
  "rl_wait Z d rl = rl\<lparr>rl_redis := (rl_redis rl)\<lparr>store := z_wait Z (nat d) (store (rl_redis rl))\<rparr>\<rparr>"

fun tier_run :: "'s zsets \<Rightarrow> int \<Rightarrow> (tier \<times> int \<times> string) list \<Rightarrow> gw_request \<Rightarrow> 's rate_limiter \<Rightarrow> bool list" where
  "tier_run Z T0 [] req rl = []"
| "tier_run Z T0 ((T, now, m) # xs) req rl =
     (let ((_, answer), rl') = createRateLimiter Z T now m now req (rl_wait Z (now - T0) rl)
      in ((answer :: unit response option) = None) # tier_run Z now xs req rl')"

text \<open>The reference for requests with limits of their own on one key.\<close>

fun mixed_log :: "int \<Rightarrow> int list \<Rightarrow> (int \<times> int) list \<Rightarrow> bool list" where
  "mixed_log W acc [] = []"
| "mixed_log W acc ((L, t) # xs) =
     (let ok = (int (length (recent W t acc)) < L) in ok # mixed_log W (if ok then t # acc else acc) xs)"

context redis_zsets
begin

lemma limiter_step:
  assumes "sw_sim Z (tr_key T req) (tr_windowSeconds T * 1000) t acc (store (rl_redis rl))"
    and "healthy (rl_redis rl)" and "\<not> isExcludedRoute (gq_path req)"
    and "0 \<le> t" and "0 < tr_windowSeconds T" and "0 < tr_limit T" and "m \<notin> fst ` set acc"
  shows "\<exists>h a rl'. createRateLimiter Z T t m t req rl = ((h, a :: 'd response option), rl') \<and>
     (a = None \<longleftrightarrow> int (length (recent (tr_windowSeconds T * 1000) t (map snd acc))) < tr_limit T) \<and>
     healthy (rl_redis rl') \<and>
     sw_sim Z (tr_key T req) (tr_windowSeconds T * 1000) t (if a = None then (m, t) # acc else acc)
       (store (rl_redis rl'))"
proof -
  let ?W = "tr_windowSeconds T * 1000"
  let ?x = "sliding_window_lua Z (tr_key T req) ?W (tr_limit T) t m (store (rl_redis rl))"
  obtain a r1 r2 r3 where x: "fst ?x = (a, r1, r2, r3)" by (metis prod_cases4)
  have W: "0 < ?W" using assms(5) by simp
  note st = script_step[OF assms(1,4) W assms(6,7)]
  have a: "a = 1 \<longleftrightarrow> int (length (recent ?W t (map snd acc))) < tr_limit T"
    unfolding window_answer_iff[symmetric] st(1)[symmetric] x by simp
  note call = redis_call_healthy[OF assms(2), of "sliding_window_lua Z (tr_key T req) ?W (tr_limit T) t m"]
  show ?thesis
    using st(2) a x window_answer_iff[of ?W "tr_limit T" t "map snd acc"] assms(2,3)
    by (cases "a = 1") (auto simp: createRateLimiter_def checkRateLimit_def call Let_def)
qed

lemma tier_run_eq:
  assumes "sw_sim Z k W T0 acc (store (rl_redis rl))" and "healthy (rl_redis rl)"
    and "\<not> isExcludedRoute (gq_path req)"
    and "\<forall>(T, t, m) \<in> set xs. tr_key T req = k \<and> tr_windowSeconds T * 1000 = W \<and> 0 < tr_limit T"
    and "0 < W" and "timed T0 (map snd xs)" and "fst ` set acc \<inter> snd ` set (map snd xs) = {}"
  shows "tier_run Z T0 xs req rl = mixed_log W (map snd acc) (map (\<lambda>(T, t, m). (tr_limit T, t)) xs)"
  using assms
proof (induction xs arbitrary: T0 acc rl)
  case Nil
  then show ?case by simp
next
  case (Cons y xs)
  obtain T t m where y: "y = (T, t, m)" by (metis prod_cases3)
  have t: "T0 \<le> t" "0 \<le> t" "timed t (map snd xs)" "m \<notin> snd ` set (map snd xs)"
    using Cons.prems(6) y unfolding timed_def by (simp_all flip: set_map)
  have T: "tr_key T req = k" "tr_windowSeconds T * 1000 = W" "0 < tr_limit T" "0 < tr_windowSeconds T"
    and m: "m \<notin> fst ` set acc"
    using Cons.prems(4,5,7) y by auto
  let ?rl = "rl_wait Z (t - T0) rl"
  have "sw_sim Z (tr_key T req) (tr_windowSeconds T * 1000) t acc (store (rl_redis ?rl))" "healthy (rl_redis ?rl)"
    using sim_wait[OF Cons.prems(1) t(1)] Cons.prems(2) T by (simp_all add: rl_wait_def)
  from limiter_step[OF this Cons.prems(3) t(2) T(4,3) m] obtain h a rl' where
    step: "createRateLimiter Z T t m t req ?rl = ((h, a :: unit response option), rl')"
      "a = None \<longleftrightarrow> int (length (recent W t (map snd acc))) < tr_limit T" "healthy (rl_redis rl')"
      "sw_sim Z k W t (if a = None then (m, t) # acc else acc) (store (rl_redis rl'))"
    unfolding T(1,2) by blast
  have "fst ` set (if a = None then (m, t) # acc else acc) \<inter> snd ` set (map snd xs) = {}"
    using Cons.prems(7) t(4) y by auto
  moreover have "\<forall>(T, t, m) \<in> set xs. tr_key T req = k \<and> tr_windowSeconds T * 1000 = W \<and> 0 < tr_limit T"
    using Cons.prems(4) by simp
  ultimately have "tier_run Z t xs req rl' =
      mixed_log W (map snd (if a = None then (m, t) # acc else acc)) (map (\<lambda>(T, t, m). (tr_limit T, t)) xs)"
    using Cons.IH[OF step(4,3) Cons.prems(3) _ Cons.prems(5) t(3)] by blast
  with step(1,2) y show ?case by (auto simp: Let_def)
qed

end

lemma mixed_log_all:
  assumes "int (length acc + length ts) \<le> L"
  shows "mixed_log W acc (map (\<lambda>t. (L, t)) ts @ xs) = replicate (length ts) True @ mixed_log W (rev ts @ acc) xs"
  using assms
proof (induction ts arbitrary: acc)
  case (Cons t ts)
  have "int (length (recent W t acc)) < L"
    using Cons.prems length_filter_le[of "\<lambda>a. t - W < a" acc] unfolding recent_def by (simp del: length_filter_le)
  with Cons show ?case by simp
qed simp

text \<open>The tiers do not keep separate quotas. The payment and the general limiter count in the same
  key of the user, so requests to general endpoints use up the payment quota: after 25 to 100
  requests to general endpoints within a minute, all let through, the user's first payment request
  is refused.\<close>

lemma tiers_share_one_quota:
  assumes "redis_zsets Z" and "healthy (rl_redis rl)" and "z_items Z (user_key req) (store (rl_redis rl)) = []"
    and "\<not> isExcludedRoute (gq_path req)" and "timed 0 (rs @ [(t, m)])"
    and "25 \<le> length rs" and "length rs \<le> 100" and "\<forall>r \<in> set rs. t - 60000 < fst r"
  shows "tier_run Z 0 (map (\<lambda>r. (generalRateLimiter, r)) rs @ [(paymentRateLimiter, t, m)]) req rl =
    replicate (length rs) True @ [False]"
proof -
  let ?xs = "map (\<lambda>r. (generalRateLimiter, r)) rs @ [(paymentRateLimiter, t, m)]"
  have "tier_run Z 0 ?xs req rl =
      mixed_log 60000 (map snd ([] :: (string \<times> int) list)) (map (\<lambda>(T, t, m). (tr_limit T, t)) ?xs)"
    using redis_zsets.tier_run_eq[OF assms(1) sw_sim_start[OF assms(3)] assms(2,4), of ?xs 60000 0] assms(5)
    by (auto simp: generalRateLimiter_def paymentRateLimiter_def o_def)
  also have "\<dots> = mixed_log 60000 [] (map (\<lambda>t. (100, t)) (map fst rs) @ [(25, t)])"
    by (simp add: generalRateLimiter_def paymentRateLimiter_def o_def case_prod_beta)
  also have "\<dots> = replicate (length rs) True @ mixed_log 60000 (rev (map fst rs)) [(25, t)]"
    using assms(7) by (subst mixed_log_all) simp_all
  also have "recent 60000 t (rev (map fst rs)) = rev (map fst rs)"
    unfolding recent_def using assms(8) by (intro filter_True) auto
  then have "mixed_log 60000 (rev (map fst rs)) [(25, t)] = [False]"
    using assms(6) by simp
  finally show ?thesis .
qed

definition sample_request :: gw_request where
  "sample_request = \<lparr>gq_method = ''GET'', gq_path = ''/'', gq_authorization = None, gq_ip = Some ''10.0.0.1'',
     gq_forwarded = None, gq_remote = None, gq_trace = None,
     gq_user = Some \<lparr>gu_userId = Some ''u1'', gu_id = None, gu_sub = None, gu_role = Some ''CUSTOMER'', gu_email = None\<rparr>,
     gq_xUserId = None, gq_xUserRole = None, gq_xUserEmail = None\<rparr>"

definition idle_limiter :: "zmem rate_limiter" where
  "idle_limiter = \<lparr>rl_redis = \<lparr>store = zmem_empty, faults = []\<rparr>, allowedRequests = 0,
     blockedRequests = 0, totalChecks = 0\<rparr>"

definition sample_requests :: "(int \<times> string) list" where
  "sample_requests = map (\<lambda>i. (int i, replicate i (CHR ''a''))) [0..<25]"

lemma tiers_share_one_quota_example:
  "tier_run zmem_ops 0 (map (\<lambda>r. (generalRateLimiter, r)) sample_requests @
      [(paymentRateLimiter, 30, ''m'')]) sample_request idle_limiter =
   replicate (length sample_requests) True @ [False]"
proof (rule tiers_share_one_quota[OF zmem.redis_zsets_axioms])
  show "z_items zmem_ops (user_key sample_request) (store (rl_redis idle_limiter)) = []"
    by (simp add: idle_limiter_def zmem_ops_def zm_raw_def zm_live_def zmem_empty_def)
  show "\<not> isExcludedRoute (gq_path sample_request)" by code_simp
  show "timed 0 (sample_requests @ [(30, ''m'')])" by code_simp
qed (simp_all add: idle_limiter_def healthy_def sample_requests_def)

end
