(* ===== verification/Messages.thy ===== *)
theory Messages
  imports Database CircuitBreaker Redis
begin

text \<open>
  Messages on the topic exchange \<open>vaultcore.events\<close> and the part of
  \<open>shared/src/queue/rabbitmq.js\<close> that sends them. The broker is the log of the messages it has
  accepted, behind a connection that can fail before or after it took a message
  (\<^const>\<open>redis_call\<close>): \<open>channel.publish\<close> that answers false has buffered the message, and the
  client throws.
\<close>

record msg_headers =
  h_eventId :: "string option"
  h_traceId :: "string option"
  h_transactionId :: "string option"
  h_eventType :: "string option"
  h_routingKey :: "string option"
  h_retryAttempt :: "nat option"

text \<open>
  The JSON content; \<open>c_self\<close> reads the content's own fields as a payload, for the code that
  falls back to them.
\<close>

record msg_content =
  c_eventId :: "string option"
  c_id :: "string option"
  c_traceId :: "string option"
  c_transactionId :: "string option"
  c_aggregateId :: "string option"
  c_eventType :: "string option"
  c_type :: "string option"
  c_routingKey :: "string option"
  c_referenceId :: "string option"
  c_retryAttempt :: "nat option"
  c_payload :: "payload option"
  c_self :: payload

record message =
  m_routingKey :: string
  m_headers :: msg_headers
  m_content :: "msg_content option" \<comment> \<open>\<^const>\<open>None\<close>: not JSON\<close>

definition no_headers :: msg_headers where
  "no_headers = \<lparr>h_eventId = None, h_traceId = None, h_transactionId = None, h_eventType = None,
     h_routingKey = None, h_retryAttempt = None\<rparr>"

definition no_content :: msg_content where
  "no_content = \<lparr>c_eventId = None, c_id = None, c_traceId = None, c_transactionId = None,
     c_aggregateId = None, c_eventType = None, c_type = None, c_routingKey = None,
     c_referenceId = None, c_retryAttempt = None, c_payload = None, c_self = no_payload\<rparr>"

text \<open>\<open>content.payload || content\<close>\<close>

definition content_payload :: "msg_content \<Rightarrow> payload" where
  "content_payload c = (case c_payload c of None \<Rightarrow> c_self c | Some p \<Rightarrow> p)"

definition publishEvent :: "message \<Rightarrow> message list conn \<Rightarrow> (app_error + unit) \<times> message list conn" where
  "publishEvent m c =
     (case redis_call (\<lambda>log. ((), log @ [m])) c of
        (Inr _, c) \<Rightarrow> (Inr (), c)
      | (Inl e, c) \<Rightarrow> (Inl (PlainError None (Msg e)), c))"

text \<open>
  Bindings of the queues: \<open>setupTopology\<close> of the shared client and of the notification consumer.
\<close>

definition payments_queue_keys :: "string list" where
  "payments_queue_keys = [''payment.completed'', ''payment.failed'', ''payment.reversed'']"

definition email_queue_keys :: "string list" where
  "email_queue_keys = [''payment.completed'', ''payment.failed'', ''notification.email'']"

definition sms_queue_keys :: "string list" where
  "sms_queue_keys = [''payment.completed'', ''notification.sms'']"

lemma publishEvent_cases:
  "fst (publishEvent m c) = Inr () \<longrightarrow> store (snd (publishEvent m c)) = store c @ [m]"
  "store (snd (publishEvent m c)) = store c \<or> store (snd (publishEvent m c)) = store c @ [m]"
  by (auto simp: publishEvent_def redis_call_def Let_def split: list.splits fault.splits)

lemma publishEvent_healthy:
  "healthy c \<Longrightarrow> publishEvent m c = (Inr (), c\<lparr>store := store c @ [m]\<rparr>)"
  by (simp add: publishEvent_def redis_call_healthy)

lemma publishEvent_isFailure: "fst (publishEvent m c) = Inl e \<Longrightarrow> isFailure e"
  by (auto simp: publishEvent_def isFailure_def split: prod.splits sum.splits)

end
