(* ===== verification/Outbox.thy ===== *)
theory Outbox
  imports Messages
begin

text \<open>
  The transactional outbox of the payment service: \<open>repositories/outboxRepository.js\<close>,
  \<open>services/outboxPublisher.js\<close> and \<open>services/outboxWorker.js\<close>. One run of \<open>processBatch\<close> happens
  at one time; database statements and the broker fail as the environment says. Latencies, log
  lines and the polling timer are left out: a run of the worker is a list of batches.
\<close>

record worker_metrics =
  wm_pending :: nat
  wm_published :: nat
  wm_failed :: nat
  wm_retries :: nat
  wm_cycles :: nat

record outbox_world =
  ow_db :: db
  ow_dbFaults :: "string option list" \<comment> \<open>outcome of the next statements, \<^const>\<open>None\<close> is success\<close>
  ow_broker :: "message list conn"
  ow_breaker :: breaker
  ow_stopped :: bool
  ow_processing :: bool
  ow_metrics :: worker_metrics

definition MAX_RETRIES :: nat where "MAX_RETRIES = 5"
definition BATCH_SIZE :: nat where "BATCH_SIZE = 50"

subsection \<open>Repository\<close>

definition fetchPendingEvents :: "nat \<Rightarrow> db \<Rightarrow> outbox_event list" where
  "fetchPendingEvents limit db =
     take limit (sort_key o_createdAt (filter (\<lambda>e. o_status e = OB_PENDING) (db_outbox db)))"

definition db_fault :: "outbox_world \<Rightarrow> string option \<times> outbox_world" where
  "db_fault w = (case ow_dbFaults w of [] \<Rightarrow> (None, w) | f # fs \<Rightarrow> (f, w\<lparr>ow_dbFaults := fs\<rparr>))"

definition update_event ::
  "string \<Rightarrow> (outbox_event \<Rightarrow> outbox_event) \<Rightarrow> outbox_world \<Rightarrow> (app_error + unit) \<times> outbox_world" where
  "update_event i upd w =
     (case db_fault w of
        (Some m, w) \<Rightarrow> (Inl (PlainError None (Msg m)), w)
      | (None, w) \<Rightarrow>
          if i \<notin> o_id ` set (db_outbox (ow_db w)) then (Inl record_not_found, w)
          else (Inr (), w\<lparr>ow_db := (ow_db w)\<lparr>db_outbox :=
                  map (\<lambda>e. if o_id e = i then upd e else e) (db_outbox (ow_db w))\<rparr>\<rparr>))"

definition markEventPublished :: "nat \<Rightarrow> string \<Rightarrow> outbox_world \<Rightarrow> (app_error + unit) \<times> outbox_world" where
  "markEventPublished now i = update_event i
     (\<lambda>e. e\<lparr>o_status := OB_PUBLISHED, o_processedAt := Some now, o_error := None, o_updatedAt := now\<rparr>)"

definition incrementRetry :: "nat \<Rightarrow> string \<Rightarrow> err_msg \<Rightarrow> nat \<Rightarrow> outbox_world \<Rightarrow> (app_error + unit) \<times> outbox_world" where
  "incrementRetry now i msg n = update_event i
     (\<lambda>e. e\<lparr>o_retryCount := n, o_error := Some msg, o_updatedAt := now\<rparr>)"

definition markEventFailed :: "nat \<Rightarrow> string \<Rightarrow> err_msg \<Rightarrow> nat \<Rightarrow> outbox_world \<Rightarrow> (app_error + unit) \<times> outbox_world" where
  "markEventFailed now i msg n = update_event i
     (\<lambda>e. e\<lparr>o_status := OB_FAILED, o_retryCount := n, o_error := Some msg, o_processedAt := Some now,
            o_updatedAt := now\<rparr>)"

record outbox_status_counts =
  oc_pending :: nat
  oc_published :: nat
  oc_failed :: nat
  oc_total :: nat
  oc_recentPending :: "outbox_event list"
  oc_recentFailed :: "outbox_event list"

definition getOutboxStatus :: "db \<Rightarrow> outbox_status_counts" where
  "getOutboxStatus db =
     (let rows = (\<lambda>s. filter (\<lambda>e. o_status e = s) (db_outbox db));
          n = (\<lambda>s. length (rows s))
      in \<lparr>oc_pending = n OB_PENDING, oc_published = n OB_PUBLISHED, oc_failed = n OB_FAILED,
          oc_total = n OB_PENDING + n OB_PUBLISHED + n OB_FAILED,
          oc_recentPending = take 10 (sort_key o_createdAt (rows OB_PENDING)),
          oc_recentFailed = take 10 (rev (sort_key o_createdAt (rows OB_FAILED)))\<rparr>)"

subsection \<open>Publisher\<close>

definition event_routing_key :: "outbox_event \<Rightarrow> string" where
  "event_routing_key e =
     (if truthy (p_routingKey (o_payload e)) then the (p_routingKey (o_payload e))
      else if o_eventType e = ''PAYMENT_FAILED'' then ''payment.failed'' else ''payment.completed'')"

definition event_trace :: "outbox_event \<Rightarrow> string" where
  "event_trace e = (if truthy (p_traceId (o_payload e)) then the (p_traceId (o_payload e))
                    else ''trace-'' @ o_id e)"

definition event_message :: "outbox_event \<Rightarrow> message" where
  "event_message e =
     \<lparr>m_routingKey = event_routing_key e,
      m_headers = \<lparr>h_eventId = Some (o_id e), h_traceId = Some (event_trace e),
        h_transactionId = (if truthy (o_transactionId e) then o_transactionId e else Some (o_aggregateId e)),
        h_eventType = Some (o_eventType e), h_routingKey = Some (event_routing_key e),
        h_retryAttempt = Some (o_retryCount e)\<rparr>,
      m_content = Some (no_content\<lparr>c_eventId := Some (o_id e), c_aggregateId := Some (o_aggregateId e),
        c_eventType := Some (o_eventType e), c_routingKey := Some (event_routing_key e),
        c_payload := Some (o_payload e)\<rparr>)\<rparr>"

definition publish :: "nat \<Rightarrow> outbox_event \<Rightarrow> outbox_world \<Rightarrow> (app_error + unit) \<times> outbox_world" where
  "publish now e w =
     (let (r, b, c) = execute now now None (publishEvent (event_message e)) (ow_breaker w, ow_broker w)
      in (r, w\<lparr>ow_breaker := b, ow_broker := c\<rparr>))"

subsection \<open>Worker\<close>

definition calculateBackoffMs :: "nat \<Rightarrow> nat" where
  "calculateBackoffMs retryCount = min (1000 * 2 ^ retryCount) 30000"

definition not_ready :: "nat \<Rightarrow> outbox_event \<Rightarrow> bool" where
  "not_ready now e \<longleftrightarrow> 0 < o_retryCount e \<and>
     int now - int (o_updatedAt e) < int (calculateBackoffMs (o_retryCount e - 1))"

definition bump :: "(worker_metrics \<Rightarrow> worker_metrics) \<Rightarrow> outbox_world \<Rightarrow> outbox_world" where
  "bump f w = w\<lparr>ow_metrics := f (ow_metrics w)\<rparr>"

text \<open>The inner \<open>try\<close>: publish, count, mark as published.\<close>

definition send_event :: "nat \<Rightarrow> outbox_event \<Rightarrow> outbox_world \<Rightarrow> (app_error + unit) \<times> outbox_world" where
  "send_event now e w =
     (case publish now e w of
        (Inl err, w) \<Rightarrow> (Inl err, w)
      | (Inr _, w) \<Rightarrow>
          markEventPublished now (o_id e) (bump (\<lambda>m. m\<lparr>wm_published := wm_published m + 1\<rparr>) w))"

text \<open>Its \<open>catch\<close>: one more failed attempt.\<close>

definition note_failure :: "nat \<Rightarrow> outbox_event \<Rightarrow> err_msg \<Rightarrow> outbox_world \<Rightarrow> (app_error + unit) \<times> outbox_world" where
  "note_failure now e msg w =
     (let nextRetry = o_retryCount e + 1;
          w = bump (\<lambda>m. m\<lparr>wm_retries := wm_retries m + 1\<rparr>) w
      in if MAX_RETRIES \<le> nextRetry
         then (case markEventFailed now (o_id e) msg nextRetry w of
                 (Inl err, w) \<Rightarrow> (Inl err, w)
               | (Inr _, w) \<Rightarrow> (Inr (), bump (\<lambda>m. m\<lparr>wm_failed := wm_failed m + 1\<rparr>) w))
         else incrementRetry now (o_id e) msg nextRetry w)"

definition process_event :: "nat \<Rightarrow> outbox_event \<Rightarrow> outbox_world \<Rightarrow> (app_error + unit) \<times> outbox_world" where
  "process_event now e w =
     (if o_status e = OB_PUBLISHED \<or> not_ready now e then (Inr (), w)
      else (case send_event now e w of
              (Inr _, w) \<Rightarrow> (Inr (), w)
            | (Inl err, w) \<Rightarrow> note_failure now e (errorMessage err) w))"

text \<open>The loop; an error in the \<open>catch\<close> ends the batch.\<close>

fun process_events :: "nat \<Rightarrow> outbox_event list \<Rightarrow> outbox_world \<Rightarrow> outbox_world" where
  "process_events now [] w = w"
| "process_events now (e # es) w =
     (if ow_stopped w then w
      else (case process_event now e w of
              (Inl _, w) \<Rightarrow> w
            | (Inr _, w) \<Rightarrow> process_events now es w))"

definition processBatch :: "nat \<Rightarrow> outbox_world \<Rightarrow> outbox_world" where
  "processBatch now w =
     (if ow_processing w then w
      else let w = bump (\<lambda>m. m\<lparr>wm_cycles := wm_cycles m + 1\<rparr>) w
           in (case db_fault w of
                 (Some _, w) \<Rightarrow> w
               | (None, w) \<Rightarrow>
                   let es = fetchPendingEvents BATCH_SIZE (ow_db w)
                   in process_events now es (bump (\<lambda>m. m\<lparr>wm_pending := length es\<rparr>) w)))"

end
