(* ===== verification/OutboxProps.thy ===== *)
theory OutboxProps
  imports Outbox "HOL-Library.Code_Target_Nat"
begin

text \<open>
  What the outbox guarantees: an event is never lost silently, it is delivered at least once or
  is FAILED after five failed attempts; a healthy broker gets all pending events in order; how
  long an outage may last.
\<close>

subsection \<open>One event\<close>

abbreviation ow_log :: "outbox_world \<Rightarrow> message list" where
  "ow_log w \<equiv> store (ow_broker w)"

definition published_row :: "nat \<Rightarrow> outbox_event \<Rightarrow> outbox_event" where
  "published_row now e = e\<lparr>o_status := OB_PUBLISHED, o_processedAt := Some now, o_error := None, o_updatedAt := now\<rparr>"

definition retry_row :: "nat \<Rightarrow> err_msg \<Rightarrow> outbox_event \<Rightarrow> outbox_event" where
  "retry_row now msg e = e\<lparr>o_retryCount := o_retryCount e + 1, o_error := Some msg, o_updatedAt := now\<rparr>"

definition failed_row :: "nat \<Rightarrow> err_msg \<Rightarrow> outbox_event \<Rightarrow> outbox_event" where
  "failed_row now msg e = e\<lparr>o_status := OB_FAILED, o_retryCount := o_retryCount e + 1, o_error := Some msg,
     o_processedAt := Some now, o_updatedAt := now\<rparr>"

lemmas row_defs = published_row_def retry_row_def failed_row_def

text \<open>The ways a row may change while its event is processed, with the log before and after.\<close>

inductive event_step :: "nat \<Rightarrow> outbox_event \<Rightarrow> outbox_event \<Rightarrow> message list \<Rightarrow> message list \<Rightarrow> bool" where
  unchanged: "q' = q \<or> q' = q @ [event_message e] \<Longrightarrow> event_step now e e q q'"
| sent: "event_step now e (published_row now e) q (q @ [event_message e])"
| again: "o_retryCount e + 1 < 5 \<Longrightarrow> q' = q \<or> q' = q @ [event_message e] \<Longrightarrow>
    event_step now e (retry_row now msg e) q q'"
| given_up: "5 \<le> o_retryCount e + 1 \<Longrightarrow> q' = q \<or> q' = q @ [event_message e] \<Longrightarrow>
    event_step now e (failed_row now msg e) q q'"

inductive_cases event_stepE: "event_step now e e' q q'"

definition with_row :: "outbox_event \<Rightarrow> outbox_event list \<Rightarrow> outbox_event list" where
  "with_row e' rows = map (\<lambda>r. if o_id r = o_id e' then e' else r) rows"

lemma with_row_same: "distinct (map o_id rows) \<Longrightarrow> e \<in> set rows \<Longrightarrow> with_row e rows = rows"
  unfolding with_row_def by (rule map_idI) (auto dest: distinct_map_eq)

lemma with_row_ids [simp]: "map o_id (with_row e rows) = map o_id rows"
  by (induction rows) (auto simp: with_row_def)

lemma set_with_row: "r \<in> set (with_row e rows) \<longleftrightarrow>
    (r = e \<and> o_id e \<in> o_id ` set rows) \<or> (r \<in> set rows \<and> o_id r \<noteq> o_id e)"
proof -
  have "o_id e \<in> o_id ` set rows \<longleftrightarrow> (\<exists>x \<in> set rows. o_id x = o_id e)"
    by (metis (no_types, lifting) image_iff)
  then show ?thesis by (auto simp: with_row_def)
qed

lemma event_step_id: "event_step now e e' q q' \<Longrightarrow> o_id e' = o_id e"
  by (auto elim!: event_stepE simp: row_defs)

lemma publish_cases:
  assumes "publish now e w = (r, w')"
  shows "ow_db w' = ow_db w \<and> ow_stopped w' = ow_stopped w \<and> ow_dbFaults w' = ow_dbFaults w \<and>
     (r = Inr () \<and> ow_log w' = ow_log w @ [event_message e] \<or>
      (\<exists>err. r = Inl err) \<and> (ow_log w' = ow_log w \<or> ow_log w' = ow_log w @ [event_message e]))"
proof -
  obtain g b where g: "admit now (ow_breaker w) = (g, b)" by force
  obtain x c where x: "publishEvent (event_message e) (ow_broker w) = (x, c)" by force
  show ?thesis
    using assms publishEvent_cases[of "event_message e" "ow_broker w"] g x
    by (cases r; cases x) (auto simp: publish_def execute_no_fallback split: sum.splits)
qed

lemma update_event_cases:
  assumes "update_event i upd w = (r, w')" and "i \<in> o_id ` set (db_outbox (ow_db w))"
  shows "ow_broker w' = ow_broker w \<and> ow_stopped w' = ow_stopped w \<and>
     (r = Inr () \<and> db_outbox (ow_db w') = map (\<lambda>e. if o_id e = i then upd e else e) (db_outbox (ow_db w)) \<or>
      (\<exists>err. r = Inl err) \<and> ow_db w' = ow_db w)"
  using assms by (auto simp: update_event_def db_fault_def split: list.splits option.splits)

lemma map_upd_with_row:
  assumes "distinct (map o_id rows)" and "e \<in> set rows" and "o_id (upd e) = o_id e"
  shows "map (\<lambda>r. if o_id r = o_id e then upd r else r) rows = with_row (upd e) rows"
  unfolding with_row_def using assms by (intro map_cong) (auto dest: distinct_map_eq)

lemma bump_fields [simp]:
  "ow_db (bump f w) = ow_db w" "ow_broker (bump f w) = ow_broker w" "ow_stopped (bump f w) = ow_stopped w"
  "ow_dbFaults (bump f w) = ow_dbFaults w" "ow_breaker (bump f w) = ow_breaker w"
  by (simp_all add: bump_def)

lemma update_row:
  assumes "distinct (map o_id (db_outbox (ow_db w)))" and "e \<in> set (db_outbox (ow_db w))"
    and "update_event (o_id e) upd w = (r, w')" and "o_id (upd e) = o_id e"
  shows "ow_broker w' = ow_broker w \<and> ow_stopped w' = ow_stopped w \<and>
     (r = Inr () \<and> db_outbox (ow_db w') = with_row (upd e) (db_outbox (ow_db w)) \<or>
      (\<exists>err. r = Inl err) \<and> db_outbox (ow_db w') = with_row e (db_outbox (ow_db w)))"
proof -
  have "o_id e \<in> o_id ` set (db_outbox (ow_db w))" using assms(2) by simp
  from update_event_cases[OF assms(3) this] show ?thesis
    using map_upd_with_row[of _ e upd, OF assms(1,2,4)] with_row_same[OF assms(1,2)] by auto
qed

lemma note_failure_step:
  assumes "note_failure now e msg w = (r, w')"
    and "distinct (map o_id (db_outbox (ow_db w)))" and "e \<in> set (db_outbox (ow_db w))"
    and "ow_log w = q \<or> ow_log w = q @ [event_message e]"
  shows "\<exists>e'. event_step now e e' q (ow_log w') \<and>
     db_outbox (ow_db w') = with_row e' (db_outbox (ow_db w)) \<and> ow_stopped w' = ow_stopped w"
proof -
  let ?w = "bump (\<lambda>m. m\<lparr>wm_retries := wm_retries m + 1\<rparr>) w"
  note row = update_row[of ?w e, simplified bump_fields, OF assms(2,3)]
  show ?thesis
  proof (cases "MAX_RETRIES \<le> o_retryCount e + 1")
    case True
    then have five: "5 \<le> o_retryCount e + 1" by (simp add: MAX_RETRIES_def)
    obtain r3 w3 where m: "markEventFailed now (o_id e) msg (o_retryCount e + 1) ?w = (r3, w3)" by force
    then have w3: "ow_broker w' = ow_broker w3" "ow_db w' = ow_db w3" "ow_stopped w' = ow_stopped w3"
      using assms(1) True by (auto simp: note_failure_def Let_def split: sum.splits)
    have "ow_broker w3 = ow_broker w \<and> ow_stopped w3 = ow_stopped w \<and>
        (db_outbox (ow_db w3) = with_row (failed_row now msg e) (db_outbox (ow_db w)) \<or>
         db_outbox (ow_db w3) = with_row e (db_outbox (ow_db w)))"
      using row[OF m[unfolded markEventFailed_def]] unfolding failed_row_def by simp blast
    with w3 show ?thesis
      using event_step.given_up[OF five assms(4), of now msg] event_step.unchanged[OF assms(4), of now] by auto
  next
    case False
    then have five: "o_retryCount e + 1 < 5" by (simp add: MAX_RETRIES_def)
    have m: "incrementRetry now (o_id e) msg (o_retryCount e + 1) ?w = (r, w')"
      using assms(1) False by (simp add: note_failure_def Let_def)
    have "ow_broker w' = ow_broker w \<and> ow_stopped w' = ow_stopped w \<and>
        (db_outbox (ow_db w') = with_row (retry_row now msg e) (db_outbox (ow_db w)) \<or>
         db_outbox (ow_db w') = with_row e (db_outbox (ow_db w)))"
      using row[OF m[unfolded incrementRetry_def]] unfolding retry_row_def by simp blast
    then show ?thesis
      using event_step.again[OF five assms(4), of now msg] event_step.unchanged[OF assms(4), of now] by auto
  qed
qed

lemma process_event_step:
  assumes "distinct (map o_id (db_outbox (ow_db w)))" and "e \<in> set (db_outbox (ow_db w))"
    and "process_event now e w = (r, w')"
  shows "\<exists>e'. event_step now e e' (ow_log w) (ow_log w') \<and>
     db_outbox (ow_db w') = with_row e' (db_outbox (ow_db w)) \<and> ow_stopped w' = ow_stopped w"
proof (cases "o_status e = OB_PUBLISHED \<or> not_ready now e")
  case True
  then show ?thesis using assms(3) with_row_same[OF assms(1,2)]
    by (auto simp: process_event_def intro: event_step.unchanged)
next
  case False
  obtain rp wp where p: "publish now e w = (rp, wp)" by force
  note pc = publish_cases[OF p]
  show ?thesis
  proof (cases rp)
    case (Inl err)
    then have "note_failure now e (errorMessage err) wp = (r, w')"
      using False assms(3) p by (simp add: process_event_def send_event_def)
    from note_failure_step[OF this, of "ow_log w"] show ?thesis using pc Inl assms(1,2) by auto
  next
    case (Inr u)
    let ?wb = "bump (\<lambda>m. m\<lparr>wm_published := wm_published m + 1\<rparr>) wp"
    obtain rm wm where m: "markEventPublished now (o_id e) ?wb = (rm, wm)" by force
    have q: "ow_log wp = ow_log w @ [event_message e]" using pc Inr by auto
    have mc: "ow_broker wm = ow_broker wp \<and> ow_stopped wm = ow_stopped w \<and>
        (rm = Inr () \<and> db_outbox (ow_db wm) = with_row (published_row now e) (db_outbox (ow_db w)) \<or>
         (\<exists>err. rm = Inl err) \<and> db_outbox (ow_db wm) = with_row e (db_outbox (ow_db w)))"
      using update_row[of ?wb e, simplified bump_fields, OF _ _ m[unfolded markEventPublished_def]]
        assms(1,2) pc unfolding published_row_def by simp
    show ?thesis
    proof (cases rm)
      case (Inl err)
      then have f: "note_failure now e (errorMessage err) wm = (r, w')"
        using False assms(3) p Inr m by (simp add: process_event_def send_event_def)
      have rows: "db_outbox (ow_db wm) = db_outbox (ow_db w)"
        using mc Inl with_row_same[OF assms(1,2)] by simp
      show ?thesis using note_failure_step[OF f, of "ow_log w"] rows mc q assms(1,2) by simp
    next
      case (Inr v)
      then have "w' = wm"
        using False assms(3) p \<open>rp = Inr u\<close> m by (simp add: process_event_def send_event_def)
      then show ?thesis using mc q Inr event_step.sent[of now e "ow_log w"] by auto
    qed
  qed
qed


subsection \<open>Invariant\<close>

definition sent_for :: "message list \<Rightarrow> string \<Rightarrow> bool" where
  "sent_for q i \<longleftrightarrow> (\<exists>m \<in> set q. h_eventId (m_headers m) = Some i)"

definition event_ok :: "message list \<Rightarrow> outbox_event \<Rightarrow> bool" where
  "event_ok q e \<longleftrightarrow>
     (case o_status e of
        OB_PENDING \<Rightarrow> o_retryCount e < 5
      | OB_PUBLISHED \<Rightarrow> sent_for q (o_id e)
      | OB_FAILED \<Rightarrow> o_retryCount e = 5 \<and> o_error e \<noteq> None)"

definition outbox_ok :: "outbox_world \<Rightarrow> bool" where
  "outbox_ok w \<longleftrightarrow> distinct (map o_id (db_outbox (ow_db w))) \<and>
     (\<forall>e \<in> set (db_outbox (ow_db w)). event_ok (ow_log w) e)"

lemma sent_for_append [simp]: "sent_for (q @ [m]) i \<longleftrightarrow> sent_for q i \<or> h_eventId (m_headers m) = Some i"
  by (auto simp: sent_for_def)

lemma event_ok_append: "event_ok q e \<Longrightarrow> event_ok (q @ [m]) e"
  by (auto simp: event_ok_def split: outbox_status.splits)

lemma event_message_id [simp]: "h_eventId (m_headers (event_message e)) = Some (o_id e)"
  by (simp add: event_message_def)

lemma event_step_ok:
  assumes "event_step now e e' q q'" and "event_ok q e" and "o_status e = OB_PENDING"
  shows "event_ok q' e' \<and> (\<exists>ms. q' = q @ ms)"
  using assms by (auto elim!: event_stepE simp: row_defs event_ok_def split: outbox_status.splits)

text \<open>The rows a batch works on are pending; the others stay as they are.\<close>

lemma process_events_inv:
  assumes "outbox_ok w" and "set es \<subseteq> set (db_outbox (ow_db w))" and "distinct (map o_id es)"
    and "\<forall>e \<in> set es. o_status e = OB_PENDING"
  shows "outbox_ok (process_events now es w) \<and> (\<exists>ms. ow_log (process_events now es w) = ow_log w @ ms) \<and>
     map o_id (db_outbox (ow_db (process_events now es w))) = map o_id (db_outbox (ow_db w)) \<and>
     (\<forall>r \<in> set (db_outbox (ow_db w)). o_status r \<noteq> OB_PENDING \<longrightarrow>
        r \<in> set (db_outbox (ow_db (process_events now es w))))"
  using assms
proof (induction es arbitrary: w)
  case Nil
  then show ?case by simp
next
  case (Cons e es)
  obtain r w1 where p: "process_event now e w = (r, w1)" by force
  have d: "distinct (map o_id (db_outbox (ow_db w)))" and e: "e \<in> set (db_outbox (ow_db w))"
    using Cons.prems(1,2) by (auto simp: outbox_ok_def)
  from process_event_step[OF d e p] obtain e' where
    step: "event_step now e e' (ow_log w) (ow_log w1)"
      "db_outbox (ow_db w1) = with_row e' (db_outbox (ow_db w))" by blast
  note id = event_step_id[OF step(1)]
  have ok: "event_ok (ow_log w1) e'" "\<exists>ms. ow_log w1 = ow_log w @ ms"
    using event_step_ok[OF step(1)] Cons.prems(1,4) e by (auto simp: outbox_ok_def)
  have "ow_log w1 = ow_log w \<or> (\<exists>m. ow_log w1 = ow_log w @ [m])"
    using step(1) by (auto elim!: event_stepE)
  then have "outbox_ok w1"
    using Cons.prems(1) ok(1) step(2) event_ok_append by (auto simp: outbox_ok_def set_with_row)
  moreover have "set es \<subseteq> set (db_outbox (ow_db w1))"
  proof
    fix x assume x: "x \<in> set es"
    then have "o_id x \<in> o_id ` set es" by (rule imageI)
    then have "o_id x \<noteq> o_id e" using Cons.prems(3) by (simp only: distinct.simps list.map set_map) metis
    moreover have "x \<in> set (db_outbox (ow_db w))" using Cons.prems(2) x by auto
    ultimately show "x \<in> set (db_outbox (ow_db w1))" using step(2) id by (simp add: set_with_row)
  qed
  ultimately have IH: "outbox_ok (process_events now es w1) \<and>
     (\<exists>ms. ow_log (process_events now es w1) = ow_log w1 @ ms) \<and>
     map o_id (db_outbox (ow_db (process_events now es w1))) = map o_id (db_outbox (ow_db w1)) \<and>
     (\<forall>r \<in> set (db_outbox (ow_db w1)). o_status r \<noteq> OB_PENDING \<longrightarrow>
        r \<in> set (db_outbox (ow_db (process_events now es w1))))"
    using Cons.IH[of w1] Cons.prems(3,4) by simp
  have settled: "r \<in> set (db_outbox (ow_db w1))" if "r \<in> set (db_outbox (ow_db w))" "o_status r \<noteq> OB_PENDING" for r
  proof -
    have "o_id r \<noteq> o_id e" using that e d Cons.prems(4) by (auto dest: distinct_map_eq)
    then show ?thesis using that step(2) id by (simp add: set_with_row)
  qed
  show ?case using IH settled ok(2) p step(2) \<open>outbox_ok w1\<close> Cons.prems(1)
    by (cases r) auto
qed

lemma set_fetchPending:
  "set (fetchPendingEvents n db) \<subseteq> {e \<in> set (db_outbox db). o_status e = OB_PENDING}"
  unfolding fetchPendingEvents_def by (auto dest: in_set_takeD)

lemma distinct_fetchPending:
  "distinct (map o_id (db_outbox db)) \<Longrightarrow> distinct (map o_id (fetchPendingEvents n db))"
  unfolding fetchPendingEvents_def take_map[symmetric]
  by (rule distinct_take) (auto simp: distinct_map inj_on_def)

lemma processBatch_inv:
  assumes "outbox_ok w"
  shows "outbox_ok (processBatch now w) \<and> (\<exists>ms. ow_log (processBatch now w) = ow_log w @ ms) \<and>
     map o_id (db_outbox (ow_db (processBatch now w))) = map o_id (db_outbox (ow_db w)) \<and>
     (\<forall>r \<in> set (db_outbox (ow_db w)). o_status r \<noteq> OB_PENDING \<longrightarrow>
        r \<in> set (db_outbox (ow_db (processBatch now w))))"
proof (cases "ow_processing w")
  case True
  then show ?thesis using assms by (simp add: processBatch_def)
next
  case False
  let ?w = "bump (\<lambda>m. m\<lparr>wm_cycles := wm_cycles m + 1\<rparr>) w"
  obtain f w1 where f: "db_fault ?w = (f, w1)" by force
  have w1: "ow_db w1 = ow_db w" "ow_broker w1 = ow_broker w"
    using f by (auto simp: db_fault_def split: list.splits)
  let ?es = "fetchPendingEvents BATCH_SIZE (ow_db w1)"
  let ?w2 = "bump (\<lambda>m. m\<lparr>wm_pending := length ?es\<rparr>) w1"
  have ok: "outbox_ok ?w2" using assms w1 by (simp add: outbox_ok_def)
  have "distinct (map o_id (db_outbox (ow_db w)))" using assms by (simp add: outbox_ok_def)
  note inv = process_events_inv[OF ok, of ?es now]
  show ?thesis
  proof (cases f)
    case None
    then have eq: "processBatch now w = process_events now ?es ?w2"
      using False f by (simp add: processBatch_def Let_def)
    show ?thesis unfolding eq
      using inv set_fetchPending[of BATCH_SIZE "ow_db w1"] distinct_fetchPending[of "ow_db w1" BATCH_SIZE]
        \<open>distinct (map o_id (db_outbox (ow_db w)))\<close> w1 by auto
  next
    case (Some m)
    then have "processBatch now w = w1" using False f by (simp add: processBatch_def Let_def)
    then show ?thesis using assms w1 by (auto simp: outbox_ok_def)
  qed
qed

text \<open>
  A history of the outbox: payments record fresh events, the worker polls under whatever faults
  and breaker state, it is stopped.
\<close>

datatype outbox_op = Poll nat "string option list" "fault list" breaker | Record_event outbox_event | Stop_worker

fun outbox_exec :: "outbox_op \<Rightarrow> outbox_world \<Rightarrow> outbox_world" where
  "outbox_exec (Poll now dbf brf b) w =
     processBatch now (w\<lparr>ow_dbFaults := dbf, ow_broker := (ow_broker w)\<lparr>faults := brf\<rparr>, ow_breaker := b\<rparr>)"
| "outbox_exec (Record_event e) w =
     (if o_id e \<in> o_id ` set (db_outbox (ow_db w)) \<or> o_status e \<noteq> OB_PENDING \<or> o_retryCount e \<noteq> 0 then w
      else w\<lparr>ow_db := (ow_db w)\<lparr>db_outbox := db_outbox (ow_db w) @ [e]\<rparr>\<rparr>)"
| "outbox_exec Stop_worker w = w\<lparr>ow_stopped := True\<rparr>"

definition outbox_grows :: "outbox_world \<Rightarrow> outbox_world \<Rightarrow> bool" where
  "outbox_grows w w' \<longleftrightarrow>
     o_id ` set (db_outbox (ow_db w)) \<subseteq> o_id ` set (db_outbox (ow_db w')) \<and>
     (\<forall>e \<in> set (db_outbox (ow_db w)). o_status e \<noteq> OB_PENDING \<longrightarrow> e \<in> set (db_outbox (ow_db w'))) \<and>
     (\<exists>ms. ow_log w' = ow_log w @ ms)"

lemma outbox_grows_refl: "outbox_grows w w"
  by (simp add: outbox_grows_def)

lemma outbox_grows_trans:
  assumes "outbox_grows w1 w2" and "outbox_grows w2 w3"
  shows "outbox_grows w1 w3"
proof -
  from assms obtain ms ms' where "ow_log w2 = ow_log w1 @ ms" "ow_log w3 = ow_log w2 @ ms'"
    unfolding outbox_grows_def by blast
  then have "\<exists>ms. ow_log w3 = ow_log w1 @ ms" by simp
  with assms show ?thesis unfolding outbox_grows_def by (meson subset_trans)
qed

lemma event_ok_fresh: "o_status e = OB_PENDING \<Longrightarrow> o_retryCount e = 0 \<Longrightarrow> event_ok q e"
  by (simp add: event_ok_def)

lemma outbox_exec_inv:
  assumes "outbox_ok w"
  shows "outbox_ok (outbox_exec x w) \<and> outbox_grows w (outbox_exec x w)"
proof (cases x)
  case (Poll now dbf brf b)
  let ?w = "w\<lparr>ow_dbFaults := dbf, ow_broker := (ow_broker w)\<lparr>faults := brf\<rparr>, ow_breaker := b\<rparr>"
  have "outbox_ok ?w" using assms by (simp add: outbox_ok_def)
  from processBatch_inv[OF this, of now] have
    "outbox_ok (processBatch now ?w)" "outbox_grows w (processBatch now ?w)"
    unfolding outbox_grows_def set_map[symmetric] by auto
  with Poll show ?thesis by simp
next
  case (Record_event e)
  then show ?thesis using assms event_ok_fresh[of e] by (auto simp: outbox_ok_def outbox_grows_def)
next
  case Stop_worker
  then show ?thesis using assms by (simp add: outbox_ok_def outbox_grows_def)
qed

lemma outbox_run_inv:
  "outbox_ok w \<Longrightarrow> outbox_ok (fold outbox_exec xs w) \<and> outbox_grows w (fold outbox_exec xs w)"
proof (induction xs arbitrary: w)
  case (Cons x xs)
  note step = outbox_exec_inv[OF Cons.prems, of x]
  with Cons.IH[of "outbox_exec x w"] show ?case
    using outbox_grows_trans[of w "outbox_exec x w"] by simp
qed (simp add: outbox_grows_refl)

definition sample_event :: "nat \<Rightarrow> string \<Rightarrow> outbox_event" where
  "sample_event t i = \<lparr>o_id = i, o_aggregateType = ''TRANSACTION'', o_aggregateId = ''t1'',
     o_eventType = ''PAYMENT_COMPLETED'', o_payload = no_payload, o_status = OB_PENDING,
     o_retryCount = 0, o_error = None, o_processedAt = None, o_createdAt = t, o_updatedAt = t,
     o_transactionId = Some ''t1''\<rparr>"

definition empty_db :: db where
  "empty_db = \<lparr>db_users = [], db_accounts = [], db_transactions = [], db_entries = [], db_outbox = [],
     db_audits = [], db_notifications = [], db_now = 0, db_seq = 0\<rparr>"

definition outbox_with :: "outbox_event list \<Rightarrow> outbox_world" where
  "outbox_with es = \<lparr>ow_db = empty_db\<lparr>db_outbox := es\<rparr>, ow_dbFaults = [],
     ow_broker = \<lparr>store = [], faults = []\<rparr>, ow_breaker = new_breaker ''rabbitmq-publisher'',
     ow_stopped = False, ow_processing = False,
     ow_metrics = \<lparr>wm_pending = 0, wm_published = 0, wm_failed = 0, wm_retries = 0, wm_cycles = 0\<rparr>\<rparr>"



subsection \<open>Delivery\<close>

lemma publish_up:
  assumes "healthy (ow_broker w)" and "cb_state (ow_breaker w) = CB_CLOSED"
  shows "\<exists>b. cb_state b = CB_CLOSED \<and> publish now e w =
    (Inr (), w\<lparr>ow_breaker := b, ow_broker := (ow_broker w)\<lparr>store := ow_log w @ [event_message e]\<rparr>\<rparr>)"
proof -
  have "cb_state (on_success now (snd (admit now (ow_breaker w)))) = CB_CLOSED"
    "fst (admit now (ow_breaker w)) = Inr ()"
    using assms(2) by (simp_all add: admit_def on_success_def)
  then show ?thesis using assms(1)
    by (cases "admit now (ow_breaker w)")
      (auto simp: publish_def execute_no_fallback settle_def publishEvent_healthy)
qed

lemma process_event_up:
  assumes "healthy (ow_broker w)" and "cb_state (ow_breaker w) = CB_CLOSED" and "ow_dbFaults w = []"
    and "distinct (map o_id (db_outbox (ow_db w)))" and "e \<in> set (db_outbox (ow_db w))"
    and "o_status e = OB_PENDING" and "\<not> not_ready now e"
  shows "\<exists>w'. process_event now e w = (Inr (), w') \<and> healthy (ow_broker w') \<and>
     cb_state (ow_breaker w') = CB_CLOSED \<and> ow_dbFaults w' = [] \<and> ow_stopped w' = ow_stopped w \<and>
     ow_log w' = ow_log w @ [event_message e] \<and>
     db_outbox (ow_db w') = with_row (published_row now e) (db_outbox (ow_db w))"
proof -
  from publish_up[OF assms(1,2), of now e] obtain b where
    p: "cb_state b = CB_CLOSED" "publish now e w =
      (Inr (), w\<lparr>ow_breaker := b, ow_broker := (ow_broker w)\<lparr>store := ow_log w @ [event_message e]\<rparr>\<rparr>)"
    by blast
  have row: "map (\<lambda>r. if o_id r = o_id e then r\<lparr>o_status := OB_PUBLISHED, o_processedAt := Some now,
        o_error := None, o_updatedAt := now\<rparr> else r) (db_outbox (ow_db w)) =
      with_row (published_row now e) (db_outbox (ow_db w))"
    using map_upd_with_row[OF assms(4,5), of "published_row now"] unfolding published_row_def by simp
  show ?thesis
    using assms p row
    by (simp add: process_event_def send_event_def markEventPublished_def update_event_def db_fault_def
        bump_def)
qed

lemma process_events_up:
  assumes "healthy (ow_broker w)" and "cb_state (ow_breaker w) = CB_CLOSED" and "ow_dbFaults w = []"
    and "\<not> ow_stopped w" and "distinct (map o_id (db_outbox (ow_db w)))" and "distinct (map o_id es)"
    and "\<forall>e \<in> set es. e \<in> set (db_outbox (ow_db w)) \<and> o_status e = OB_PENDING \<and> \<not> not_ready now e"
  shows "ow_log (process_events now es w) = ow_log w @ map event_message es \<and>
     db_outbox (ow_db (process_events now es w)) =
       map (\<lambda>e. if e \<in> set es then published_row now e else e) (db_outbox (ow_db w))"
  using assms
proof (induction es arbitrary: w)
  case Nil
  then show ?case by simp
next
  case (Cons e es)
  from process_event_up[OF Cons.prems(1,2,3,5), of e now] Cons.prems(7) obtain w' where
    w': "process_event now e w = (Inr (), w')" "healthy (ow_broker w')" "cb_state (ow_breaker w') = CB_CLOSED"
      "ow_dbFaults w' = []" "ow_stopped w' = ow_stopped w" "ow_log w' = ow_log w @ [event_message e]"
      "db_outbox (ow_db w') = with_row (published_row now e) (db_outbox (ow_db w))" by auto
  have e: "e \<in> set (db_outbox (ow_db w))" and ids: "o_id (published_row now e) = o_id e"
    using Cons.prems(7) by (simp_all add: published_row_def)
  have rest: "\<forall>x \<in> set es. x \<in> set (db_outbox (ow_db w')) \<and> o_status x = OB_PENDING \<and> \<not> not_ready now x"
  proof
    fix x assume x: "x \<in> set es"
    then have "o_id x \<in> o_id ` set es" by (rule imageI)
    then have "o_id x \<noteq> o_id e" using Cons.prems(6) by (simp only: distinct.simps list.map set_map) metis
    with x show "x \<in> set (db_outbox (ow_db w')) \<and> o_status x = OB_PENDING \<and> \<not> not_ready now x"
      using Cons.prems(7) ids unfolding w'(7) set_with_row by simp
  qed
  have IH: "ow_log (process_events now es w') = ow_log w' @ map event_message es"
    "db_outbox (ow_db (process_events now es w')) =
       map (\<lambda>e. if e \<in> set es then published_row now e else e) (db_outbox (ow_db w'))"
    using Cons.IH[OF w'(2,3,4) _ _ _ rest] Cons.prems(4,5,6) w'(5,7) by simp_all
  have pub: "published_row now e \<notin> set es"
    using Cons.prems(7) by (auto simp: published_row_def)
  have "map (\<lambda>r. if r \<in> set es then published_row now r else r) (db_outbox (ow_db w')) =
      map (\<lambda>r. if r \<in> set (e # es) then published_row now r else r) (db_outbox (ow_db w))"
    unfolding w'(7) with_row_def map_map
  proof (rule map_cong[OF refl])
    fix r assume r: "r \<in> set (db_outbox (ow_db w))"
    show "((\<lambda>r. if r \<in> set es then published_row now r else r) \<circ>
        (\<lambda>r. if o_id r = o_id (published_row now e) then published_row now e else r)) r =
        (if r \<in> set (e # es) then published_row now r else r)"
      using distinct_map_eq[OF Cons.prems(5) r e] pub ids by auto
  qed
  with IH w' Cons.prems(4) show ?case by simp
qed

lemma backoff_bounded: "calculateBackoffMs n \<le> 30000"
  by (simp add: calculateBackoffMs_def)



text \<open>How short an outage may be. The five attempts are spent within 16 seconds of polling (the
  waits double from one second), and an open circuit breaker spends them without asking the
  broker: an event recorded at the start of an outage is FAILED 16 seconds later and no poll ever
  sends it, although the breaker would only probe the broker again after 30 seconds.\<close>

lemma outage_fails_events:
  "let down = (\<lambda>w. w\<lparr>ow_broker := (ow_broker w)\<lparr>faults := replicate 2 (Refused ''ECONNREFUSED'')\<rparr>\<rparr>);
       up = (\<lambda>w. w\<lparr>ow_broker := (ow_broker w)\<lparr>faults := []\<rparr>\<rparr>);
       w16 = fold (\<lambda>now w. processBatch now (down w)) [0, 2000, 4000, 6000, 8000, 10000, 12000, 14000, 16000]
               (outbox_with [sample_event 0 ''e1'', sample_event 0 ''e2'']);
       w60 = fold (\<lambda>now w. processBatch now (up w)) [18000, 46000, 60000] w16
   in map o_status (db_outbox (ow_db w16)) = [OB_FAILED, OB_FAILED] \<and>
      cb_state (ow_breaker w16) = CB_OPEN \<and> 0 < failFastCount (cb_stats (ow_breaker w16)) \<and>
      map o_status (db_outbox (ow_db w60)) = [OB_FAILED, OB_FAILED] \<and> ow_log w60 = []"
  by code_simp

end
