(* ===== verification/Notification.thy ===== *)
theory Notification
  imports Messages GatewayAuth Paging
begin

text \<open>
  The notification service: \<open>services/notificationService.js\<close>, \<open>services/notificationConsumer.js\<close>,
  \<open>repositories/notificationRepository.js\<close>, the controller and \<open>middleware/authMiddleware.js\<close>.
  A consumed message is handled in one step here; handlers of different messages can interleave
  at the simulated delivery, so the handler is split there (\<open>lookup\<close> before, \<open>deliver_new\<close> after).
  The broker and its queues are those of \<open>Messages\<close>; times, generated identifiers and the text
  of a number are inputs.
\<close>

record notif_env =
  ne_id :: "nat \<Rightarrow> string" \<comment> \<open>identifiers of new rows\<close>
  ne_show :: "rat \<Rightarrow> string" \<comment> \<open>a number in a template string\<close>
  ne_now :: string \<comment> \<open>\<open>Date.now()\<close> in a template string\<close>

record notif_metrics =
  messagesConsumed :: nat
  successfulDeliveries :: nat
  failedDeliveries :: nat
  dlqCount :: nat

record notification =
  nf_eventId :: string
  nf_type :: notif_type
  nf_recipient :: string
  nf_subject :: string
  nf_body :: string

record notif_world =
  nw_db :: db
  nw_dbFaults :: "string option list" \<comment> \<open>outcome of the next statements, \<^const>\<open>None\<close> is success\<close>
  nw_published :: "message list" \<comment> \<open>retries put on the exchange\<close>
  nw_dlq :: "message list"
  nw_delivered :: "notification list"
  nw_acked :: nat
  nw_metrics :: notif_metrics

definition NOTIF_MAX_RETRIES :: nat where "NOTIF_MAX_RETRIES = 3"

subsection \<open>Service\<close>

definition resolveRecipient :: "payload \<Rightarrow> notif_type \<Rightarrow> string" where
  "resolveRecipient p ty =
     (if truthy (p_recipient p) then the (p_recipient p)
      else if truthy (p_email p) then the (p_email p)
      else if truthy (p_phone p) then the (p_phone p)
      else if truthy (p_userEmail p) then the (p_userEmail p)
      else if ty = SMS then (if truthy (p_phoneNumber p) then the (p_phoneNumber p) else ''+15551234567'')
      else ''customer@vaultcore.io'')"

text \<open>Subject, body and template by routing key.\<close>

definition formatMessage :: "notif_env \<Rightarrow> string \<Rightarrow> payload \<Rightarrow> string \<times> string \<times> string" where
  "formatMessage env routingKey p =
     (let amount = (case p_amount p of None \<Rightarrow> ''0.00'' | Some a \<Rightarrow> if a = 0 then ''0.00'' else ne_show env a);
          currency = or_else (p_currency p) ''USD'';
          ref = or_else (p_referenceId p) (or_else (p_transactionId p) ''N/A'')
      in if routingKey \<in> {''payment.completed'', ''PAYMENT_COMPLETED''} then
           (''VaultCore Transfer Completed'',
            ''Your payment of '' @ amount @ '' '' @ currency @ '' with reference '' @ ref @ '' was completed successfully.'',
            ''PAYMENT_COMPLETED_TEMPLATE'')
         else if routingKey \<in> {''payment.failed'', ''PAYMENT_FAILED''} then
           (''VaultCore Transfer Failed'',
            ''Your payment of '' @ amount @ '' '' @ currency @ '' with reference '' @ ref @ '' has failed. Reason: ''
              @ or_else (p_reason p) ''Insufficient funds or verification error'' @ ''.'',
            ''PAYMENT_FAILED_TEMPLATE'')
         else if routingKey = ''payment.reversed'' then
           (''VaultCore Transfer Reversed'',
            ''Your transfer with reference '' @ ref @ '' of '' @ amount @ '' '' @ currency @ '' has been reversed.'',
            ''PAYMENT_REVERSED_TEMPLATE'')
         else if routingKey = ''notification.sms'' then
           (''VaultCore SMS Alert'',
            or_else (p_message p) (''VaultCore Alert: Payment '' @ ref @ '' of '' @ amount @ '' '' @ currency @ '' processed.''),
            ''SMS_ALERT_TEMPLATE'')
         else
           (or_else (p_subject p) ''VaultCore Account Notification'',
            or_else (p_message p) (or_else (p_body p) (''Notification regarding transaction '' @ ref @ ''.'')),
            ''GENERIC_NOTIFICATION_TEMPLATE''))"

definition deliverNotification ::
  "string \<Rightarrow> notif_type \<Rightarrow> string \<Rightarrow> string \<Rightarrow> string \<Rightarrow> payload \<Rightarrow> notif_world \<Rightarrow> (app_error + unit) \<times> notif_world" where
  "deliverNotification eventId ty recipient subject body p w =
     (if p_simulateFailure p
      then (Inl (PlainError None (Msg (''Simulated delivery failure to '' @ recipient))), w)
      else (Inr (), w\<lparr>nw_delivered := nw_delivered w @
             [\<lparr>nf_eventId = eventId, nf_type = ty, nf_recipient = recipient, nf_subject = subject, nf_body = body\<rparr>]\<rparr>))"

subsection \<open>Repository\<close>

definition nf_fault :: "notif_world \<Rightarrow> string option \<times> notif_world" where
  "nf_fault w = (case nw_dbFaults w of [] \<Rightarrow> (None, w) | f # fs \<Rightarrow> (f, w\<lparr>nw_dbFaults := fs\<rparr>))"

definition audit_of :: "string \<Rightarrow> db \<Rightarrow> notification_audit option" where
  "audit_of i db = List.find (\<lambda>a. n_eventId a = i) (db_notifications db)"

definition findByEventId :: "string \<Rightarrow> notif_world \<Rightarrow> (app_error + notification_audit option) \<times> notif_world" where
  "findByEventId i w =
     (case nf_fault w of
        (Some m, w) \<Rightarrow> (Inl (PlainError None (Msg m)), w)
      | (None, w) \<Rightarrow> (Inr (audit_of i (nw_db w)), w))"

definition createAudit ::
  "notif_env \<Rightarrow> (string \<Rightarrow> nat \<Rightarrow> notification_audit) \<Rightarrow> notif_world \<Rightarrow> (app_error + unit) \<times> notif_world" where
  "createAudit env mk w =
     (case nf_fault w of
        (Some m, w) \<Rightarrow> (Inl (PlainError None (Msg m)), w)
      | (None, w) \<Rightarrow>
          let db = nw_db w; a = mk (ne_id env (db_seq db)) (db_now db)
          in if audit_of (n_eventId a) db \<noteq> None then (Inl unique_violation, w)
             else (Inr (), w\<lparr>nw_db := db\<lparr>db_notifications := db_notifications db @ [a], db_seq := db_seq db + 1\<rparr>\<rparr>))"

subsection \<open>Consumer\<close>

definition count :: "(notif_metrics \<Rightarrow> notif_metrics) \<Rightarrow> notif_world \<Rightarrow> notif_world" where
  "count f w = w\<lparr>nw_metrics := f (nw_metrics w)\<rparr>"

text \<open>What a handler reads from a message: headers first, then content.\<close>

definition msg_content_of :: "message \<Rightarrow> msg_content" where
  "msg_content_of m = (case m_content m of None \<Rightarrow> no_content | Some c \<Rightarrow> c)"

definition msg_event_id :: "notif_env \<Rightarrow> message \<Rightarrow> string" where
  "msg_event_id env m =
     or_else (h_eventId (m_headers m)) (or_else (c_eventId (msg_content_of m)) (''evt-'' @ ne_now env))"

definition msg_trace :: "notif_env \<Rightarrow> message \<Rightarrow> string" where
  "msg_trace env m =
     or_else (h_traceId (m_headers m)) (or_else (c_traceId (msg_content_of m)) (''trace-'' @ msg_event_id env m))"

definition msg_transaction :: "message \<Rightarrow> string option" where
  "msg_transaction m =
     (let c = msg_content_of m
      in js_or (h_transactionId (m_headers m)) (js_or (c_transactionId c)
           (js_or (Option.bind (c_payload c) p_transactionId) (c_aggregateId c))))"

definition msg_retry :: "message \<Rightarrow> nat" where
  "msg_retry m = (case h_retryAttempt (m_headers m) of Some n \<Rightarrow> n
     | None \<Rightarrow> (case c_retryAttempt (msg_content_of m) of Some n \<Rightarrow> n | None \<Rightarrow> 0))"

text \<open>Steps 2 to 6 of the handler, for an event without an audit row.\<close>

definition deliver_new :: "notif_env \<Rightarrow> notif_type \<Rightarrow> message \<Rightarrow> notif_world \<Rightarrow> (app_error + unit) \<times> notif_world" where
  "deliver_new env ty m w =
     (let p = content_payload (msg_content_of m);
          (subject, body, _) = formatMessage env (m_routingKey m) p;
          recipient = resolveRecipient p ty
      in case deliverNotification (msg_event_id env m) ty recipient subject body p w of
           (Inl e, w) \<Rightarrow> (Inl e, w)
         | (Inr _, w) \<Rightarrow>
             (case createAudit env (\<lambda>i now. \<lparr>n_id = i, n_eventId = msg_event_id env m,
                     n_transactionId = msg_transaction m, n_type = ty, n_recipient = recipient,
                     n_status = NS_SENT, n_retryCount = msg_retry m, n_errorMessage = None,
                     n_traceId = Some (msg_trace env m),
                     n_payload = p\<lparr>p_routingKey := Some (m_routingKey m), p_subject := Some subject\<rparr>,
                     n_createdAt = now\<rparr>) w of
                (Inl e, w) \<Rightarrow> (Inl e, w)
              | (Inr _, w) \<Rightarrow>
                  (Inr (), count (\<lambda>x. x\<lparr>successfulDeliveries := successfulDeliveries x + 1\<rparr>) w)))"

definition ack :: "notif_world \<Rightarrow> notif_world" where
  "ack w = w\<lparr>nw_acked := nw_acked w + 1\<rparr>"

text \<open>\<open>retryMessage\<close> puts the content back on the exchange, not on the queue it came from.\<close>

definition retryMessage :: "notif_env \<Rightarrow> message \<Rightarrow> nat \<Rightarrow> notif_world \<Rightarrow> notif_world" where
  "retryMessage env m n w = w\<lparr>nw_published := nw_published w @
     [m\<lparr>m_headers := (m_headers m)\<lparr>h_traceId := Some (msg_trace env m), h_eventId := Some (msg_event_id env m),
          h_transactionId := msg_transaction m, h_retryAttempt := Some n\<rparr>,
        m_content := Some (msg_content_of m)\<rparr>]\<rparr>"

definition sendToDLQ :: "message \<Rightarrow> notif_world \<Rightarrow> notif_world" where
  "sendToDLQ m w = count (\<lambda>x. x\<lparr>dlqCount := dlqCount x + 1\<rparr>) (w\<lparr>nw_dlq := nw_dlq w @ [m]\<rparr>)"

text \<open>The handler's \<open>catch\<close>.\<close>

definition on_error :: "notif_env \<Rightarrow> notif_type \<Rightarrow> message \<Rightarrow> app_error \<Rightarrow> notif_world \<Rightarrow> notif_world" where
  "on_error env ty m e w =
     (let n = msg_retry m + 1;
          w = count (\<lambda>x. x\<lparr>failedDeliveries := failedDeliveries x + 1\<rparr>) w
      in if NOTIF_MAX_RETRIES < n then
           (let w = sendToDLQ m w;
                p = content_payload (msg_content_of m);
                (_, w) = createAudit env (\<lambda>i now. \<lparr>n_id = i, n_eventId = msg_event_id env m,
                     n_transactionId = msg_transaction m, n_type = ty,
                     n_recipient = resolveRecipient p ty, n_status = NS_FAILED, n_retryCount = n,
                     n_errorMessage = Some (errorMessage e), n_traceId = Some (msg_trace env m),
                     n_payload = c_self (msg_content_of m), n_createdAt = now\<rparr>) w
            in ack w)
         else ack (retryMessage env m n w))"

definition lookup :: "notif_env \<Rightarrow> message \<Rightarrow> notif_world \<Rightarrow> (app_error + notification_audit option) \<times> notif_world" where
  "lookup env m w =
     findByEventId (msg_event_id env m) (count (\<lambda>x. x\<lparr>messagesConsumed := messagesConsumed x + 1\<rparr>) w)"

text \<open>The handler of a message from the queue of the given type.\<close>

definition handle_message :: "notif_env \<Rightarrow> notif_type \<Rightarrow> message \<Rightarrow> notif_world \<Rightarrow> notif_world" where
  "handle_message env ty m w =
     (case lookup env m w of
        (Inl e, w) \<Rightarrow> on_error env ty m e w
      | (Inr (Some _), w) \<Rightarrow> ack w
      | (Inr None, w) \<Rightarrow>
          (case deliver_new env ty m w of
             (Inl e, w) \<Rightarrow> on_error env ty m e w
           | (Inr _, w) \<Rightarrow> ack w))"

text \<open>
  \<open>processIncomingEvent\<close>, for a live event from Redis; an exception is only logged. The routing
  key is the content's or \<open>payment.completed\<close>, the type is e-mail.
\<close>

definition processIncomingEvent :: "notif_env \<Rightarrow> msg_content \<Rightarrow> notif_world \<Rightarrow> notif_world" where
  "processIncomingEvent env c w =
     (let eventId = or_else (c_eventId c) (or_else (c_id c) (''evt-'' @ ne_now env));
          traceId = or_else (c_traceId c) (''trace-'' @ eventId);
          txId = js_or (c_transactionId c) (js_or (Option.bind (c_payload c) p_transactionId) (c_aggregateId c));
          routingKey = or_else (c_routingKey c) ''payment.completed'';
          p = content_payload c;
          (subject, body, _) = formatMessage env routingKey p;
          recipient = resolveRecipient p EMAIL
      in case findByEventId eventId w of
           (Inl _, w) \<Rightarrow> w
         | (Inr (Some _), w) \<Rightarrow> w
         | (Inr None, w) \<Rightarrow>
             (case deliverNotification eventId EMAIL recipient subject body p w of
                (Inl _, w) \<Rightarrow> w
              | (Inr _, w) \<Rightarrow>
                  (case createAudit env (\<lambda>i now. \<lparr>n_id = i, n_eventId = eventId, n_transactionId = txId,
                          n_type = EMAIL, n_recipient = recipient, n_status = NS_SENT, n_retryCount = 0,
                          n_errorMessage = None, n_traceId = Some traceId,
                          n_payload = p\<lparr>p_routingKey := Some routingKey, p_subject := Some subject\<rparr>,
                          n_createdAt = now\<rparr>) w of
                     (Inl _, w) \<Rightarrow> w
                   | (Inr _, w) \<Rightarrow> count (\<lambda>x. x\<lparr>messagesConsumed := messagesConsumed x + 1,
                         successfulDeliveries := successfulDeliveries x + 1\<rparr>) w)))"

subsection \<open>History\<close>

record notif_filters =
  nq_limit :: "nat option"
  nq_cursor :: "string option"
  nq_recipient :: "string option"
  nq_status :: "notif_status option"
  nq_type :: "notif_type option"
  nq_startDate :: "nat option"
  nq_endDate :: "nat option"
  nq_transactionId :: "string option"

text \<open>
  The auto-sync of \<open>getPaginatedHistory\<close>: an audit row with status SENT for each of the latest
  payment events of the recipient that has none. A database error ends it silently.
\<close>

definition synced_audit :: "notif_env \<Rightarrow> outbox_event \<Rightarrow> string \<Rightarrow> string \<Rightarrow> nat \<Rightarrow> notification_audit" where
  "synced_audit env e recipient i now =
     (let p = o_payload e; failed = (o_eventType e = ''PAYMENT_FAILED'');
          amt = (case p_amount p of None \<Rightarrow> ne_show env 0 | Some a \<Rightarrow> ne_show env a)
      in \<lparr>n_id = i, n_eventId = o_id e,
          n_transactionId = js_or (o_transactionId e) (if truthy (p_transactionId p) then p_transactionId p else None),
          n_type = EMAIL, n_recipient = recipient, n_status = NS_SENT, n_retryCount = 0,
          n_errorMessage = None, n_traceId = Some (''trace-'' @ o_id e),
          n_payload = p\<lparr>p_routingKey := Some (if failed then ''payment.failed'' else ''payment.completed''),
             p_subject := Some (if failed then ''VaultCore Transfer Failed'' else ''VaultCore Transfer Completed''),
             p_body := Some (''Your payment of '' @ or_else (p_currency p) ''INR'' @ '' '' @ amt @ '' ('' @
               or_else (p_referenceId p) ''N/A'' @ '') has been processed successfully.'')\<rparr>,
          n_createdAt = now\<rparr>)"

fun sync_events :: "notif_env \<Rightarrow> string option \<Rightarrow> outbox_event list \<Rightarrow> notif_world \<Rightarrow> notif_world" where
  "sync_events env recipient [] w = w"
| "sync_events env recipient (e # es) w =
     (let p = o_payload e; r = js_or (p_recipient p) (js_or (p_email p) (p_userEmail p))
      in if \<not> truthy r \<or> truthy recipient \<and> to_lower (the r) \<noteq> to_lower (the recipient)
         then sync_events env recipient es w
         else (case findByEventId (o_id e) w of
                 (Inl _, w) \<Rightarrow> w
               | (Inr (Some _), w) \<Rightarrow> sync_events env recipient es w
               | (Inr None, w) \<Rightarrow>
                   (case createAudit env (synced_audit env e (the r)) w of
                      (Inl _, w) \<Rightarrow> w
                    | (Inr _, w) \<Rightarrow> sync_events env recipient es w)))"

definition latest_payment_events :: "db \<Rightarrow> outbox_event list" where
  "latest_payment_events db = take 30 (newest_by o_createdAt
     (filter (\<lambda>e. o_eventType e \<in> {''PAYMENT_COMPLETED'', ''PAYMENT_FAILED''}) (db_outbox db)))"

definition notif_where :: "notif_filters \<Rightarrow> notification_audit \<Rightarrow> bool" where
  "notif_where f a \<longleftrightarrow>
     (truthy (nq_recipient f) \<longrightarrow> n_recipient a = the (nq_recipient f)) \<and>
     (truthy (nq_transactionId f) \<longrightarrow> n_transactionId a = nq_transactionId f) \<and>
     (case nq_status f of None \<Rightarrow> True | Some s \<Rightarrow> n_status a = s) \<and>
     (case nq_type f of None \<Rightarrow> True | Some t \<Rightarrow> n_type a = t) \<and>
     (case nq_startDate f of None \<Rightarrow> True | Some d \<Rightarrow> d \<le> n_createdAt a) \<and>
     (case nq_endDate f of None \<Rightarrow> True | Some d \<Rightarrow> n_createdAt a \<le> d)"

record notif_page =
  np_notifications :: "notification_audit list"
  np_limit :: nat
  np_totalCount :: nat
  np_hasMore :: bool
  np_nextCursor :: "string option"

definition getPaginatedHistory :: "notif_env \<Rightarrow> notif_filters \<Rightarrow> notif_world \<Rightarrow> notif_page \<times> notif_world" where
  "getPaginatedHistory env f w =
     (let limit = (case nq_limit f of None \<Rightarrow> 20 | Some n \<Rightarrow> n);
          w = (case nf_fault w of
                 (Some _, w) \<Rightarrow> w
               | (None, w) \<Rightarrow> sync_events env (nq_recipient f) (latest_payment_events (nw_db w)) w);
          rows = filter (notif_where f) (db_notifications (nw_db w));
          (items, next_cursor) = cursor_page n_id limit (cursor_after n_id (nq_cursor f) (newest_by n_createdAt rows))
      in (\<lparr>np_notifications = items, np_limit = limit, np_totalCount = length rows,
           np_hasMore = (next_cursor \<noteq> None), np_nextCursor = next_cursor\<rparr>, w))"

text \<open>\<open>getCustomerHistory\<close>: customers get the recipient of their token.\<close>

definition getCustomerHistory ::
  "notif_env \<Rightarrow> gw_user \<Rightarrow> notif_filters \<Rightarrow> notif_world \<Rightarrow> notif_page \<times> notif_world" where
  "getCustomerHistory env u f =
     getPaginatedHistory env (if gu_role u \<noteq> Some ''ADMIN'' \<and> gu_role u \<noteq> Some ''TELLER''
                              then f\<lparr>nq_recipient := gu_email u\<rparr> else f)"

record notif_statistics =
  ns_sent :: nat
  ns_failed :: nat
  ns_pending :: nat
  ns_delivered :: nat
  ns_total :: nat
  ns_recentFailed :: "notification_audit list"

definition getAdminStatistics :: "db \<Rightarrow> notif_statistics" where
  "getAdminStatistics db =
     (let n = (\<lambda>s. length (filter (\<lambda>a. n_status a = s) (db_notifications db)))
      in \<lparr>ns_sent = n NS_SENT, ns_failed = n NS_FAILED, ns_pending = n NS_PENDING,
          ns_delivered = n NS_DELIVERED,
          ns_total = n NS_SENT + n NS_FAILED + n NS_PENDING + n NS_DELIVERED,
          ns_recentFailed = take 10 (newest_by n_createdAt
            (filter (\<lambda>a. n_status a = NS_FAILED) (db_notifications db)))\<rparr>)"

subsection \<open>HTTP\<close>

text \<open>
  \<open>authenticateToken\<close> of this service: a bearer token that verifies, or else the identity headers
  of the request, which nothing here checks.
\<close>

definition notif_authenticate ::
  "(string \<Rightarrow> gw_user option) \<Rightarrow> gw_request \<Rightarrow> app_error + gw_user" where
  "notif_authenticate verify req =
     (case (if gq_authorization req \<noteq> None \<and> starts_with ''Bearer '' (the (gq_authorization req))
            then verify (bearer_token (the (gq_authorization req))) else None) of
        Some u \<Rightarrow> Inr u
      | None \<Rightarrow>
          if truthy (gq_xUserId req) \<or> truthy (gq_xUserRole req)
          then Inr \<lparr>gu_userId = gq_xUserId req, gu_id = gq_xUserId req, gu_sub = None,
                    gu_role = Some (or_else (gq_xUserRole req) ''CUSTOMER''),
                    gu_email = Some (or_else (gq_xUserEmail req) ''customer@vaultcore.io'')\<rparr>
          else Inl (UnauthorizedError (Msg ''Missing or invalid Authorization header'')))"

definition requireRole :: "string list \<Rightarrow> gw_user option \<Rightarrow> app_error + unit" where
  "requireRole roles user =
     (if user = None \<or> (case gu_role (the user) of None \<Rightarrow> True | Some r \<Rightarrow> r \<notin> set roles)
      then Inl (ForbiddenError (Msg ''You do not have permission to perform this action'')) else Inr ())"

definition getHistory_handler ::
  "notif_env \<Rightarrow> gw_user option \<Rightarrow> notif_filters \<Rightarrow> notif_world \<Rightarrow> notif_page response \<times> notif_world" where
  "getHistory_handler env user f w =
     (let u = (case user of Some u \<Rightarrow> u
                | None \<Rightarrow> \<lparr>gu_userId = None, gu_id = None, gu_sub = None, gu_role = Some ''CUSTOMER'',
                           gu_email = Some ''customer@vaultcore.io''\<rparr>);
          (page, w) = getCustomerHistory env u f w
      in (api_success ''Notification history retrieved successfully'' page 200, w))"

definition getAdminStatus_handler :: "gw_user option \<Rightarrow> notif_world \<Rightarrow> app_error + (notif_statistics \<times> notif_metrics) response" where
  "getAdminStatus_handler user w =
     rbind (requireRole [''ADMIN''] user) (\<lambda>_.
       Inr (api_success ''Notification admin status and queue metrics retrieved''
              (getAdminStatistics (nw_db w), nw_metrics w) 200))"

end
