(* ===== verification/NotificationProps.thy ===== *)
theory NotificationProps
  imports Notification Outbox
begin

text \<open>
  What the notification service guarantees: an event is delivered at most once over all queues
  and the Redis bus as long as the database works and handlers do not interleave; what a history
  read does to events that are still to be delivered; what interleaved handlers do.
\<close>

subsection \<open>Audits\<close>

abbreviation audits :: "notif_world \<Rightarrow> notification_audit list" where
  "audits w \<equiv> db_notifications (nw_db w)"

definition notif_ok :: "notif_world \<Rightarrow> bool" where
  "notif_ok w \<longleftrightarrow> nw_dbFaults w = [] \<and> distinct (map n_eventId (audits w)) \<and>
     distinct (map nf_eventId (nw_delivered w)) \<and>
     (\<forall>d \<in> set (nw_delivered w). \<exists>a \<in> set (audits w). n_eventId a = nf_eventId d \<and> n_status a = NS_SENT)"

text \<open>Audit rows are only added, deliveries only follow a lookup that found none.\<close>

definition notif_grows :: "notif_world \<Rightarrow> notif_world \<Rightarrow> bool" where
  "notif_grows w w' \<longleftrightarrow> (\<exists>as ds. audits w' = audits w @ as \<and> nw_delivered w' = nw_delivered w @ ds)"

lemma notif_grows_refl: "notif_grows w w"
  by (simp add: notif_grows_def)

lemma notif_grows_trans: "notif_grows w1 w2 \<Longrightarrow> notif_grows w2 w3 \<Longrightarrow> notif_grows w1 w3"
  unfolding notif_grows_def by (elim exE conjE) simp

lemma notif_growsD: "notif_grows w w' \<Longrightarrow> set (audits w) \<subseteq> set (audits w')"
  by (auto simp: notif_grows_def)

lemma audit_of_None: "audit_of i db = None \<longleftrightarrow> i \<notin> n_eventId ` set (db_notifications db)"
  by (auto simp: audit_of_def find_None_iff)

lemma audit_of_mem: "audit_of i db = Some a \<Longrightarrow> a \<in> set (db_notifications db) \<and> n_eventId a = i"
  unfolding audit_of_def by (rule find_SomeD)

lemma count_fields [simp]:
  "nw_db (count f w) = nw_db w" "nw_delivered (count f w) = nw_delivered w"
  "nw_dbFaults (count f w) = nw_dbFaults w" "nw_acked (count f w) = nw_acked w"
  by (simp_all add: count_def)

lemma ack_fields [simp]:
  "nw_db (ack w) = nw_db w" "nw_delivered (ack w) = nw_delivered w"
  "nw_dbFaults (ack w) = nw_dbFaults w" "nw_acked (ack w) = nw_acked w + 1"
  by (simp_all add: ack_def)

lemma findByEventId_up: "nw_dbFaults w = [] \<Longrightarrow> findByEventId i w = (Inr (audit_of i (nw_db w)), w)"
  by (simp add: findByEventId_def nf_fault_def)

lemma createAudit_up:
  assumes "nw_dbFaults w = []" and "createAudit env mk w = (r, w')" and "\<And>i now. n_eventId (mk i now) = k"
  shows "nw_dbFaults w' = [] \<and> nw_delivered w' = nw_delivered w \<and> nw_acked w' = nw_acked w \<and>
    (audit_of k (nw_db w) \<noteq> None \<and> w' = w \<and> r = Inl unique_violation \<or>
     audit_of k (nw_db w) = None \<and> r = Inr () \<and>
       (\<exists>i now. audits w' = audits w @ [mk i now]))"
proof -
  have "\<exists>i now. mk (ne_id env n) t = mk i now" for n t by blast
  then show ?thesis using assms by (auto simp: createAudit_def nf_fault_def Let_def split: if_splits)
qed

lemma notif_ok_add_audit:
  assumes "notif_ok w" and "audits w' = audits w @ [a]" and "audit_of (n_eventId a) (nw_db w) = None"
    and "nw_dbFaults w' = []" and "nw_delivered w' = nw_delivered w \<or>
      nw_delivered w' = nw_delivered w @ [d] \<and> nf_eventId d = n_eventId a \<and> n_status a = NS_SENT"
  shows "notif_ok w' \<and> notif_grows w w'"
proof -
  have "n_eventId a \<notin> n_eventId ` set (audits w)" using assms(3) by (simp add: audit_of_None)
  moreover have "nf_eventId ` set (nw_delivered w) \<subseteq> n_eventId ` set (audits w)"
    using assms(1) unfolding notif_ok_def by (metis (no_types, lifting) image_eqI image_subsetI)
  ultimately show ?thesis using assms by (auto simp: notif_ok_def notif_grows_def)
qed

subsection \<open>Handlers\<close>

lemma deliver_new_up:
  assumes "notif_ok w" and "audit_of (msg_event_id env m) (nw_db w) = None"
    and "deliver_new env ty m w = (r, w')"
  shows "notif_ok w' \<and> notif_grows w w' \<and> nw_acked w' = nw_acked w \<and>
    (p_simulateFailure (content_payload (msg_content_of m)) \<and> w' = w \<and> (\<exists>e. r = Inl e) \<or>
     r = Inr () \<and> audit_of (msg_event_id env m) (nw_db w') \<noteq> None)"
proof -
  let ?p = "content_payload (msg_content_of m)"
  obtain subject body t where f: "formatMessage env (m_routingKey m) ?p = (subject, body, t)"
    by (metis prod_cases3)
  let ?d = "\<lparr>nf_eventId = msg_event_id env m, nf_type = ty, nf_recipient = resolveRecipient ?p ty,
     nf_subject = subject, nf_body = body\<rparr>"
  let ?mk = "\<lambda>i now. \<lparr>n_id = i, n_eventId = msg_event_id env m, n_transactionId = msg_transaction m,
     n_type = ty, n_recipient = resolveRecipient ?p ty, n_status = NS_SENT, n_retryCount = msg_retry m,
     n_errorMessage = None, n_traceId = Some (msg_trace env m),
     n_payload = ?p\<lparr>p_routingKey := Some (m_routingKey m), p_subject := Some subject\<rparr>, n_createdAt = now\<rparr>"
  show ?thesis
  proof (cases "p_simulateFailure ?p")
    case True
    then show ?thesis using assms f
      by (auto simp: deliver_new_def deliverNotification_def Let_def notif_grows_refl)
  next
    case False
    let ?w = "w\<lparr>nw_delivered := nw_delivered w @ [?d]\<rparr>"
    obtain r2 w2 where c: "createAudit env ?mk ?w = (r2, w2)" by force
    from createAudit_up[OF _ c, of "msg_event_id env m"] assms(1,2) obtain i now where
      c2: "nw_dbFaults w2 = []" "nw_delivered w2 = nw_delivered w @ [?d]" "nw_acked w2 = nw_acked w"
        "r2 = Inr ()" "audits w2 = audits w @ [?mk i now]" by (auto simp: notif_ok_def)
    have "notif_ok w2 \<and> notif_grows w w2"
      using notif_ok_add_audit[OF assms(1) c2(5), of ?d] assms(2) c2 by simp
    moreover have "r = Inr () \<and> w' = count (\<lambda>x. x\<lparr>successfulDeliveries := successfulDeliveries x + 1\<rparr>) w2"
      using assms(3) False f c c2(4) by (simp add: deliver_new_def deliverNotification_def Let_def)
    ultimately show ?thesis using c2(3,5)
      by (simp add: notif_ok_def notif_grows_def audit_of_None)
  qed
qed

lemma on_error_up:
  assumes "notif_ok w" and "audit_of (msg_event_id env m) (nw_db w) = None"
  shows "notif_ok (on_error env ty m e w) \<and> notif_grows w (on_error env ty m e w) \<and>
    nw_acked (on_error env ty m e w) = nw_acked w + 1"
proof (cases "NOTIF_MAX_RETRIES < msg_retry m + 1")
  case False
  then show ?thesis using assms(1)
    by (simp add: on_error_def Let_def retryMessage_def notif_ok_def notif_grows_def)
next
  case True
  let ?p = "content_payload (msg_content_of m)"
  let ?w = "sendToDLQ m (count (\<lambda>x. x\<lparr>failedDeliveries := failedDeliveries x + 1\<rparr>) w)"
  let ?mk = "\<lambda>i now. \<lparr>n_id = i, n_eventId = msg_event_id env m, n_transactionId = msg_transaction m,
     n_type = ty, n_recipient = resolveRecipient ?p ty, n_status = NS_FAILED, n_retryCount = msg_retry m + 1,
     n_errorMessage = Some (errorMessage e), n_traceId = Some (msg_trace env m),
     n_payload = c_self (msg_content_of m), n_createdAt = now\<rparr>"
  have w: "nw_db ?w = nw_db w" "nw_dbFaults ?w = nw_dbFaults w" "nw_delivered ?w = nw_delivered w"
    "nw_acked ?w = nw_acked w" by (simp_all add: sendToDLQ_def)
  obtain r2 w2 where c: "createAudit env ?mk ?w = (r2, w2)" by force
  from createAudit_up[OF _ c, of "msg_event_id env m"] assms w obtain i now where
    c2: "nw_dbFaults w2 = []" "nw_delivered w2 = nw_delivered w" "nw_acked w2 = nw_acked w"
      "audits w2 = audits w @ [?mk i now]" by (auto simp: notif_ok_def)
  have "notif_ok w2 \<and> notif_grows w w2"
    using notif_ok_add_audit[OF assms(1) c2(4)] assms(2) c2 by simp
  moreover have "on_error env ty m e w = ack w2" using True c by (simp add: on_error_def Let_def)
  ultimately show ?thesis using c2(3) by (simp add: notif_ok_def notif_grows_def)
qed

lemma handle_message_up:
  assumes "notif_ok w"
  shows "notif_ok (handle_message env ty m w) \<and> notif_grows w (handle_message env ty m w) \<and>
    nw_acked (handle_message env ty m w) = nw_acked w + 1 \<and>
    (\<not> p_simulateFailure (content_payload (msg_content_of m)) \<longrightarrow>
       audit_of (msg_event_id env m) (nw_db (handle_message env ty m w)) \<noteq> None) \<and>
    (audit_of (msg_event_id env m) (nw_db w) \<noteq> None \<longrightarrow>
       nw_db (handle_message env ty m w) = nw_db w \<and> nw_delivered (handle_message env ty m w) = nw_delivered w)"
proof -
  let ?w = "count (\<lambda>x. x\<lparr>messagesConsumed := messagesConsumed x + 1\<rparr>) w"
  have ok: "notif_ok ?w" and g: "notif_grows w x = notif_grows ?w x" for x
    using assms by (simp_all add: notif_ok_def notif_grows_def)
  have l: "lookup env m w = (Inr (audit_of (msg_event_id env m) (nw_db w)), ?w)"
    using assms by (simp add: lookup_def findByEventId_up notif_ok_def)
  show ?thesis
  proof (cases "audit_of (msg_event_id env m) (nw_db w)")
    case (Some a)
    then have "handle_message env ty m w = ack ?w" using l by (simp add: handle_message_def)
    then show ?thesis using assms Some by (simp add: notif_ok_def notif_grows_def)
  next
    case None
    obtain r w2 where d: "deliver_new env ty m ?w = (r, w2)" by force
    note up = deliver_new_up[OF ok _ d] None
    show ?thesis
    proof (cases r)
      case (Inl e)
      then have h: "handle_message env ty m w = on_error env ty m e w2" "w2 = ?w"
        "p_simulateFailure (content_payload (msg_content_of m))"
        using l None d up by (auto simp: handle_message_def)
      with on_error_up[OF ok, of env m ty e] None show ?thesis by (simp add: g)
    next
      case (Inr u)
      then have "handle_message env ty m w = ack w2" using l None d by (simp add: handle_message_def)
      then show ?thesis using up Inr None by (auto simp: notif_ok_def notif_grows_def)
    qed
  qed
qed

lemma processIncomingEvent_up:
  assumes "notif_ok w"
  shows "notif_ok (processIncomingEvent env c w) \<and> notif_grows w (processIncomingEvent env c w) \<and>
    nw_acked (processIncomingEvent env c w) = nw_acked w"
proof -
  let ?i = "or_else (c_eventId c) (or_else (c_id c) (''evt-'' @ ne_now env))"
  let ?p = "content_payload c" and ?k = "or_else (c_routingKey c) ''payment.completed''"
  obtain subject body t where f: "formatMessage env ?k ?p = (subject, body, t)" by (metis prod_cases3)
  have l: "findByEventId ?i w = (Inr (audit_of ?i (nw_db w)), w)"
    using assms by (simp add: findByEventId_up notif_ok_def)
  show ?thesis
  proof (cases "audit_of ?i (nw_db w) \<noteq> None \<or> p_simulateFailure ?p")
    case True
    then have "processIncomingEvent env c w = w"
      using l f by (auto simp: processIncomingEvent_def deliverNotification_def Let_def split: option.split)
    then show ?thesis using assms by (simp add: notif_grows_refl)
  next
    case False
    let ?d = "\<lparr>nf_eventId = ?i, nf_type = EMAIL, nf_recipient = resolveRecipient ?p EMAIL,
       nf_subject = subject, nf_body = body\<rparr>"
    let ?w = "w\<lparr>nw_delivered := nw_delivered w @ [?d]\<rparr>"
    let ?mk = "\<lambda>i now. \<lparr>n_id = i, n_eventId = ?i,
       n_transactionId = js_or (c_transactionId c) (js_or (Option.bind (c_payload c) p_transactionId) (c_aggregateId c)),
       n_type = EMAIL, n_recipient = resolveRecipient ?p EMAIL, n_status = NS_SENT, n_retryCount = 0,
       n_errorMessage = None, n_traceId = Some (or_else (c_traceId c) (''trace-'' @ ?i)),
       n_payload = ?p\<lparr>p_routingKey := Some ?k, p_subject := Some subject\<rparr>, n_createdAt = now\<rparr>"
    obtain r2 w2 where c: "createAudit env ?mk ?w = (r2, w2)" by force
    from createAudit_up[OF _ c, of ?i] assms False obtain i now where
      c2: "nw_dbFaults w2 = []" "nw_delivered w2 = nw_delivered w @ [?d]" "nw_acked w2 = nw_acked w"
        "r2 = Inr ()" "audits w2 = audits w @ [?mk i now]" by (auto simp: notif_ok_def)
    have "notif_ok w2 \<and> notif_grows w w2"
      using notif_ok_add_audit[OF assms c2(5), of ?d] False c2 by simp
    moreover have "processIncomingEvent env c w = count (\<lambda>x. x\<lparr>messagesConsumed := messagesConsumed x + 1,
        successfulDeliveries := successfulDeliveries x + 1\<rparr>) w2"
      using l f c c2(4) False by (simp add: processIncomingEvent_def deliverNotification_def Let_def)
    ultimately show ?thesis using c2(3) by (simp add: notif_ok_def notif_grows_def)
  qed
qed


subsection \<open>History reads\<close>

definition event_reader :: "outbox_event \<Rightarrow> string option" where
  "event_reader e =
     js_or (p_recipient (o_payload e)) (js_or (p_email (o_payload e)) (p_userEmail (o_payload e)))"

definition read_by :: "string option \<Rightarrow> outbox_event \<Rightarrow> bool" where
  "read_by recipient e \<longleftrightarrow> truthy (event_reader e) \<and>
     (truthy recipient \<longrightarrow> to_lower (the (event_reader e)) = to_lower (the recipient))"

definition synced :: "string option \<Rightarrow> outbox_event list \<Rightarrow> notif_world \<Rightarrow> notif_world \<Rightarrow> bool" where
  "synced recipient es w w' \<longleftrightarrow> notif_ok w' \<and> notif_grows w w' \<and> nw_delivered w' = nw_delivered w \<and>
     nw_acked w' = nw_acked w \<and> (\<forall>a \<in> set (audits w'). a \<in> set (audits w) \<or> n_status a = NS_SENT) \<and>
     (\<forall>e \<in> set es. read_by recipient e \<longrightarrow> o_id e \<in> n_eventId ` set (audits w'))"

lemma synced_Cons:
  assumes "synced recipient es w2 w'" and "notif_grows w w2" and "nw_delivered w2 = nw_delivered w"
    and "nw_acked w2 = nw_acked w" and "\<forall>a \<in> set (audits w2). a \<in> set (audits w) \<or> n_status a = NS_SENT"
    and "read_by recipient e \<longrightarrow> o_id e \<in> n_eventId ` set (audits w2)"
  shows "synced recipient (e # es) w w'"
proof -
  from assms(1) have s: "notif_grows w2 w'" "\<forall>a \<in> set (audits w'). a \<in> set (audits w2) \<or> n_status a = NS_SENT"
    by (auto simp: synced_def)
  have "read_by recipient e \<longrightarrow> o_id e \<in> n_eventId ` set (audits w')"
    using assms(6) notif_growsD[OF s(1)] by blast
  moreover have "\<forall>a \<in> set (audits w'). a \<in> set (audits w) \<or> n_status a = NS_SENT" using s(2) assms(5) by blast
  ultimately show ?thesis using assms(1,3,4) notif_grows_trans[OF assms(2) s(1)] by (simp add: synced_def)
qed

lemma sync_events_up: "notif_ok w \<Longrightarrow> synced recipient es w (sync_events env recipient es w)"
proof (induction es arbitrary: w)
  case Nil
  then show ?case by (simp add: synced_def notif_grows_refl)
next
  case (Cons e es)
  have l: "findByEventId (o_id e) w = (Inr (audit_of (o_id e) (nw_db w)), w)"
    using Cons.prems by (simp add: findByEventId_up notif_ok_def)
  show ?case
  proof (cases "\<not> read_by recipient e \<or> audit_of (o_id e) (nw_db w) \<noteq> None")
    case True
    then have "sync_events env recipient (e # es) w = sync_events env recipient es w"
      using l by (auto simp: Let_def read_by_def event_reader_def)
    moreover have "read_by recipient e \<longrightarrow> o_id e \<in> n_eventId ` set (audits w)"
      using True by (simp add: audit_of_None)
    ultimately show ?thesis using Cons.IH[OF Cons.prems] by (simp add: synced_Cons notif_grows_refl)
  next
    case False
    let ?r = "the (event_reader e)"
    obtain r2 w2 where c: "createAudit env (synced_audit env e ?r) w = (r2, w2)" by force
    have i: "n_eventId (synced_audit env e x i now) = o_id e" "n_status (synced_audit env e x i now) = NS_SENT"
      for x i now by (simp_all add: synced_audit_def Let_def)
    from createAudit_up[OF _ c i(1)] False Cons.prems obtain j now where
      c2: "nw_dbFaults w2 = []" "nw_delivered w2 = nw_delivered w" "nw_acked w2 = nw_acked w" "r2 = Inr ()"
        "audits w2 = audits w @ [synced_audit env e ?r j now]" by (auto simp: notif_ok_def)
    have ok: "notif_ok w2" "notif_grows w w2"
      using notif_ok_add_audit[OF Cons.prems c2(5)] False c2 i by simp_all
    have eq: "sync_events env recipient (e # es) w = sync_events env recipient es w2"
      using False l c c2(4) by (auto simp: Let_def read_by_def event_reader_def)
    show ?thesis unfolding eq
      by (rule synced_Cons[OF Cons.IH[OF ok(1)] ok(2)]) (use c2 i in auto)
  qed
qed

lemma getPaginatedHistory_snd:
  "nw_dbFaults w = [] \<Longrightarrow> snd (getPaginatedHistory env f w) =
     sync_events env (nq_recipient f) (latest_payment_events (nw_db w)) w"
  by (simp add: getPaginatedHistory_def nf_fault_def Let_def case_prod_beta)

lemma getCustomerHistory_up:
  fixes env u f
  assumes "notif_ok w"
  defines "w' \<equiv> snd (getCustomerHistory env u f w)"
  shows "notif_ok w' \<and> notif_grows w w' \<and> nw_delivered w' = nw_delivered w \<and> nw_acked w' = nw_acked w"
proof -
  have "nw_dbFaults w = []" using assms(1) by (simp add: notif_ok_def)
  then have "\<exists>g. w' = sync_events env g (latest_payment_events (nw_db w)) w"
    unfolding w'_def getCustomerHistory_def by (auto simp: getPaginatedHistory_snd)
  then show ?thesis using sync_events_up[OF assms(1)] by (auto simp: synced_def)
qed

subsection \<open>Properties\<close>

datatype notif_op =
    Consume notif_env notif_type message
  | Live notif_env msg_content
  | Read_history notif_env gw_user notif_filters

fun notif_exec :: "notif_op \<Rightarrow> notif_world \<Rightarrow> notif_world" where
  "notif_exec (Consume env ty m) w = handle_message env ty m w"
| "notif_exec (Live env c) w = processIncomingEvent env c w"
| "notif_exec (Read_history env u f) w = snd (getCustomerHistory env u f w)"

fun is_consume :: "notif_op \<Rightarrow> bool" where
  "is_consume (Consume env ty m) = True" | "is_consume op = False"

lemma notif_exec_up:
  "notif_ok w \<Longrightarrow> notif_ok (notif_exec op w) \<and> notif_grows w (notif_exec op w) \<and>
     nw_acked (notif_exec op w) = nw_acked w + (if is_consume op then 1 else 0)"
  using handle_message_up processIncomingEvent_up getCustomerHistory_up by (cases op) simp_all

lemma notif_run_up:
  assumes "notif_ok w"
  shows "notif_ok (fold notif_exec ops w) \<and> notif_grows w (fold notif_exec ops w) \<and>
     nw_acked (fold notif_exec ops w) = nw_acked w + length (filter is_consume ops) \<and>
     (\<forall>env ty m. Consume env ty m \<in> set ops \<and> \<not> p_simulateFailure (content_payload (msg_content_of m)) \<longrightarrow>
        msg_event_id env m \<in> n_eventId ` set (audits (fold notif_exec ops w)))"
  using assms
proof (induction ops arbitrary: w)
  case (Cons op ops)
  note step = notif_exec_up[OF Cons.prems, of op]
  note IH = Cons.IH[OF conjunct1[OF step]]
  have "msg_event_id env m \<in> n_eventId ` set (audits (fold notif_exec ops (notif_exec op w)))"
    if "op = Consume env ty m" "\<not> p_simulateFailure (content_payload (msg_content_of m))" for env ty m
  proof -
    have "msg_event_id env m \<in> n_eventId ` set (audits (notif_exec op w))"
      using handle_message_up[OF Cons.prems, of env ty m] that by (auto simp: audit_of_None)
    then show ?thesis using IH notif_growsD by blast
  qed
  with IH step notif_grows_trans[of w "notif_exec op w"] show ?case by auto
qed (simp add: notif_grows_refl)

definition sample_notif :: notif_env where
  "sample_notif = \<lparr>ne_id = (\<lambda>n. ''n'' @ show_nat n), ne_show = (\<lambda>_. ''1''), ne_now = ''0''\<rparr>"

definition paid_event :: outbox_event where
  "paid_event = \<lparr>o_id = ''e1'', o_aggregateType = ''TRANSACTION'', o_aggregateId = ''t1'',
     o_eventType = ''PAYMENT_COMPLETED'', o_payload = no_payload\<lparr>p_recipient := Some ''a@x''\<rparr>,
     o_status = OB_PENDING, o_retryCount = 0, o_error = None, o_processedAt = None, o_createdAt = 0,
     o_updatedAt = 0, o_transactionId = Some ''t1''\<rparr>"

definition quiet_notif :: "outbox_event list \<Rightarrow> notif_world" where
  "quiet_notif es = \<lparr>nw_db = \<lparr>db_users = [], db_accounts = [], db_transactions = [], db_entries = [],
       db_outbox = es, db_audits = [], db_notifications = [], db_now = 0, db_seq = 0\<rparr>,
     nw_dbFaults = [], nw_published = [], nw_dlq = [], nw_delivered = [], nw_acked = 0,
     nw_metrics = \<lparr>messagesConsumed = 0, successfulDeliveries = 0, failedDeliveries = 0, dlqCount = 0\<rparr>\<rparr>"

lemma quiet_notif_ok: "notif_ok (quiet_notif es)"
  by (simp add: notif_ok_def quiet_notif_def)

text \<open>
  Handlers that interleave at the delivery are not covered: both queues hold the event, both
  handlers find no audit row, and the customer is notified twice.
\<close>

lemma interleaved_handlers_deliver_twice:
  "let m = event_message paid_event; (r1, w1) = lookup sample_notif m (quiet_notif []);
       (r2, w2) = lookup sample_notif m w1; w3 = snd (deliver_new sample_notif EMAIL m w2);
       w4 = snd (deliver_new sample_notif SMS m w3)
   in r1 = Inr None \<and> r2 = Inr None \<and> map nf_eventId (nw_delivered w4) = [''e1'', ''e1'']"
  by (simp add: quiet_notif_def lookup_def findByEventId_def nf_fault_def audit_of_def count_def
      deliver_new_def deliverNotification_def createAudit_def event_message_def paid_event_def
      formatMessage_def msg_content_of_def content_payload_def no_content_def no_payload_def
      event_routing_key_def msg_event_id_def or_else_def truthy_def Let_def)



text \<open>Reading the history suppresses notifications. A history read writes a SENT audit row for each
  of the latest payment events of the reader that has none, although nothing was sent; when the
  event's message arrives later, it is taken for a duplicate and never delivered.\<close>

lemma history_read_suppresses_delivery:
  assumes "notif_ok w" and "e \<in> set (latest_payment_events (nw_db w))"
    and "audit_of (o_id e) (nw_db w) = None" and "o_id e \<noteq> ''''"
    and "p_recipient (o_payload e) = Some mail" and "mail \<noteq> ''''"
    and "gu_role u = Some ''CUSTOMER''" and "gu_email u = Some mail"
  shows "let w1 = snd (getCustomerHistory env u f w); w2 = handle_message env' ty (event_message e) w1
     in nw_delivered w2 = nw_delivered w \<and>
        (\<exists>a \<in> set (audits w2). n_eventId a = o_id e \<and> n_status a = NS_SENT)"
proof -
  let ?w1 = "snd (getCustomerHistory env u f w)" and ?m = "event_message e"
  have eq: "?w1 = sync_events env (Some mail) (latest_payment_events (nw_db w)) w"
    using assms(1,7,8) by (simp add: getCustomerHistory_def getPaginatedHistory_snd notif_ok_def)
  note sync = sync_events_up[OF assms(1), of "Some mail" "latest_payment_events (nw_db w)" env,
      folded eq, unfolded synced_def]
  have id: "msg_event_id env' ?m = o_id e"
    using assms(4) by (simp add: msg_event_id_def event_message_def or_else_def truthy_def)
  have mem: "o_id e \<in> n_eventId ` set (audits ?w1)"
    using sync assms(2,5,6) by (auto simp: read_by_def event_reader_def js_or_def truthy_def)
  then have "audit_of (msg_event_id env' ?m) (nw_db ?w1) \<noteq> None" by (simp add: audit_of_None id)
  with handle_message_up[OF conjunct1[OF sync], of env' ty ?m]
  have same: "nw_db (handle_message env' ty ?m ?w1) = nw_db ?w1"
    "nw_delivered (handle_message env' ty ?m ?w1) = nw_delivered ?w1" by blast+
  from mem obtain a where "a \<in> set (audits ?w1)" "n_eventId a = o_id e" by auto
  moreover have "a \<notin> set (audits w)"
    using calculation(2) assms(3) unfolding audit_of_None by (metis image_eqI)
  ultimately have "\<exists>a \<in> set (audits ?w1). n_eventId a = o_id e \<and> n_status a = NS_SENT" using sync by blast
  with same sync show ?thesis by (simp add: Let_def)
qed

lemma history_read_suppresses_delivery_example:
  "\<exists>u f. nw_delivered (handle_message sample_notif EMAIL (event_message paid_event)
     (snd (getCustomerHistory sample_notif u f (quiet_notif [paid_event])))) = []"
proof -
  let ?u = "\<lparr>gu_userId = None, gu_id = None, gu_sub = None, gu_role = Some ''CUSTOMER'', gu_email = Some ''a@x''\<rparr>"
  have "paid_event \<in> set (latest_payment_events (nw_db (quiet_notif [paid_event])))"
    by (simp add: latest_payment_events_def quiet_notif_def newest_by_def) (simp add: paid_event_def)
  note sup = history_read_suppresses_delivery[OF quiet_notif_ok this, of "''a@x''" ?u]
  have "nw_delivered (handle_message sample_notif EMAIL (event_message paid_event)
     (snd (getCustomerHistory sample_notif ?u f (quiet_notif [paid_event])))) = nw_delivered (quiet_notif [paid_event])" for f
    using sup[of sample_notif f sample_notif EMAIL] unfolding Let_def
    by (simp add: audit_of_def paid_event_def[THEN arg_cong[of _ _ o_id]]
        paid_event_def[THEN arg_cong[of _ _ o_payload]] quiet_notif_def[THEN arg_cong[of _ _ nw_db]])
  then show ?thesis by (auto simp: quiet_notif_def[THEN arg_cong[of _ _ nw_delivered]])
qed

end
