(* ===== verification/Gateway.thy ===== *)
theory Gateway
  imports RateLimiter CircuitBreaker Paging
begin

text \<open>
  The API gateway: the order of its middlewares and mounts (\<open>services/gateway/src/app.js\<close>), the
  reverse proxy with its breaker and retry (\<open>middleware/proxyFactory.js\<close>), the service and path
  labels of \<open>middleware/metrics.js\<close>, the readiness probe of \<open>utils/healthChecker.js\<close>. How Express
  matches routes and mount points is a parameter, and so is what the downstream services answer.
  Whether the proxy library has already passed on a first 503 answer when the code retries is not
  visible here and is a parameter too.
\<close>

subsection \<open>Proxy\<close>

datatype downstream = Answered nat | NetFailure string string \<comment> \<open>status; error code and message\<close>

text \<open>Before the request is forwarded: \<^const>\<open>Some\<close> the seconds to wait when it fails fast.\<close>

definition proxy_admit :: "nat \<Rightarrow> breaker \<Rightarrow> nat option \<times> breaker" where
  "proxy_admit now b =
     (if cb_state b = CB_OPEN then
        (if timeSinceOpen now b < int (openTimeoutMs b)
         then (Some (retryAfterSec now b),
               b\<lparr>cb_stats := (cb_stats b)\<lparr>failFastCount := failFastCount (cb_stats b) + 1\<rparr>\<rparr>)
         else (None, transitionTo now CB_HALF_OPEN (TimeoutExpired (openTimeoutMs b)) b))
      else (None, b))"

definition on_proxy_error :: "nat \<Rightarrow> string \<Rightarrow> breaker \<Rightarrow> breaker" where
  "on_proxy_error now msg b =
     record_failure now (Msg msg) (ProxyProbeFailed (Msg msg)) (ProxyFailureThreshold (failureThreshold b) (Msg msg)) b"

text \<open>When the response is finished; an answer of 500 or more counts neither way.\<close>

definition on_finish :: "nat \<Rightarrow> nat \<Rightarrow> breaker \<Rightarrow> breaker" where
  "on_finish now status b = (if 200 \<le> status \<and> status < 500 then on_success now b else b)"

definition retryable_errors :: "string list" where
  "retryable_errors = [''ECONNRESET'', ''ECONNREFUSED'', ''ETIMEDOUT'', ''ESOCKETTIMEDOUT'']"

definition proxy_error_response :: "string \<Rightarrow> string \<Rightarrow> string \<Rightarrow> 'd response" where
  "proxy_error_response service code msg =
     (if code = ''ETIMEDOUT'' \<or> code = ''ESOCKETTIMEDOUT'' \<or> contains ''timeout'' msg \<or> contains ''ETIMEDOUT'' msg
      then api_error (Msg (''Gateway timeout waiting for '' @ service)) 504 [''GATEWAY_TIMEOUT'']
      else if code = ''ECONNREFUSED'' \<or> code = ''ENOTFOUND'' \<or> code = ''ECONNRESET''
      then api_error (Msg (''Downstream '' @ service @ '' is unavailable ('' @ code @ '')'')) 502 [''SERVICE_UNAVAILABLE'']
      else api_error (Msg (''Gateway proxy error communicating with '' @ service @ '': '' @ msg)) 502 [''PROXY_ERROR''])"

text \<open>
  What the proxy does with one reply: send the request again (a \<open>GET\<close>, once), or end with a status;
  \<^const>\<open>None\<close> when headers are already out and nothing more is written.
\<close>

datatype proxy_next = Again | Done "nat option"

definition on_reply :: "nat \<Rightarrow> string \<Rightarrow> bool \<Rightarrow> bool \<Rightarrow> bool \<Rightarrow> downstream \<Rightarrow> breaker \<Rightarrow> proxy_next \<times> breaker" where
  "on_reply now service is_get retried headersSent r b =
     (case r of
        Answered status \<Rightarrow> (if is_get \<and> status = 503 \<and> \<not> retried then (Again, b) else (Done (Some status), b))
      | NetFailure code msg \<Rightarrow>
          let b = on_proxy_error now msg b
          in if is_get \<and> code \<in> set retryable_errors \<and> \<not> retried then (Again, b)
             else if headersSent then (Done None, b)
             else (Done (Some (rs_status (proxy_error_response service code msg :: unit response))), b))"

text \<open>Status, number of requests sent downstream, breaker.\<close>

definition proxy_call ::
  "bool \<Rightarrow> nat \<Rightarrow> string \<Rightarrow> bool \<Rightarrow> downstream \<Rightarrow> downstream \<Rightarrow> breaker \<Rightarrow> (nat \<times> nat) \<times> breaker" where
  "proxy_call piped now service is_get r1 r2 b =
     (case on_reply now service is_get False False r1 b of
        (Done status, b) \<Rightarrow> ((case status of Some st \<Rightarrow> st | None \<Rightarrow> 200, 1), b)
      | (Again, b) \<Rightarrow>
          let sent = (piped \<and> r1 = Answered 503)
          in (case on_reply now service is_get True sent r2 b of
                (Done (Some st), b) \<Rightarrow> ((if sent then 503 else st, 2), b)
              | (_, b) \<Rightarrow> ((503, 2), b)))"

subsection \<open>Mounts\<close>

datatype rewrite = Keep | Prefix string string | Under string

fun apply_rewrite :: "rewrite \<Rightarrow> string \<Rightarrow> string" where
  "apply_rewrite Keep path = path"
| "apply_rewrite (Prefix p q) path = (if starts_with p path then q @ drop (length p) path else path)"
| "apply_rewrite (Under p) path =
     (if starts_with p path then path else p @ (if starts_with ''/'' path then '''' else ''/'') @ path)"

record mount =
  mt_path :: string
  mt_tier :: tier
  mt_service :: string
  mt_breaker :: string
  mt_rewrite :: rewrite

definition mk_mount :: "string \<Rightarrow> tier \<Rightarrow> string \<Rightarrow> string \<Rightarrow> rewrite \<Rightarrow> mount" where
  "mk_mount p t s k r = \<lparr>mt_path = p, mt_tier = t, mt_service = s, mt_breaker = k @ ''-service'', mt_rewrite = r\<rparr>"

definition mounts :: "mount list" where
  "mounts =
     [mk_mount ''/api/v1/auth'' authRateLimiter ''Auth Service'' ''auth'' (Prefix ''/api/v1/auth'' ''''),
      mk_mount ''/auth'' authRateLimiter ''Auth Service'' ''auth'' (Prefix ''/auth'' ''''),
      mk_mount ''/api/v1/customers'' generalRateLimiter ''Account Service (Customers)'' ''account'' (Under ''/customers''),
      mk_mount ''/customers'' generalRateLimiter ''Account Service (Customers)'' ''account'' (Under ''/customers''),
      mk_mount ''/api/v1/accounts'' generalRateLimiter ''Account Service'' ''account'' (Prefix ''/api/v1/accounts'' ''/accounts''),
      mk_mount ''/accounts'' generalRateLimiter ''Account Service'' ''account'' Keep,
      mk_mount ''/api/v1/payments'' paymentRateLimiter ''Payment Service'' ''payment'' (Prefix ''/api/v1/payments'' ''''),
      mk_mount ''/payments'' paymentRateLimiter ''Payment Service'' ''payment'' (Prefix ''/payments'' ''''),
      mk_mount ''/api/v1/outbox'' paymentRateLimiter ''Payment Service (Outbox)'' ''payment'' (Under ''/outbox''),
      mk_mount ''/outbox'' paymentRateLimiter ''Payment Service (Outbox)'' ''payment'' (Under ''/outbox''),
      mk_mount ''/api/v1/ledger'' generalRateLimiter ''Ledger Service'' ''ledger'' (Prefix ''/api/v1/ledger'' ''''),
      mk_mount ''/ledger'' generalRateLimiter ''Ledger Service'' ''ledger'' (Prefix ''/ledger'' ''''),
      mk_mount ''/api/v1/notifications'' generalRateLimiter ''Notification Service'' ''notification'' (Prefix ''/api/v1/notifications'' ''''),
      mk_mount ''/notifications'' generalRateLimiter ''Notification Service'' ''notification'' (Prefix ''/notifications'' '''')]"

text \<open>Express: does a route match a path, and what is left of a path under a mount point.\<close>

record express_lib =
  ex_route :: "string \<Rightarrow> string \<Rightarrow> bool"
  ex_mount :: "string \<Rightarrow> string \<Rightarrow> string option"

text \<open>The endpoints the gateway answers itself, before authentication.\<close>

definition own_get_routes :: "string list" where
  "own_get_routes =
     [''/metrics'', ''/api/v1/metrics'', ''/'', ''/health'', ''/api/v1/health'', ''/health/live'', ''/api/v1/health/live'',
      ''/health/ready'', ''/api/v1/health/ready'', ''/admin/circuit-breakers'', ''/api/v1/admin/circuit-breakers'',
      ''/api/v1/events/stream'', ''/events/stream'']"

definition own_post_routes :: "string list" where
  "own_post_routes = [''/api/v1/events/broadcast'', ''/events/broadcast'']"

definition own_endpoint :: "express_lib \<Rightarrow> string \<Rightarrow> string \<Rightarrow> bool" where
  "own_endpoint X meth path \<longleftrightarrow>
     (meth = ''GET'' \<and> list_ex (\<lambda>r. ex_route X r path) own_get_routes) \<or>
     (meth = ''POST'' \<and> list_ex (\<lambda>r. ex_route X r path) own_post_routes) \<or>
     list_ex (\<lambda>r. ex_mount X r path \<noteq> None) [''/docs'', ''/api/v1/docs'']"

subsection \<open>The pipeline\<close>

record 's gateway =
  gw_limiter :: "'s rate_limiter"
  gw_breakers :: registry

definition set_breaker :: "string \<Rightarrow> breaker \<Rightarrow> registry \<Rightarrow> registry" where
  "set_breaker name b reg = map (\<lambda>(n, x). if n = name then (n, b) else (n, x)) reg"

record gateway_input =
  gi_now :: nat
  gi_member :: string \<comment> \<open>the limiter's member for this request\<close>
  gi_reply :: downstream
  gi_reply2 :: downstream \<comment> \<open>the answer to the retry, if there is one\<close>
  gi_piped :: bool

datatype gateway_outcome =
    Own
  | Rejected app_error
  | Unrouted gw_request
  | TooMany "unit response"
  | FailFast nat
  | Proxied string string gw_request nat nat \<comment> \<open>service, path, request forwarded, status, times sent\<close>

definition gateway_handle ::
  "(string \<Rightarrow> gw_user option) \<Rightarrow> express_lib \<Rightarrow> 's zsets \<Rightarrow> gateway_input \<Rightarrow> gw_request \<Rightarrow> 's gateway
     \<Rightarrow> gateway_outcome \<times> 's gateway" where
  "gateway_handle verify X Z i req gw =
     (if own_endpoint X (gq_method req) (gq_path req) then (Own, gw)
      else case gatewayAuthMiddleware verify req of
        Inl e \<Rightarrow> (Rejected e, gw)
      | Inr req \<Rightarrow>
          (case List.find (\<lambda>m. ex_mount X (mt_path m) (gq_path req) \<noteq> None) mounts of
             None \<Rightarrow> (Unrouted req, gw)
           | Some m \<Rightarrow>
               let rest = the (ex_mount X (mt_path m) (gq_path req));
                   ((_, answer), rl) = createRateLimiter Z (mt_tier m) (int (gi_now i)) (gi_member i)
                                         (int (gi_now i)) (req\<lparr>gq_path := rest\<rparr>) (gw_limiter gw);
                   gw = gw\<lparr>gw_limiter := rl\<rparr>
               in case answer of
                    Some r \<Rightarrow> (TooMany r, gw)
                  | None \<Rightarrow>
                      let (b, reg) = getOrCreate (mt_breaker m) (gw_breakers gw);
                          (gate, b) = proxy_admit (gi_now i) b
                      in (case gate of
                            Some s \<Rightarrow> (FailFast s, gw\<lparr>gw_breakers := set_breaker (mt_breaker m) b reg\<rparr>)
                          | None \<Rightarrow>
                              let ((status, sends), b) = proxy_call (gi_piped i) (gi_now i) (mt_service m)
                                     (gq_method req = ''GET'') (gi_reply i) (gi_reply2 i) b;
                                  b = on_finish (gi_now i) status b
                              in (Proxied (mt_service m) (apply_rewrite (mt_rewrite m) rest) req status sends,
                                  gw\<lparr>gw_breakers := set_breaker (mt_breaker m) b reg\<rparr>))))"

subsection \<open>Labels and probes\<close>

definition resolveServiceName :: "string \<Rightarrow> string" where
  "resolveServiceName path =
     (if starts_with ''/api/v1/auth'' path \<or> starts_with ''/auth'' path then ''auth-service''
      else if starts_with ''/api/v1/accounts'' path \<or> starts_with ''/accounts'' path then ''account-service''
      else if starts_with ''/api/v1/payments'' path \<or> starts_with ''/api/v1/outbox'' path \<or> starts_with ''/payments'' path
        then ''payment-service''
      else if starts_with ''/api/v1/ledger'' path \<or> starts_with ''/ledger'' path then ''ledger-service''
      else if starts_with ''/api/v1/notifications'' path \<or> starts_with ''/notifications'' path then ''notification-service''
      else if starts_with ''/health'' path then ''gateway-health''
      else if starts_with ''/metrics'' path then ''gateway-metrics''
      else if starts_with ''/docs'' path then ''gateway-docs''
      else ''gateway-internal'')"

text \<open>\<open>0=CLOSED, 1=HALF_OPEN, 2=OPEN\<close>\<close>

definition breaker_gauge :: "registry \<Rightarrow> (string \<times> nat) list" where
  "breaker_gauge reg = map (\<lambda>(n, b). (cb_name b, case cb_state b of CB_CLOSED \<Rightarrow> 0 | CB_HALF_OPEN \<Rightarrow> 1 | CB_OPEN \<Rightarrow> 2)) reg"

text \<open>
  \<open>checkMicroserviceLive\<close>: the outcomes of the call to \<open>/health/live\<close> and of up to two calls to
  \<open>/health\<close>; \<^const>\<open>None\<close> is a call that throws. The result is up or down, with the status code.
\<close>

definition res_ok :: "nat option \<Rightarrow> bool" where
  "res_ok r = (case r of None \<Rightarrow> False | Some s \<Rightarrow> 200 \<le> s \<and> s < 300)"

definition checkMicroserviceLive :: "nat option \<Rightarrow> nat option \<Rightarrow> nat option \<Rightarrow> bool \<times> nat" where
  "checkMicroserviceLive live health health2 =
     (let res = (if live = None then health
                 else if res_ok live then live
                 else if health \<noteq> None then health
                 else if health2 \<noteq> None then health2 else live)
      in (res_ok res, case res of Some s \<Rightarrow> s | None \<Rightarrow> 500))"

text \<open>\<open>getReadiness\<close>: READY depends on the three infrastructure checks only.\<close>

definition getReadiness :: "bool \<Rightarrow> bool \<Rightarrow> bool \<Rightarrow> (string \<times> bool) list \<Rightarrow> string" where
  "getReadiness postgres redis rabbitmq microservices =
     (if postgres \<and> redis \<and> rabbitmq then ''READY'' else ''DEGRADED'')"

subsection \<open>What gets through\<close>

lemma on_reply_again: "fst (on_reply now s g retried h r b) = Again \<Longrightarrow> g \<and> \<not> retried"
  by (auto simp: on_reply_def Let_def split: downstream.splits if_splits)

lemma proxy_call_sends:
  "snd (fst (proxy_call p now s g r1 r2 b)) \<in> {1, 2} \<and> (snd (fst (proxy_call p now s g r1 r2 b)) = 2 \<longrightarrow> g)"
  using on_reply_again[of now s g False False r1 b]
  by (auto simp: proxy_call_def Let_def split: prod.splits proxy_next.splits option.splits)

lemma proxy_admit_None:
  "fst (proxy_admit now b) = None \<Longrightarrow> cb_state b \<noteq> CB_OPEN \<or> int (openTimeoutMs b) \<le> timeSinceOpen now b"
  by (auto simp: proxy_admit_def split: if_splits)


definition plain_express :: express_lib where
  "plain_express = \<lparr>ex_route = (\<lambda>r p. p = r \<or> p = r @ ''/''),
     ex_mount = (\<lambda>m p. if p = m then Some ''/'' else if starts_with (m @ ''/'') p then Some (drop (length m) p) else None)\<rparr>"

definition account_request :: gw_request where
  "account_request = \<lparr>gq_method = ''GET'', gq_path = ''/api/v1/accounts/100000000001'',
     gq_authorization = Some ''Bearer tok'', gq_ip = Some ''10.0.0.1'', gq_forwarded = None, gq_remote = None,
     gq_trace = None, gq_user = None, gq_xUserId = Some ''admin'', gq_xUserRole = Some ''ADMIN'', gq_xUserEmail = None\<rparr>"

definition alice_token :: "string \<Rightarrow> gw_user option" where
  "alice_token t = (if t = ''tok'' then Some \<lparr>gu_userId = Some ''alice'', gu_id = None, gu_sub = None,
     gu_role = Some ''CUSTOMER'', gu_email = Some ''a@x''\<rparr> else None)"

definition fresh_gateway :: "zmem gateway" where
  "fresh_gateway = \<lparr>gw_limiter = \<lparr>rl_redis = \<lparr>store = zmem_empty, faults = []\<rparr>, allowedRequests = 0,
     blockedRequests = 0, totalChecks = 0\<rparr>, gw_breakers = []\<rparr>"

definition one_try :: gateway_input where
  "one_try = \<lparr>gi_now = 5, gi_member = ''m'', gi_reply = Answered 200, gi_reply2 = Answered 200, gi_piped = False\<rparr>"


text \<open>
  The event endpoints are the gateway's own and come before authentication: whoever can reach the
  gateway can read the stream of all payments and broadcast events of their own.
\<close>

lemma events_need_no_token:
  "gq_method req = ''POST'' \<Longrightarrow> gq_path req = ''/api/v1/events/broadcast'' \<Longrightarrow>
   gateway_handle verify plain_express Z i req gw = (Own, gw)"
  by (simp add: gateway_handle_def own_endpoint_def own_post_routes_def plain_express_def)

end
