(* ===== verification/GatewayEvents.thy ===== *)
theory GatewayEvents
  imports Messages
begin

text \<open>
  The live events of the gateway: the server-sent event hub of \<open>services/gateway/src/app.js\<close>
  (clients, ring buffer, resume by \<open>Last-Event-ID\<close>), the consumer that feeds it from RabbitMQ and
  Redis (\<open>services/gatewayEventConsumer.js\<close>) and the life cycle of the consumer's connection.
  Timestamps and log lines are left out; generated identifiers and the text of a number are inputs.
\<close>

subsection \<open>The hub\<close>

record sse_event =
  le_id :: "string option"
  le_eventId :: "string option"
  le_type :: "string option"
  le_eventType :: "string option"
  le_routingKey :: "string option"
  le_traceId :: "string option"
  le_transactionId :: "string option"
  le_referenceId :: "string option"
  le_amount :: "rat option"
  le_currency :: "string option"
  le_sourceAccountNumber :: "string option"
  le_targetAccountNumber :: "string option"
  le_recipient :: "string option"
  le_title :: "string option"
  le_subject :: "string option"
  le_message :: "string option"
  le_channel :: "string option"
  le_status :: "string option"
  le_read :: "bool option"
  le_payload :: "payload option"

definition no_event :: sse_event where
  "no_event = \<lparr>le_id = None, le_eventId = None, le_type = None, le_eventType = None,
     le_routingKey = None, le_traceId = None, le_transactionId = None, le_referenceId = None,
     le_amount = None, le_currency = None, le_sourceAccountNumber = None,
     le_targetAccountNumber = None, le_recipient = None, le_title = None, le_subject = None,
     le_message = None, le_channel = None, le_status = None, le_read = None, le_payload = None\<rparr>"

datatype frame = Connected | Event string sse_event | KeepAlive

record sse_client =
  sc_res :: nat \<comment> \<open>which response object\<close>
  sc_broken :: bool \<comment> \<open>\<open>write\<close> throws\<close>
  sc_frames :: "frame list"

record sse_hub =
  sh_clients :: "sse_client list"
  sh_buffer :: "(string \<times> sse_event) list"
  sh_sequence :: nat

definition SSE_BUFFER :: nat where "SSE_BUFFER = 100"

definition hub_start :: sse_hub where
  "hub_start = \<lparr>sh_clients = [], sh_buffer = [], sh_sequence = 1000\<rparr>"

definition write_frame :: "frame \<Rightarrow> sse_client \<Rightarrow> sse_client" where
  "write_frame f c = c\<lparr>sc_frames := sc_frames c @ [f]\<rparr>"

text \<open>\<open>eventData.eventId || eventData.id\<close>, with the sequence number advanced only when both are missing.\<close>

definition own_id :: "sse_event \<Rightarrow> string option" where
  "own_id e = js_or (le_eventId e) (le_id e)"

definition broadcastSSEEvent :: "nat \<Rightarrow> sse_event option \<Rightarrow> sse_hub \<Rightarrow> sse_hub" where
  "broadcastSSEEvent now eventData hub =
     (case eventData of
        None \<Rightarrow> hub
      | Some e \<Rightarrow>
          let n = (if truthy (own_id e) then sh_sequence hub else sh_sequence hub + 1);
              eventId = or_else (own_id e) (''evt-'' @ show_nat n @ ''-'' @ show_nat now);
              enriched = e\<lparr>le_eventId := Some eventId, le_id := Some eventId\<rparr>
          in hub\<lparr>sh_sequence := n, sh_buffer := push_bounded SSE_BUFFER (eventId, enriched) (sh_buffer hub),
                 sh_clients := map (write_frame (Event eventId enriched))
                   (filter (\<lambda>c. \<not> sc_broken c) (sh_clients hub))\<rparr>)"

text \<open>The frames after the event the client names; none when it is not in the buffer.\<close>

definition missed_frames :: "string option \<Rightarrow> (string \<times> sse_event) list \<Rightarrow> frame list" where
  "missed_frames lastEventId buffer =
     (if truthy lastEventId
      then (case find_index (\<lambda>(i, e). Some i = lastEventId \<or> le_eventId e = lastEventId \<or> le_id e = lastEventId) buffer of
              None \<Rightarrow> []
            | Some lastIdx \<Rightarrow> map (\<lambda>(i, e). Event i e) (drop (lastIdx + 1) buffer))
      else [])"

definition stream_open :: "nat \<Rightarrow> string option \<Rightarrow> string option \<Rightarrow> sse_hub \<Rightarrow> sse_hub" where
  "stream_open r header query hub =
     hub\<lparr>sh_clients := sh_clients hub @
        [\<lparr>sc_res = r, sc_broken = False,
          sc_frames = Connected # missed_frames (js_or header query) (sh_buffer hub)\<rparr>]\<rparr>"

definition stream_keep_alive :: "nat \<Rightarrow> sse_hub \<Rightarrow> sse_hub" where
  "stream_keep_alive r hub =
     hub\<lparr>sh_clients := map (\<lambda>c. if sc_res c = r then write_frame KeepAlive c else c)
        (filter (\<lambda>c. sc_res c = r \<longrightarrow> \<not> sc_broken c) (sh_clients hub))\<rparr>"

definition stream_close :: "nat \<Rightarrow> sse_hub \<Rightarrow> sse_hub" where
  "stream_close r hub = hub\<lparr>sh_clients := filter (\<lambda>c. sc_res c \<noteq> r) (sh_clients hub)\<rparr>"

definition broadcast_endpoint :: "nat \<Rightarrow> sse_event option \<Rightarrow> sse_hub \<Rightarrow> (nat \<times> sse_event option) response \<times> sse_hub" where
  "broadcast_endpoint now body hub =
     (let hub = broadcastSSEEvent now body hub
      in (api_success ''Event broadcasted to active SSE clients'' (length (sh_clients hub), body) 200, hub))"

subsection \<open>The consumer\<close>

definition PROCESSED_LIMIT :: nat where "PROCESSED_LIMIT = 1000"

record event_consumer =
  ec_processed :: "string list" \<comment> \<open>\<open>processedEventIds\<close>, a JavaScript set in insertion order\<close>
  ec_messagesReceived :: nat
  ec_eventsBroadcasted :: nat
  ec_acked :: nat
  ec_hub :: sse_hub

definition remember :: "string \<Rightarrow> string list \<Rightarrow> string list" where
  "remember i ids = push_bounded PROCESSED_LIMIT i ids"

definition send_live :: "nat \<Rightarrow> sse_event \<Rightarrow> event_consumer \<Rightarrow> event_consumer" where
  "send_live now e s = s\<lparr>ec_hub := broadcastSSEEvent now (Some e) (ec_hub s),
     ec_eventsBroadcasted := ec_eventsBroadcasted s + 1\<rparr>"

definition banking_event :: "string \<Rightarrow> string \<Rightarrow> string \<Rightarrow> string \<Rightarrow> msg_content \<Rightarrow> msg_headers \<Rightarrow> sse_event" where
  "banking_event eventId eventType routingKey traceId c h =
     (let p = content_payload c; ty = (if routingKey \<noteq> '''' then routingKey else eventType)
      in no_event\<lparr>le_id := Some eventId, le_eventId := Some eventId, le_type := Some ty,
           le_eventType := Some ty, le_routingKey := Some routingKey, le_traceId := Some traceId,
           le_transactionId := js_or (p_transactionId p) (js_or (c_transactionId c) (h_transactionId h)),
           le_referenceId := js_or (p_referenceId p) (c_referenceId c),
           le_amount := p_amount p, le_currency := Some (or_else (p_currency p) ''USD''),
           le_sourceAccountNumber := p_sourceAccountNumber p,
           le_targetAccountNumber := p_targetAccountNumber p,
           le_recipient := js_or (p_recipient p) (p_email p), le_payload := Some p\<rparr>)"

definition notification_event :: "(rat \<Rightarrow> string) \<Rightarrow> sse_event \<Rightarrow> payload \<Rightarrow> sse_event" where
  "notification_event show_num e p =
     (let amount = (case le_amount e of None \<Rightarrow> ''funds'' | Some a \<Rightarrow> show_num a @ '' '' @ or_else (le_currency e) '''');
          ref = (if truthy (le_referenceId e) then '' (Ref: '' @ the (le_referenceId e) @ '')'' else '''');
          message = ''Your payment of '' @ amount @ ref @ '' was completed successfully.'';
          i = ''notif-'' @ the (le_id e)
      in no_event\<lparr>le_id := Some i, le_eventId := Some i, le_type := Some ''notification.created'',
           le_eventType := Some ''notification.created'', le_routingKey := Some ''notification.created'',
           le_traceId := le_traceId e, le_transactionId := le_transactionId e,
           le_referenceId := le_referenceId e, le_title := Some ''Payment Completed'',
           le_subject := Some ''VaultCore Transfer Completed'', le_message := Some message,
           le_amount := le_amount e, le_currency := le_currency e, le_recipient := le_recipient e,
           le_channel := Some ''EMAIL'', le_status := Some ''SENT'', le_read := Some False,
           le_payload := Some (p\<lparr>p_subject := Some ''VaultCore Transfer Completed'', p_body := Some message\<rparr>)\<rparr>)"

text \<open>\<open>gen\<close> is the identifier made up for an event without one.\<close>

definition live_id :: "string \<Rightarrow> msg_content \<Rightarrow> msg_headers \<Rightarrow> string" where
  "live_id gen c h = or_else (h_eventId h) (or_else (c_eventId c) (or_else (c_id c) gen))"

definition handleLiveEvent ::
  "(rat \<Rightarrow> string) \<Rightarrow> nat \<Rightarrow> string \<Rightarrow> msg_content \<Rightarrow> string \<Rightarrow> msg_headers \<Rightarrow> event_consumer \<Rightarrow> event_consumer" where
  "handleLiveEvent show_num now gen c routingKey h s =
     (let eventType = or_else (c_eventType c) (or_else (c_type c) routingKey);
          eventId = live_id gen c h;
          traceId = or_else (h_traceId h) (or_else (c_traceId c) (''trace-'' @ eventId))
      in if eventId \<in> set (ec_processed s) then s
         else
           let s = s\<lparr>ec_processed := remember eventId (ec_processed s),
                     ec_messagesReceived := ec_messagesReceived s + 1\<rparr>;
               e = banking_event eventId eventType routingKey traceId c h;
               s = send_live now e s
           in if routingKey = ''payment.completed'' \<or> eventType = ''PAYMENT_COMPLETED''
              then send_live now (notification_event show_num e (content_payload c)) s else s)"

text \<open>A message from the gateway's queue; one that is not JSON counts as the empty object.\<close>

definition consume_live :: "(rat \<Rightarrow> string) \<Rightarrow> nat \<Rightarrow> string \<Rightarrow> message \<Rightarrow> event_consumer \<Rightarrow> event_consumer" where
  "consume_live show_num now gen m s =
     (let c = (case m_content m of None \<Rightarrow> no_content | Some c \<Rightarrow> c);
          s = handleLiveEvent show_num now gen c (m_routingKey m) (m_headers m) s
      in s\<lparr>ec_acked := ec_acked s + 1\<rparr>)"

text \<open>A message on the Redis channel; one that is not JSON is dropped.\<close>

definition redis_live :: "(rat \<Rightarrow> string) \<Rightarrow> nat \<Rightarrow> string \<Rightarrow> msg_content option \<Rightarrow> event_consumer \<Rightarrow> event_consumer" where
  "redis_live show_num now gen content s =
     (case content of
        None \<Rightarrow> s
      | Some c \<Rightarrow> handleLiveEvent show_num now gen c
                   (or_else (c_routingKey c) (or_else (c_type c) ''payment.completed'')) no_headers s)"

definition gateway_queue_keys :: "string list" where
  "gateway_queue_keys = [''payment.completed'', ''payment.failed'', ''payment.reversed'', ''notification.email'',
     ''notification.sms'', ''notification.created'', ''account.balance.updated'', ''account.created'',
     ''ledger.entry.created'', ''circuit-breaker.state.changed'']"

subsection \<open>The connection\<close>

text \<open>
  Attempts to connect that are under way are counted: \<open>start\<close> and the timer can each begin one.
  \<open>cs_open\<close> counts the connections that have been made and not been closed.
\<close>

record consumer_conn =
  cs_running :: bool
  cs_connected :: bool
  cs_timer :: bool
  cs_attempts :: nat
  cs_connecting :: nat
  cs_open :: nat

definition conn_start :: consumer_conn where
  "conn_start = \<lparr>cs_running = False, cs_connected = False, cs_timer = False, cs_attempts = 0,
     cs_connecting = 0, cs_open = 0\<rparr>"

definition reconnect_delay :: "nat \<Rightarrow> rat" where
  "reconnect_delay n = min (2000 * (3 / 2) ^ (n - 1)) 30000"

definition scheduleReconnect :: "consumer_conn \<Rightarrow> consumer_conn" where
  "scheduleReconnect s =
     (if \<not> cs_running s \<or> cs_timer s then s else s\<lparr>cs_attempts := cs_attempts s + 1, cs_timer := True\<rparr>)"

definition cleanup :: "consumer_conn \<Rightarrow> consumer_conn" where
  "cleanup s = s\<lparr>cs_connected := False\<rparr>"

definition begin_connect :: "consumer_conn \<Rightarrow> consumer_conn" where
  "begin_connect s = (if \<not> cs_running s then s else s\<lparr>cs_connecting := cs_connecting s + 1\<rparr>)"

definition consumer_start :: "consumer_conn \<Rightarrow> consumer_conn" where
  "consumer_start s = (if cs_running s \<and> cs_connected s then s else begin_connect (s\<lparr>cs_running := True\<rparr>))"

definition connect_done :: "consumer_conn \<Rightarrow> consumer_conn" where
  "connect_done s = s\<lparr>cs_connecting := cs_connecting s - 1, cs_open := cs_open s + 1, cs_connected := True, cs_attempts := 0\<rparr>"

definition connect_failed :: "consumer_conn \<Rightarrow> consumer_conn" where
  "connect_failed s = scheduleReconnect (cleanup (s\<lparr>cs_connecting := cs_connecting s - 1\<rparr>))"

definition connection_closed :: "consumer_conn \<Rightarrow> consumer_conn" where
  "connection_closed s = scheduleReconnect (cleanup (s\<lparr>cs_open := cs_open s - 1\<rparr>))"

definition timer_fired :: "consumer_conn \<Rightarrow> consumer_conn" where
  "timer_fired s =
     (let s = s\<lparr>cs_timer := False\<rparr>
      in if cs_running s \<and> \<not> cs_connected s then begin_connect s else s)"

text \<open>\<open>stop\<close> closes the connection it knows; its \<open>close\<close> event comes later.\<close>

definition consumer_stop :: "consumer_conn \<Rightarrow> consumer_conn" where
  "consumer_stop s = cleanup (s\<lparr>cs_running := False, cs_timer := False\<rparr>)"

inductive conn_step :: "consumer_conn \<Rightarrow> consumer_conn \<Rightarrow> bool" where
  Start: "conn_step s (consumer_start s)"
| Done: "0 < cs_connecting s \<Longrightarrow> conn_step s (connect_done s)"
| Failed: "0 < cs_connecting s \<Longrightarrow> conn_step s (connect_failed s)"
| Closed: "0 < cs_open s \<Longrightarrow> conn_step s (connection_closed s)"
| Timer: "cs_timer s \<Longrightarrow> conn_step s (timer_fired s)"
| Stop: "conn_step s (consumer_stop s)"

inductive_cases conn_stepE: "conn_step s s'"

lemmas conn_defs = consumer_start_def connect_done_def connect_failed_def connection_closed_def
  timer_fired_def consumer_stop_def scheduleReconnect_def cleanup_def begin_connect_def

subsection \<open>The ring buffer\<close>

text \<open>The buffer holds at most 100 events, each under the identifier it carries.\<close>

definition hub_ok :: "sse_hub \<Rightarrow> bool" where
  "hub_ok hub \<longleftrightarrow> length (sh_buffer hub) \<le> SSE_BUFFER \<and>
     (\<forall>(i, e) \<in> set (sh_buffer hub). le_id e = Some i \<and> le_eventId e = Some i)"

definition enriched :: "sse_event \<Rightarrow> sse_event" where
  "enriched e = e\<lparr>le_eventId := own_id e, le_id := own_id e\<rparr>"

definition entry_of :: "sse_event \<Rightarrow> string \<times> sse_event" where
  "entry_of e = (the (own_id e), enriched e)"

lemma broadcast_known:
  assumes "truthy (own_id e)" and "hub_ok hub"
  shows "sh_buffer (broadcastSSEEvent now (Some e) hub) = lastn SSE_BUFFER (sh_buffer hub @ [entry_of e])"
    and "sh_clients (broadcastSSEEvent now (Some e) hub) =
      map (write_frame (Event (the (own_id e)) (enriched e))) (filter (\<lambda>c. \<not> sc_broken c) (sh_clients hub))"
proof -
  have "Some (the (own_id e)) = own_id e" using assms(1) by (auto simp: truthy_def split: option.splits)
  then show "sh_buffer (broadcastSSEEvent now (Some e) hub) = lastn SSE_BUFFER (sh_buffer hub @ [entry_of e])"
    and "sh_clients (broadcastSSEEvent now (Some e) hub) =
      map (write_frame (Event (the (own_id e)) (enriched e))) (filter (\<lambda>c. \<not> sc_broken c) (sh_clients hub))"
    using assms
    by (simp_all add: broadcastSSEEvent_def Let_def or_else_def entry_of_def enriched_def hub_ok_def push_bounded_lastn)
qed

lemma hub_ok_broadcast: "hub_ok hub \<Longrightarrow> hub_ok (broadcastSSEEvent now e hub)"
  using set_push_bounded[of SSE_BUFFER]
  by (cases e) (fastforce simp: hub_ok_def broadcastSSEEvent_def Let_def push_bounded_length)+

lemma hub_ok_clients [simp]:
  "hub_ok hub_start" "hub_ok (stream_open r a b hub) = hub_ok hub"
  "hub_ok (stream_keep_alive r hub) = hub_ok hub" "hub_ok (stream_close r hub) = hub_ok hub"
  by (simp_all add: hub_ok_def hub_start_def stream_open_def stream_keep_alive_def stream_close_def)

definition broadcast_all :: "nat \<Rightarrow> sse_event list \<Rightarrow> sse_hub \<Rightarrow> sse_hub" where
  "broadcast_all now es hub = fold (\<lambda>e. broadcastSSEEvent now (Some e)) es hub"

lemma broadcast_all_buffer:
  assumes "hub_ok hub" and "\<forall>e \<in> set es. truthy (own_id e)"
  shows "hub_ok (broadcast_all now es hub)"
    and "sh_buffer (broadcast_all now es hub) = lastn SSE_BUFFER (sh_buffer hub @ map entry_of es)"
proof -
  show "hub_ok (broadcast_all now es hub)" unfolding broadcast_all_def using assms(1)
    by (induction es arbitrary: hub) (simp_all add: hub_ok_broadcast)
  show "sh_buffer (broadcast_all now es hub) = lastn SSE_BUFFER (sh_buffer hub @ map entry_of es)"
    using assms
  proof (induction es rule: rev_induct)
    case Nil
    then show ?case by (simp add: broadcast_all_def hub_ok_def lastn_def)
  next
    case (snoc e es)
    have "hub_ok (broadcast_all now es hub)" unfolding broadcast_all_def using snoc.prems(1)
      by (induction es arbitrary: hub) (simp_all add: hub_ok_broadcast)
    then have "sh_buffer (broadcast_all now (es @ [e]) hub) =
        lastn SSE_BUFFER (sh_buffer (broadcast_all now es hub) @ [entry_of e])"
      using broadcast_known(1) snoc.prems(2) by (simp add: broadcast_all_def)
    with snoc show ?case using lastn_snoc[of SSE_BUFFER "sh_buffer hub @ map entry_of es" "entry_of e"] by simp
  qed
qed

lemma missed_frames_split:
  assumes "truthy (Some i)" and "\<forall>(j, e) \<in> set xs. j \<noteq> i \<and> le_id e = Some j \<and> le_eventId e = Some j"
  shows "missed_frames (Some i) (xs @ (i, e) # ys) = map (\<lambda>(i, e). Event i e) ys"
    and "missed_frames (Some i) xs = []"
proof -
  let ?P = "\<lambda>(j, e). Some j = Some i \<or> le_eventId e = Some i \<or> le_id e = Some i"
  have no: "\<forall>x \<in> set xs. \<not> ?P x" using assms(2) by auto
  then have "find_index ?P (xs @ (i, e) # ys) = Some (length xs)" by (rule find_index_first) simp
  then show "missed_frames (Some i) (xs @ (i, e) # ys) = map (\<lambda>(i, e). Event i e) ys"
    using assms(1) by (simp add: missed_frames_def)
  have "find_index ?P xs = None" using no find_index_None[of ?P xs] by simp
  then show "missed_frames (Some i) xs = []" using assms(1) by (simp add: missed_frames_def)
qed

text \<open>Resuming the event stream. A client that last saw event \<open>x\<close> and reconnects with its identifier
  after \<open>n\<close> more events is sent exactly those events, in order, when \<open>n\<close> is below 100; from 100 on
  it is sent none of them and cannot tell.\<close>

lemma resume_frames:
  assumes "hub_ok hub" and "truthy (own_id x)" and "\<forall>e \<in> set es. truthy (own_id e) \<and> own_id e \<noteq> own_id x"
    and "own_id x \<notin> Some ` fst ` set (sh_buffer hub)"
  shows "sc_frames (last (sh_clients (stream_open r (own_id x) query
           (broadcast_all now es (broadcastSSEEvent now (Some x) hub))))) =
         Connected # (if length es < 100 then map (\<lambda>e. Event (the (own_id e)) (enriched e)) es else [])"
proof -
  obtain i where i: "own_id x = Some i" "truthy (Some i)"
    using assms(2) by (cases "own_id x") auto
  let ?hub = "broadcastSSEEvent now (Some x) hub"
  have all: "broadcast_all now es ?hub = broadcast_all now (x # es) hub" by (simp add: broadcast_all_def)
  have buffer: "sh_buffer (broadcast_all now (x # es) hub) = lastn SSE_BUFFER (sh_buffer hub @ entry_of x # map entry_of es)"
    using broadcast_all_buffer(2)[OF assms(1), of "x # es"] assms(2,3) by simp
  have entries: "\<forall>(j, e) \<in> set (map entry_of es). j \<noteq> i \<and> le_id e = Some j \<and> le_eventId e = Some j"
    using assms(3) i by (fastforce simp: entry_of_def enriched_def truthy_def split: option.splits)
  have "missed_frames (Some i) (lastn SSE_BUFFER (sh_buffer hub @ entry_of x # map entry_of es)) =
      (if length es < 100 then map (\<lambda>e. Event (the (own_id e)) (enriched e)) es else [])"
  proof (cases "length es < 100")
    case True
    define k where "k = length (sh_buffer hub) + Suc (length es) - SSE_BUFFER"
    have "k \<le> length (sh_buffer hub)" using True by (simp add: k_def SSE_BUFFER_def)
    moreover have "lastn SSE_BUFFER (sh_buffer hub @ entry_of x # map entry_of es) =
        drop k (sh_buffer hub @ entry_of x # map entry_of es)" by (simp add: lastn_def k_def)
    ultimately have "lastn SSE_BUFFER (sh_buffer hub @ entry_of x # map entry_of es) =
        drop k (sh_buffer hub) @ (i, enriched x) # map entry_of es"
      using i by (simp add: entry_of_def)
    moreover have "\<forall>(j, e) \<in> set (sh_buffer hub). j \<noteq> i \<and> le_id e = Some j \<and> le_eventId e = Some j"
      using assms(1,4) i(1) by (force simp: hub_ok_def)
    then have "\<forall>(j, e) \<in> set (drop k (sh_buffer hub)). j \<noteq> i \<and> le_id e = Some j \<and> le_eventId e = Some j"
      by (blast dest: in_set_dropD)
    ultimately show ?thesis using missed_frames_split(1)[OF i(2)] True
      by (simp add: entry_of_def case_prod_beta)
  next
    case False
    then have "length es - 99 = Suc (length es - 100)" by simp
    then have "lastn SSE_BUFFER (sh_buffer hub @ entry_of x # map entry_of es) = lastn SSE_BUFFER (map entry_of es)"
      using False by (simp add: lastn_def SSE_BUFFER_def)
    moreover have "\<forall>(j, e) \<in> set (lastn SSE_BUFFER (map entry_of es)). j \<noteq> i \<and> le_id e = Some j \<and> le_eventId e = Some j"
      using entries set_lastn[of SSE_BUFFER "map entry_of es"] by blast
    ultimately show ?thesis using missed_frames_split(2)[OF i(2)] False by simp
  qed
  moreover have "js_or (Some i) query = Some i" using i by (simp add: js_or_def)
  ultimately show ?thesis by (simp add: stream_open_def all buffer i(1))
qed

definition event_named :: "string \<Rightarrow> sse_event" where
  "event_named i = no_event\<lparr>le_eventId := Some i\<rparr>"

subsection \<open>Deduplication\<close>

text \<open>
  The identifiers are remembered in order of arrival, each once, 1000 at most; an event whose
  identifier is remembered changes nothing.
\<close>

definition consumer_ok :: "event_consumer \<Rightarrow> bool" where
  "consumer_ok s \<longleftrightarrow> hub_ok (ec_hub s) \<and> distinct (ec_processed s) \<and> length (ec_processed s) \<le> PROCESSED_LIMIT"

lemma send_live_fields [simp]:
  "ec_processed (send_live now e s) = ec_processed s"
  "ec_messagesReceived (send_live now e s) = ec_messagesReceived s"
  "ec_hub (send_live now e s) = broadcastSSEEvent now (Some e) (ec_hub s)"
  by (simp_all add: send_live_def)

lemma handle_duplicate: "live_id gen c h \<in> set (ec_processed s) \<Longrightarrow> handleLiveEvent f now gen c k h s = s"
  by (simp add: handleLiveEvent_def Let_def)

lemma handle_new:
  assumes "live_id gen c h \<notin> set (ec_processed s)"
  shows "ec_processed (handleLiveEvent f now gen c k h s) = remember (live_id gen c h) (ec_processed s)"
    and "ec_messagesReceived (handleLiveEvent f now gen c k h s) = ec_messagesReceived s + 1"
  using assms by (simp_all add: handleLiveEvent_def Let_def)

lemma handle_ok: "consumer_ok s \<Longrightarrow> consumer_ok (handleLiveEvent f now gen c k h s)"
proof (cases "live_id gen c h \<in> set (ec_processed s)")
  case False
  assume ok: "consumer_ok s"
  have "distinct (remember (live_id gen c h) (ec_processed s))"
    using ok False by (auto simp: consumer_ok_def remember_def push_bounded_def Let_def distinct_tl)
  moreover have "length (remember (live_id gen c h) (ec_processed s)) \<le> PROCESSED_LIMIT"
    using ok by (simp add: consumer_ok_def remember_def push_bounded_length)
  moreover have "hub_ok (ec_hub (handleLiveEvent f now gen c k h s))"
    using ok by (simp add: consumer_ok_def handleLiveEvent_def Let_def hub_ok_broadcast)
  ultimately show ?thesis by (simp add: consumer_ok_def handle_new(1)[OF False])
qed (simp add: handle_duplicate)

text \<open>As long as no more than 1000 identifiers have come in, none is handled twice.\<close>

lemma handled_once:
  assumes "ec_processed s = []" and "card (set (map (\<lambda>(gen, c, k, h). live_id gen c h) es)) \<le> PROCESSED_LIMIT"
  shows "ec_messagesReceived (fold (\<lambda>(gen, c, k, h). handleLiveEvent f now gen c k h) es s) =
         ec_messagesReceived s + card (set (map (\<lambda>(gen, c, k, h). live_id gen c h) es))"
proof -
  let ?id = "\<lambda>(gen, c, k :: string, h). live_id gen c h"
  let ?run = "\<lambda>es. fold (\<lambda>(gen, c, k, h). handleLiveEvent f now gen c k h) es s"
  have "card (set (map ?id es)) \<le> PROCESSED_LIMIT \<longrightarrow>
      set (ec_processed (?run es)) = set (map ?id es) \<and> distinct (ec_processed (?run es)) \<and>
      ec_messagesReceived (?run es) = ec_messagesReceived s + card (set (map ?id es))"
  proof (induction es rule: rev_induct)
    case Nil
    then show ?case using assms(1) by simp
  next
    case (snoc x es)
    obtain gen c k h where x: "x = (gen, c, k, h)" by (cases x)
    let ?s = "?run es"
    show ?case
    proof
      assume few: "card (set (map ?id (es @ [x]))) \<le> PROCESSED_LIMIT"
      have "set (map ?id es) \<subseteq> set (map ?id (es @ [x]))" by (simp only: map_append set_append) blast
      then have "card (set (map ?id es)) \<le> card (set (map ?id (es @ [x])))" by (intro card_mono) simp_all
      with snoc.IH few have IH: "set (ec_processed ?s) = set (map ?id es)" "distinct (ec_processed ?s)"
        "ec_messagesReceived ?s = ec_messagesReceived s + card (set (map ?id es))" by auto
      have step: "?run (es @ [x]) = handleLiveEvent f now gen c k h ?s" by (simp add: x)
      show "set (ec_processed (?run (es @ [x]))) = set (map ?id (es @ [x])) \<and>
          distinct (ec_processed (?run (es @ [x]))) \<and>
          ec_messagesReceived (?run (es @ [x])) = ec_messagesReceived s + card (set (map ?id (es @ [x])))"
      proof (cases "live_id gen c h \<in> set (ec_processed ?s)")
        case True
        then show ?thesis unfolding step handle_duplicate[OF True] using IH
          by (simp add: x insert_absorb)
      next
        case False
        have "length (ec_processed ?s) = card (set (map ?id es))" using IH distinct_card by metis
        moreover have "card (set (map ?id (es @ [x]))) = Suc (card (set (map ?id es)))"
          using False IH(1) by (simp add: x)
        ultimately have "remember (live_id gen c h) (ec_processed ?s) = ec_processed ?s @ [live_id gen c h]"
          using few by (simp add: remember_def push_bounded_def Let_def)
        then show ?thesis unfolding step handle_new[OF False] using IH False
          by (simp add: x)
      qed
    qed
  qed
  with assms(2) show ?thesis by blast
qed

subsection \<open>Reconnecting\<close>

lemma reconnect_delay_bounds: "2000 \<le> reconnect_delay n \<and> reconnect_delay n \<le> 30000"
  by (simp add: reconnect_delay_def)

lemma reconnect_delay_mono: "m \<le> n \<Longrightarrow> reconnect_delay m \<le> reconnect_delay n"
proof -
  assume "m \<le> n"
  then have "(3 / 2 :: rat) ^ (m - 1) \<le> (3 / 2) ^ (n - 1)" by (intro power_increasing) auto
  then show ?thesis by (simp add: reconnect_delay_def min_le_iff_disj)
qed

text \<open>
  Whatever the order of starts, attempts that succeed or fail, closed connections, timers and
  stops: a running consumer without a connection is connecting or has a timer, and a timer only
  exists while it runs.
\<close>

definition conn_ok :: "consumer_conn \<Rightarrow> bool" where
  "conn_ok s \<longleftrightarrow> (cs_running s \<longrightarrow> cs_connected s \<or> cs_timer s \<or> 0 < cs_connecting s) \<and>
     (cs_timer s \<longrightarrow> cs_running s)"

lemma conn_ok_step: "conn_step s s' \<Longrightarrow> conn_ok s \<Longrightarrow> conn_ok s'"
  by (induction rule: conn_step.induct) (auto simp: conn_ok_def conn_defs Let_def)

lemma consumer_never_stuck: "conn_step\<^sup>*\<^sup>* conn_start s \<Longrightarrow> conn_ok s"
  by (induction rule: rtranclp_induct) (simp add: conn_ok_def conn_start_def, rule conn_ok_step)

text \<open>\<open>stop\<close> during an attempt does not stop it: the consumer is connected although it does not run.\<close>

lemma stop_while_connecting:
  "\<exists>s. conn_step\<^sup>*\<^sup>* conn_start s \<and> \<not> cs_running s \<and> cs_connected s"
proof (intro exI conjI)
  let ?s = "connect_done (consumer_stop (consumer_start conn_start))"
  have "conn_step conn_start (consumer_start conn_start)" by (rule Start)
  moreover have "conn_step (consumer_start conn_start) (consumer_stop (consumer_start conn_start))" by (rule Stop)
  moreover have "conn_step (consumer_stop (consumer_start conn_start)) ?s"
    by (rule Done) (simp add: conn_defs conn_start_def)
  ultimately show "conn_step\<^sup>*\<^sup>* conn_start ?s"
    using r_into_rtranclp rtranclp.rtrancl_into_rtrancl by meson
  show "\<not> cs_running ?s" "cs_connected ?s" by (simp_all add: conn_defs conn_start_def)
qed

end
