(* ===== verification/Auth.thy ===== *)
theory Auth
  imports Ledger Redis
begin

text \<open>
  The auth service: \<open>services/authService.js\<close>, \<open>utils/token.js\<close>, \<open>utils/password.js\<close>,
  \<open>utils/tokenStore.js\<close>, \<open>repositories/userRepository.js\<close>, the validators, the controller and its
  cookies. \<open>jsonwebtoken\<close>, \<open>bcryptjs\<close> and \<open>randomUUID\<close> are the parameters of \<open>auth_lib\<close>; what the
  code relies on is the locale \<open>auth_laws\<close>. Database statements do not fail here; Redis calls do.
\<close>

subsection \<open>Libraries\<close>

record refresh_claims =
  rc_userId :: "string option"
  rc_jti :: "string option"
  rc_tokenId :: "string option"

record auth_lib =
  au_sign_access :: "nat \<Rightarrow> claims \<Rightarrow> string" \<comment> \<open>time, payload\<close>
  au_verify_access :: "nat \<Rightarrow> string \<Rightarrow> claims option"
  au_sign_refresh :: "nat \<Rightarrow> refresh_claims \<Rightarrow> string"
  au_verify_refresh :: "nat \<Rightarrow> string \<Rightarrow> refresh_claims option"
  au_hash :: "nat \<Rightarrow> string \<Rightarrow> string" \<comment> \<open>salt, password\<close>
  au_compare :: "string \<Rightarrow> string \<Rightarrow> bool"
  au_uuid :: "nat \<Rightarrow> string"

definition ACCESS_MS :: nat where "ACCESS_MS = 15 * 60 * 1000"
definition REFRESH_MS :: nat where "REFRESH_MS = 7 * 24 * 60 * 60 * 1000"
definition refreshTokenTtlSeconds :: nat where "refreshTokenTtlSeconds = 7 * 24 * 60 * 60"

text \<open>
  Tokens carry whole seconds, so one is only sure to verify until a second before its time is over.
\<close>

locale auth_laws =
  fixes A :: auth_lib
  assumes verify_access: "t \<le> now \<Longrightarrow> now + 1000 \<le> t + ACCESS_MS \<Longrightarrow>
            au_verify_access A now (au_sign_access A t c) = Some c"
    and verify_refresh: "t \<le> now \<Longrightarrow> now + 1000 \<le> t + REFRESH_MS \<Longrightarrow>
            au_verify_refresh A now (au_sign_refresh A t rc) = Some rc"
    and verify_refresh_only: "au_verify_refresh A now (au_sign_refresh A t rc) \<in> {None, Some rc}"
    and verify_expired: "t \<le> now \<Longrightarrow> now \<le> later \<Longrightarrow> au_verify_refresh A now (au_sign_refresh A t rc) = None \<Longrightarrow>
            au_verify_refresh A later (au_sign_refresh A t rc) = None"
    and refresh_nonempty: "au_sign_refresh A t rc \<noteq> ''''"
    and compare_hash: "au_compare A pw (au_hash A n pw)"
    and uuid_fresh: "au_uuid A m = au_uuid A n \<Longrightarrow> m = n"
    and uuid_nonempty: "au_uuid A n \<noteq> ''''"

record 's auth_world =
  aw_db :: db
  aw_redis :: "'s conn"
  aw_now :: nat
  aw_seq :: nat \<comment> \<open>random choices made so far\<close>

subsection \<open>Token store\<close>

definition session_key :: "string \<Rightarrow> string \<Rightarrow> string" where
  "session_key userId jti = ''refresh:'' @ userId @ '':'' @ jti"

definition auth_redis :: "('s \<Rightarrow> 'a \<times> 's) \<Rightarrow> 's auth_world \<Rightarrow> (app_error + 'a) \<times> 's auth_world" where
  "auth_redis f w =
     (let (r, c) = redis_call f (aw_redis w)
      in (case r of Inl m \<Rightarrow> Inl (PlainError None (Msg m)) | Inr x \<Rightarrow> Inr x, w\<lparr>aw_redis := c\<rparr>))"

definition saveRefreshToken ::
  "('s, string) kv \<Rightarrow> string \<Rightarrow> string \<Rightarrow> string \<Rightarrow> 's auth_world \<Rightarrow> (app_error + unit) \<times> 's auth_world" where
  "saveRefreshToken K userId jti tok = auth_redis (set_ex K (session_key userId jti) tok refreshTokenTtlSeconds)"

definition isRefreshTokenValid ::
  "('s, string) kv \<Rightarrow> string \<Rightarrow> string \<Rightarrow> 's auth_world \<Rightarrow> (app_error + bool) \<times> 's auth_world" where
  "isRefreshTokenValid K userId jti w =
     (let (r, w) = auth_redis (exists_cmd K (session_key userId jti)) w
      in (rbind r (\<lambda>n. Inr (n = 1)), w))"

definition revokeRefreshToken ::
  "('s, string) kv \<Rightarrow> string \<Rightarrow> string \<Rightarrow> 's auth_world \<Rightarrow> (app_error + unit) \<times> 's auth_world" where
  "revokeRefreshToken K userId jti w =
     (let (r, w) = auth_redis (del_cmd K [session_key userId jti]) w
      in (rbind r (\<lambda>_. Inr ()), w))"

subsection \<open>Users\<close>

definition findByEmail :: "string \<Rightarrow> db \<Rightarrow> user option" where
  "findByEmail email db = List.find (\<lambda>u. u_email u = email \<and> u_deletedAt u = None) (db_users db)"

record signup_data =
  sd_email :: string
  sd_password :: string
  sd_firstName :: string
  sd_lastName :: string
  sd_role :: "role option"

text \<open>The e-mail column is unique over all rows, deleted ones included.\<close>

definition createUser :: "db_env \<Rightarrow> signup_data \<Rightarrow> string \<Rightarrow> db \<Rightarrow> (app_error + user) \<times> db" where
  "createUser env d passwordHash db =
     (if sd_email d \<in> u_email ` set (db_users db) then (Inl unique_violation, db)
      else let u = \<lparr>u_id = new_id env (db_seq db), u_email = sd_email d, u_passwordHash = passwordHash,
                    u_firstName = sd_firstName d, u_lastName = sd_lastName d,
                    u_role = (case sd_role d of None \<Rightarrow> CUSTOMER | Some r \<Rightarrow> r), u_isActive = True,
                    u_deletedAt = None, u_createdAt = db_now db\<rparr>
           in (Inr u, db\<lparr>db_users := db_users db @ [u], db_seq := db_seq db + 1\<rparr>))"

text \<open>The user without the password hash.\<close>

record safe_user =
  su_id :: string
  su_email :: string
  su_firstName :: string
  su_lastName :: string
  su_role :: role
  su_isActive :: bool

definition safe_user :: "user \<Rightarrow> safe_user" where
  "safe_user u = \<lparr>su_id = u_id u, su_email = u_email u, su_firstName = u_firstName u,
     su_lastName = u_lastName u, su_role = u_role u, su_isActive = u_isActive u\<rparr>"

record auth_result =
  ar_user :: safe_user
  ar_accessToken :: string
  ar_refreshToken :: string

subsection \<open>Tokens\<close>

definition generateAccessToken :: "auth_lib \<Rightarrow> user \<Rightarrow> 's auth_world \<Rightarrow> string" where
  "generateAccessToken A u w = au_sign_access A (aw_now w)
     \<lparr>cl_userId = Some (u_id u), cl_email = Some (u_email u), cl_role = Some (u_role u)\<rparr>"

definition generateRefreshToken :: "auth_lib \<Rightarrow> user \<Rightarrow> 's auth_world \<Rightarrow> (string \<times> string) \<times> 's auth_world" where
  "generateRefreshToken A u w =
     (let jti = au_uuid A (aw_seq w)
      in ((au_sign_refresh A (aw_now w) \<lparr>rc_userId = Some (u_id u), rc_jti = Some jti, rc_tokenId = None\<rparr>, jti),
          w\<lparr>aw_seq := aw_seq w + 1\<rparr>))"

subsection \<open>Service\<close>

text \<open>The end of \<open>signup\<close> and \<open>login\<close>: both tokens, the session, the answer.\<close>

definition open_session ::
  "('s, string) kv \<Rightarrow> auth_lib \<Rightarrow> user \<Rightarrow> 's auth_world \<Rightarrow> (app_error + auth_result) \<times> 's auth_world" where
  "open_session K A u w =
     (let accessToken = generateAccessToken A u w;
          ((refreshToken, jti), w) = generateRefreshToken A u w
      in case saveRefreshToken K (u_id u) jti refreshToken w of
           (Inl e, w) \<Rightarrow> (Inl e, w)
         | (Inr _, w) \<Rightarrow> (Inr \<lparr>ar_user = safe_user u, ar_accessToken = accessToken, ar_refreshToken = refreshToken\<rparr>, w))"

definition signup ::
  "('s, string) kv \<Rightarrow> auth_lib \<Rightarrow> db_env \<Rightarrow> signup_data \<Rightarrow> 's auth_world \<Rightarrow> (app_error + auth_result) \<times> 's auth_world" where
  "signup K A env d w =
     (case findByEmail (sd_email d) (aw_db w) of
        Some _ \<Rightarrow> (Inl (ConflictError (Msg ''A user with this email address already exists'')), w)
      | None \<Rightarrow>
          let passwordHash = au_hash A (aw_seq w) (sd_password d); w = w\<lparr>aw_seq := aw_seq w + 1\<rparr>
          in (case createUser env d passwordHash (aw_db w) of
                (Inl e, db) \<Rightarrow> (Inl e, w\<lparr>aw_db := db\<rparr>)
              | (Inr u, db) \<Rightarrow> open_session K A u (w\<lparr>aw_db := db\<rparr>)))"

definition login ::
  "('s, string) kv \<Rightarrow> auth_lib \<Rightarrow> string \<Rightarrow> string \<Rightarrow> 's auth_world \<Rightarrow> (app_error + auth_result) \<times> 's auth_world" where
  "login K A email password w =
     (case findByEmail email (aw_db w) of
        None \<Rightarrow> (Inl (UnauthorizedError (Msg ''Invalid email or password'')), w)
      | Some u \<Rightarrow>
          if \<not> u_isActive u then (Inl (UnauthorizedError (Msg ''User account is deactivated'')), w)
          else if \<not> au_compare A password (u_passwordHash u)
          then (Inl (UnauthorizedError (Msg ''Invalid email or password'')), w)
          else open_session K A u w)"

text \<open>\<open>decoded.userId\<close> and \<open>decoded.jti || decoded.tokenId\<close>, when both are truthy.\<close>

definition session_of :: "refresh_claims \<Rightarrow> (string \<times> string) option" where
  "session_of c =
     (if truthy (rc_userId c) \<and> truthy (js_or (rc_jti c) (rc_tokenId c))
      then Some (the (rc_userId c), the (js_or (rc_jti c) (rc_tokenId c))) else None)"

definition refreshToken ::
  "('s, string) kv \<Rightarrow> auth_lib \<Rightarrow> string option \<Rightarrow> 's auth_world \<Rightarrow> (app_error + string) \<times> 's auth_world" where
  "refreshToken K A tok w =
     (case Option.bind tok (au_verify_refresh A (aw_now w)) of
        None \<Rightarrow> (Inl (UnauthorizedError (Msg ''Invalid or expired Refresh Token'')), w)
      | Some c \<Rightarrow>
          (case session_of c of
             None \<Rightarrow> (Inl (UnauthorizedError (Msg ''Malformed Refresh Token claims'')), w)
           | Some (userId, jti) \<Rightarrow>
               (case isRefreshTokenValid K userId jti w of
                  (Inl e, w) \<Rightarrow> (Inl e, w)
                | (Inr False, w) \<Rightarrow> (Inl (UnauthorizedError (Msg ''Refresh Token expired or revoked'')), w)
                | (Inr True, w) \<Rightarrow>
                    (case user_by_id userId (aw_db w) of
                       None \<Rightarrow> (Inl (UnauthorizedError (Msg ''User no longer active or valid'')), w)
                     | Some u \<Rightarrow>
                         if \<not> u_isActive u
                         then (Inl (UnauthorizedError (Msg ''User no longer active or valid'')), w)
                         else (Inr (generateAccessToken A u w), w)))))"

text \<open>Every error inside is caught: the answer is always the same.\<close>

definition logout ::
  "('s, string) kv \<Rightarrow> auth_lib \<Rightarrow> string option \<Rightarrow> 's auth_world \<Rightarrow> string \<times> 's auth_world" where
  "logout K A tok w =
     (''Logged out successfully'',
      if \<not> truthy tok then w
      else (case Option.bind (au_verify_refresh A (aw_now w) (the tok)) session_of of
              None \<Rightarrow> w
            | Some (userId, jti) \<Rightarrow> snd (revokeRefreshToken K userId jti w)))"

text \<open>Prisma takes \<open>id: undefined\<close> for no condition.\<close>

definition getProfile :: "string option \<Rightarrow> db \<Rightarrow> app_error + safe_user" where
  "getProfile userId db =
     (case (case userId of Some i \<Rightarrow> user_by_id i db
            | None \<Rightarrow> List.find (\<lambda>u. u_deletedAt u = None) (db_users db)) of
        None \<Rightarrow> Inl (NotFoundError (Msg ''User not found''))
      | Some u \<Rightarrow> Inr (safe_user u))"

subsection \<open>Cookies\<close>

text \<open>
  \<open>decodeURIComponent\<close> on strings as UTF-8 bytes: each escape or run of escapes must be one
  well-formed character, otherwise it throws (\<^const>\<open>None\<close>).
\<close>

definition hex_digit :: "char \<Rightarrow> nat option" where
  "hex_digit c =
     (let n = of_char c
      in if 48 \<le> n \<and> n \<le> 57 then Some (n - 48)
         else if 65 \<le> n \<and> n \<le> 70 then Some (n - 55)
         else if 97 \<le> n \<and> n \<le> 102 then Some (n - 87) else None)"

definition escaped_byte :: "string \<Rightarrow> nat option" where
  "escaped_byte s =
     (if length s \<ge> 3 \<and> s ! 0 = CHR ''%''
      then (case (hex_digit (s ! 1), hex_digit (s ! 2)) of (Some a, Some b) \<Rightarrow> Some (16 * a + b) | _ \<Rightarrow> None)
      else None)"

text \<open>How many bytes follow a first byte, and the range of the second.\<close>

definition utf8_follow :: "nat \<Rightarrow> (nat \<times> nat \<times> nat) option" where
  "utf8_follow b =
     (if b < 128 then Some (0, 0, 0)
      else if 194 \<le> b \<and> b \<le> 223 then Some (1, 128, 191)
      else if b = 224 then Some (2, 160, 191)
      else if b = 237 then Some (2, 128, 159)
      else if 225 \<le> b \<and> b \<le> 239 then Some (2, 128, 191)
      else if b = 240 then Some (3, 144, 191)
      else if 241 \<le> b \<and> b \<le> 243 then Some (3, 128, 191)
      else if b = 244 then Some (3, 128, 143)
      else None)"

fun take_bytes :: "nat \<Rightarrow> nat \<Rightarrow> nat \<Rightarrow> string \<Rightarrow> string option" where
  "take_bytes 0 lo hi s = Some ''''"
| "take_bytes (Suc n) lo hi s =
     (case escaped_byte s of
        None \<Rightarrow> None
      | Some b \<Rightarrow> if lo \<le> b \<and> b \<le> hi then map_option (Cons (char_of b)) (take_bytes n 128 191 (drop 3 s)) else None)"

function decodeURIComponent :: "string \<Rightarrow> string option" where
  "decodeURIComponent [] = Some ''''"
| "decodeURIComponent (c # s) =
     (if c \<noteq> CHR ''%'' then map_option (Cons c) (decodeURIComponent s)
      else case escaped_byte (c # s) of
        None \<Rightarrow> None
      | Some b \<Rightarrow>
          (case utf8_follow b of
             None \<Rightarrow> None
           | Some (n, lo, hi) \<Rightarrow>
               (case take_bytes n lo hi (drop 2 s) of
                  None \<Rightarrow> None
                | Some bs \<Rightarrow> map_option (\<lambda>r. char_of b # bs @ r) (decodeURIComponent (drop (2 + 3 * n) s)))))"
  by pat_completeness auto
termination by (relation "measure length") auto

fun parse_items :: "string list \<Rightarrow> (string \<times> string) list option" where
  "parse_items [] = Some []"
| "parse_items (item # items) =
     (let parts = split_on (CHR ''='') (js_trim item); name = hd parts
      in if name = '''' then parse_items items
         else case decodeURIComponent (join_with ''='' (tl parts)) of
                None \<Rightarrow> None
              | Some v \<Rightarrow> map_option (Cons (name, v)) (parse_items items))"

text \<open>\<open>parseCookies\<close>; a name set twice keeps its last value (\<open>cookie\<close>).\<close>

definition parseCookies :: "string option \<Rightarrow> (string \<times> string) list option" where
  "parseCookies header = (if \<not> truthy header then Some [] else parse_items (split_on (CHR '';'') (the header)))"

definition cookie :: "string \<Rightarrow> (string \<times> string) list \<Rightarrow> string option" where
  "cookie name cookies = map_of (rev cookies) name"

lemma decode_plain: "CHR ''%'' \<notin> set s \<Longrightarrow> decodeURIComponent s = Some s"
  by (induction s) auto



subsection \<open>Requests\<close>

text \<open>
  \<open>express-validator\<close>'s \<open>isEmail\<close> and \<open>normalizeEmail\<close> are parameters. The role is a string of the
  public request body.
\<close>

record email_lib =
  el_isEmail :: "string \<Rightarrow> bool"
  el_normalize :: "string \<Rightarrow> string"

record auth_body =
  ab_email :: string
  ab_password :: string
  ab_firstName :: string
  ab_lastName :: string
  ab_role :: "string option"
  ab_refreshToken :: "string option"

definition role_of_string :: "string \<Rightarrow> role option" where
  "role_of_string s = (if s = ''CUSTOMER'' then Some CUSTOMER else if s = ''ADMIN'' then Some ADMIN
     else if s = ''TELLER'' then Some TELLER else None)"

definition signupValidation :: "email_lib \<Rightarrow> auth_body \<Rightarrow> (string \<times> string) list" where
  "signupValidation L b =
     check (el_isEmail L (js_trim (ab_email b))) ''email'' ''A valid email address is required'' @
     check (8 \<le> length (ab_password b)) ''password'' ''Password must be at least 8 characters long'' @
     check (js_trim (ab_firstName b) \<noteq> '''') ''firstName'' ''First name is required'' @
     check (js_trim (ab_lastName b) \<noteq> '''') ''lastName'' ''Last name is required'' @
     check (ab_role b = None \<or> role_of_string (the (ab_role b)) \<noteq> None) ''role''
       ''Role must be CUSTOMER, ADMIN, or TELLER''"

definition loginValidation :: "email_lib \<Rightarrow> auth_body \<Rightarrow> (string \<times> string) list" where
  "loginValidation L b =
     check (el_isEmail L (js_trim (ab_email b))) ''email'' ''A valid email address is required'' @
     check (ab_password b \<noteq> '''') ''password'' ''Password is required''"

text \<open>What the handler reads after the sanitizers.\<close>

definition signup_data_of :: "email_lib \<Rightarrow> auth_body \<Rightarrow> signup_data" where
  "signup_data_of L b = \<lparr>sd_email = el_normalize L (js_trim (ab_email b)), sd_password = ab_password b,
     sd_firstName = js_trim (ab_firstName b), sd_lastName = js_trim (ab_lastName b),
     sd_role = Option.bind (ab_role b) role_of_string\<rparr>"

datatype cookie_action = KeepCookie | SetCookie string | ClearCookie

datatype auth_answer = SessionAnswer auth_result | TokenAnswer string | DoneAnswer | ProfileAnswer safe_user

type_synonym auth_reply = "app_error + auth_answer response \<times> cookie_action"

definition session_reply ::
  "string \<Rightarrow> nat \<Rightarrow> (app_error + auth_result) \<times> 's auth_world \<Rightarrow> auth_reply \<times> 's auth_world" where
  "session_reply msg code = apfst (\<lambda>r. rbind r (\<lambda>x. Inr (api_success msg (SessionAnswer x) code,
     if ar_refreshToken x \<noteq> '''' then SetCookie (ar_refreshToken x) else KeepCookie)))"

definition post_signup ::
  "('s, string) kv \<Rightarrow> auth_lib \<Rightarrow> db_env \<Rightarrow> email_lib \<Rightarrow> auth_body \<Rightarrow> 's auth_world \<Rightarrow> auth_reply \<times> 's auth_world" where
  "post_signup K A env L b w =
     (case validateRequest (signupValidation L b) of
        Some r \<Rightarrow> (Inr (r, KeepCookie), w)
      | None \<Rightarrow> session_reply ''User registered successfully'' 201 (signup K A env (signup_data_of L b) w))"

definition post_login ::
  "('s, string) kv \<Rightarrow> auth_lib \<Rightarrow> email_lib \<Rightarrow> auth_body \<Rightarrow> 's auth_world \<Rightarrow> auth_reply \<times> 's auth_world" where
  "post_login K A L b w =
     (case validateRequest (loginValidation L b) of
        Some r \<Rightarrow> (Inr (r, KeepCookie), w)
      | None \<Rightarrow> session_reply ''Login successful'' 200
                 (login K A (el_normalize L (js_trim (ab_email b))) (ab_password b) w))"

text \<open>\<open>req.body?.refreshToken || cookies?.refreshToken\<close>; a malformed cookie throws.\<close>

definition request_token :: "auth_body \<Rightarrow> string option \<Rightarrow> app_error + string option" where
  "request_token b header =
     (case parseCookies header of
        None \<Rightarrow> Inl (PlainError None (Msg ''URI malformed''))
      | Some cookies \<Rightarrow> Inr (js_or (ab_refreshToken b) (cookie ''refreshToken'' cookies)))"

definition post_refresh ::
  "('s, string) kv \<Rightarrow> auth_lib \<Rightarrow> auth_body \<Rightarrow> string option \<Rightarrow> 's auth_world \<Rightarrow> auth_reply \<times> 's auth_world" where
  "post_refresh K A b header w =
     (case request_token b header of
        Inl e \<Rightarrow> (Inl e, w)
      | Inr tok \<Rightarrow>
          if \<not> truthy tok
          then (Inr (api_error (Msg ''Validation error'') 400 [''refreshToken: Refresh Token is required''], KeepCookie), w)
          else (case refreshToken K A tok w of
                  (Inl e, w) \<Rightarrow> (Inl e, w)
                | (Inr a, w) \<Rightarrow> (Inr (api_success ''Token refreshed successfully'' (TokenAnswer a) 200, KeepCookie), w)))"

definition post_logout ::
  "('s, string) kv \<Rightarrow> auth_lib \<Rightarrow> auth_body \<Rightarrow> string option \<Rightarrow> 's auth_world \<Rightarrow> auth_reply \<times> 's auth_world" where
  "post_logout K A b header w =
     (case request_token b header of
        Inl e \<Rightarrow> (Inl e, w)
      | Inr tok \<Rightarrow> (Inr (api_success ''Logout successful'' DoneAnswer 200, ClearCookie), snd (logout K A tok w)))"

definition get_me :: "auth_lib \<Rightarrow> string option \<Rightarrow> 's auth_world \<Rightarrow> app_error + auth_answer response" where
  "get_me A header w =
     rbind (authenticateToken (au_verify_access A (aw_now w)) ''Invalid or expired Access Token'' header) (\<lambda>c.
       rbind (getProfile (cl_userId c) (aw_db w)) (\<lambda>u.
         Inr (api_success ''Profile retrieved successfully'' (ProfileAnswer u) 200)))"

end
