(* ===== verification/AuthProps.thy ===== *)
theory AuthProps
  imports Auth
begin

text \<open>
  The life of a session of \<open>Auth\<close>: open from the login until seven days have passed or somebody
  logs out with its token, whatever else the service does in between.
\<close>

subsection \<open>Runs of the service\<close>

datatype auth_op =
    Signup signup_data
  | Login string string
  | Refresh "string option"
  | Logout "string option"
  | Pass nat \<comment> \<open>milliseconds\<close>

definition auth_step ::
  "('s, string) kv \<Rightarrow> auth_lib \<Rightarrow> db_env \<Rightarrow> auth_op \<Rightarrow> 's auth_world \<Rightarrow> 's auth_world" where
  "auth_step K A env op w =
     (case op of
        Signup d \<Rightarrow> snd (signup K A env d w)
      | Login email pw \<Rightarrow> snd (login K A email pw w)
      | Refresh tok \<Rightarrow> snd (refreshToken K A tok w)
      | Logout tok \<Rightarrow> snd (logout K A tok w)
      | Pass d \<Rightarrow> w\<lparr>aw_now := aw_now w + d,
                   aw_redis := (aw_redis w)\<lparr>store := kv_wait K d (store (aw_redis w))\<rparr>\<rparr>)"

definition auth_run ::
  "('s, string) kv \<Rightarrow> auth_lib \<Rightarrow> db_env \<Rightarrow> auth_op list \<Rightarrow> 's auth_world \<Rightarrow> 's auth_world" where
  "auth_run K A env = fold (auth_step K A env)"

definition op_time :: "auth_op \<Rightarrow> nat" where
  "op_time op = (case op of Pass d \<Rightarrow> d | _ \<Rightarrow> 0)"

definition waited :: "auth_op list \<Rightarrow> nat" where
  "waited ops = (\<Sum>op\<leftarrow>ops. op_time op)"

text \<open>The session a token names at a time, as its Redis key.\<close>

definition token_key :: "auth_lib \<Rightarrow> nat \<Rightarrow> string \<Rightarrow> string option" where
  "token_key A now tok =
     map_option (\<lambda>(u, j). session_key u j) (Option.bind (au_verify_refresh A now tok) session_of)"

definition plain_ids :: "db \<Rightarrow> bool" where
  "plain_ids db \<longleftrightarrow> (\<forall>u \<in> set (db_users db). u_id u \<noteq> '''' \<and> CHR '':'' \<notin> set (u_id u))"

lemma session_key_inject:
  assumes "CHR '':'' \<notin> set u" and "CHR '':'' \<notin> set u'" and "session_key u j = session_key u' j'"
  shows "u = u' \<and> j = j'"
proof -
  have eq: "u @ CHR '':'' # j = u' @ CHR '':'' # j'" using assms(3) by (simp add: session_key_def)
  have "u = u'" using arg_cong[OF eq, of "split_on (CHR '':'')"] split_on_append[OF assms(1)] split_on_append[OF assms(2)]
    by simp
  with eq show ?thesis by simp
qed

lemma auth_redis_healthy:
  "healthy (aw_redis w) \<Longrightarrow>
   auth_redis f w = (Inr (fst (f (store (aw_redis w)))), w\<lparr>aw_redis := (aw_redis w)\<lparr>store := snd (f (store (aw_redis w)))\<rparr>\<rparr>)"
  by (simp add: auth_redis_def redis_call_healthy)

lemma findByEmail_SomeD: "findByEmail email db = Some u \<Longrightarrow> u \<in> set (db_users db) \<and> u_deletedAt u = None"
  by (auto simp: findByEmail_def dest: find_SomeD)

lemma createUser_Inr:
  "createUser env d h db = (Inr u, db') \<Longrightarrow> db_users db' = db_users db @ [u] \<and> u_id u = new_id env (db_seq db)"
  by (auto simp: createUser_def Let_def split: if_splits)

lemma createUser_Inl: "createUser env d h db = (Inl e, db') \<Longrightarrow> db' = db"
  by (auto simp: createUser_def Let_def split: if_splits)

lemma user_by_id_append:
  "user_by_id i db = Some u \<Longrightarrow> db_users db' = db_users db @ us \<Longrightarrow> user_by_id i db' = Some u"
  by (simp add: user_by_id_def find_append)

subsection \<open>One session among the others\<close>

text \<open>
  The key \<open>k\<close> of a session of user \<open>u\<close> has \<open>n\<close> ms to live, or is gone (\<open>n = 0\<close>).
\<close>

definition session_at :: "('s, string) kv \<Rightarrow> string \<Rightarrow> nat \<Rightarrow> 's auth_world \<Rightarrow> bool" where
  "session_at K k n w \<longleftrightarrow>
     (if n = 0 then kv_get K k (store (aw_redis w)) = None
      else kv_get K k (store (aw_redis w)) \<noteq> None \<and> kv_ttl K k (store (aw_redis w)) = Some n)"

text \<open>What stays true whatever happens, for the session opened with the \<open>m\<close>-th identifier.\<close>

definition auth_ok :: "db_env \<Rightarrow> nat \<Rightarrow> user \<Rightarrow> 's auth_world \<Rightarrow> bool" where
  "auth_ok env m u w \<longleftrightarrow> healthy (aw_redis w) \<and> m < aw_seq w \<and> plain_ids (aw_db w) \<and>
     user_by_id (u_id u) (aw_db w) = Some u \<and>
     (\<forall>n. new_id env n \<noteq> '''' \<and> CHR '':'' \<notin> set (new_id env n))"

lemma auth_redis_time: "auth_redis f w = (r, w') \<Longrightarrow> aw_now w' = aw_now w"
  by (auto simp: auth_redis_def Let_def split: prod.splits)

locale auth_service = redis_kv K + auth_laws A
  for K :: "('s, string) kv" and A :: auth_lib
begin

lemma verify_refresh_claims: "au_verify_refresh A now (au_sign_refresh A t rc) = Some c \<Longrightarrow> c = rc"
  using verify_refresh_only[of now t rc] by auto

lemma open_session_healthy:
  assumes "healthy (aw_redis w)"
  shows "open_session K A u w =
    (Inr \<lparr>ar_user = safe_user u, ar_accessToken = generateAccessToken A u w,
          ar_refreshToken = au_sign_refresh A (aw_now w)
            \<lparr>rc_userId = Some (u_id u), rc_jti = Some (au_uuid A (aw_seq w)), rc_tokenId = None\<rparr>\<rparr>,
     w\<lparr>aw_seq := aw_seq w + 1, aw_redis := (aw_redis w)\<lparr>store :=
        kv_set K (session_key (u_id u) (au_uuid A (aw_seq w)))
          (au_sign_refresh A (aw_now w) \<lparr>rc_userId = Some (u_id u), rc_jti = Some (au_uuid A (aw_seq w)), rc_tokenId = None\<rparr>)
          REFRESH_MS (store (aw_redis w))\<rparr>\<rparr>)"
  using assms by (simp add: open_session_def generateRefreshToken_def saveRefreshToken_def auth_redis_healthy set_ex_def
      Let_def refreshTokenTtlSeconds_def REFRESH_MS_def)

lemma open_session_other:
  assumes "auth_ok env m u w" and "session_at K k n w" and "k = session_key (u_id u) (au_uuid A m)"
    and "CHR '':'' \<notin> set (u_id u)" and "CHR '':'' \<notin> set (u_id v)"
  shows "auth_ok env m u (snd (open_session K A v w)) \<and> session_at K k n (snd (open_session K A v w)) \<and>
    aw_now (snd (open_session K A v w)) = aw_now w"
proof -
  have "session_key (u_id v) (au_uuid A (aw_seq w)) \<noteq> k"
  proof
    assume "session_key (u_id v) (au_uuid A (aw_seq w)) = k"
    then have "au_uuid A (aw_seq w) = au_uuid A m" using session_key_inject assms(3-5) by blast
    then have "aw_seq w = m" by (rule uuid_fresh)
    with assms(1) show False by (simp add: auth_ok_def)
  qed
  then show ?thesis using assms(1,2)
    by (simp add: auth_ok_def session_at_def open_session_healthy get_set_other ttl_set_other)
qed

lemma refreshToken_store:
  assumes "healthy (aw_redis w)"
  shows "snd (refreshToken K A tok w) = w"
  using assms by (auto simp: refreshToken_def isRefreshTokenValid_def auth_redis_healthy exists_cmd_def Let_def
      split: option.splits)

lemma logout_effect:
  assumes "healthy (aw_redis w)"
  shows "snd (logout K A tok w) =
    (case (if truthy tok then token_key A (aw_now w) (the tok) else None) of None \<Rightarrow> w
     | Some k \<Rightarrow> w\<lparr>aw_redis := (aw_redis w)\<lparr>store := kv_del K k (store (aw_redis w))\<rparr>\<rparr>)"
  using assms by (simp add: logout_def token_key_def revokeRefreshToken_def auth_redis_healthy Let_def
      split: option.split prod.split)

lemma session_at_del:
  "session_at K k n w \<Longrightarrow> n = 0 \<or> k' \<noteq> k \<Longrightarrow>
   session_at K k n (w\<lparr>aw_redis := (aw_redis w)\<lparr>store := kv_del K k' (store (aw_redis w))\<rparr>\<rparr>)"
  by (cases "k' = k") (auto simp: session_at_def get_del get_del_other ttl_del_other)

lemma login_state:
  assumes "auth_ok env m u w" and "session_at K k n w" and "k = session_key (u_id u) (au_uuid A m)"
    and "CHR '':'' \<notin> set (u_id u)"
  shows "auth_ok env m u (snd (login K A email pw w)) \<and> session_at K k n (snd (login K A email pw w)) \<and>
    aw_now (snd (login K A email pw w)) = aw_now w"
proof (cases "findByEmail email (aw_db w)")
  case None
  then show ?thesis using assms(1,2) by (simp add: login_def)
next
  case (Some v)
  then have "CHR '':'' \<notin> set (u_id v)"
    using assms(1) findByEmail_SomeD[OF Some] by (auto simp: auth_ok_def plain_ids_def)
  then show ?thesis using Some assms open_session_other[OF assms, of v] by (simp add: login_def)
qed

lemma signup_state:
  assumes "auth_ok env m u w" and "session_at K k n w" and "k = session_key (u_id u) (au_uuid A m)"
    and "CHR '':'' \<notin> set (u_id u)"
  shows "auth_ok env m u (snd (signup K A env d w)) \<and> session_at K k n (snd (signup K A env d w)) \<and>
    aw_now (snd (signup K A env d w)) = aw_now w"
proof (cases "findByEmail (sd_email d) (aw_db w)")
  case (Some v)
  then show ?thesis using assms(1,2) by (simp add: signup_def)
next
  case None
  let ?w = "w\<lparr>aw_seq := aw_seq w + 1\<rparr>"
  obtain r db where c: "createUser env d (au_hash A (aw_seq w) (sd_password d)) (aw_db w) = (r, db)" by force
  show ?thesis
  proof (cases r)
    case (Inl e)
    then have "db = aw_db w" using c createUser_Inl by blast
    then show ?thesis using None c Inl assms(1,2) by (simp add: signup_def auth_ok_def session_at_def)
  next
    case (Inr v)
    then have v: "db_users db = db_users (aw_db w) @ [v]" "u_id v = new_id env (db_seq (aw_db w))"
      using createUser_Inr c by blast+
    have user: "user_by_id (u_id u) (aw_db w) = Some u" using assms(1) by (simp add: auth_ok_def)
    have "auth_ok env m u (?w\<lparr>aw_db := db\<rparr>)"
      using assms(1) v user_by_id_append[OF user v(1)] by (auto simp: auth_ok_def plain_ids_def)
    moreover have "session_at K k n (?w\<lparr>aw_db := db\<rparr>)" using assms(2) by (simp add: session_at_def)
    moreover have "CHR '':'' \<notin> set (u_id v)" using assms(1) v(2) by (auto simp: auth_ok_def)
    ultimately show ?thesis using None c Inr open_session_other[OF _ _ assms(3,4), of env "?w\<lparr>aw_db := db\<rparr>" n v]
      by (simp add: signup_def)
  qed
qed

text \<open>One step takes its time off the session, and a logout with its own token ends it.\<close>

lemma auth_step_session:
  assumes "auth_ok env m u w" and "session_at K k n w" and "k = session_key (u_id u) (au_uuid A m)"
    and "CHR '':'' \<notin> set (u_id u)"
    and "n = 0 \<or> (\<forall>tok. op = Logout (Some tok) \<longrightarrow> token_key A (aw_now w) tok \<noteq> Some k)"
  shows "auth_ok env m u (auth_step K A env op w)" and "session_at K k (n - op_time op) (auth_step K A env op w)"
    and "aw_now (auth_step K A env op w) = aw_now w + op_time op"
proof -
  have healthy: "healthy (aw_redis w)" using assms(1) by (simp add: auth_ok_def)
  have "auth_ok env m u (auth_step K A env op w) \<and> session_at K k (n - op_time op) (auth_step K A env op w) \<and>
    aw_now (auth_step K A env op w) = aw_now w + op_time op"
  proof (cases op)
    case (Signup d)
    then show ?thesis using signup_state[OF assms(1-4)] by (simp add: auth_step_def op_time_def)
  next
    case (Login email pw)
    then show ?thesis using login_state[OF assms(1-4)] by (simp add: auth_step_def op_time_def)
  next
    case (Refresh tok)
    then show ?thesis using refreshToken_store[OF healthy] assms(1,2) by (simp add: auth_step_def op_time_def)
  next
    case (Logout tok)
    have "session_at K k n (snd (logout K A tok w))"
      using assms(2,5) Logout
      by (auto simp: logout_effect[OF healthy] session_at_del truthy_def split: option.splits if_splits)
    moreover have "auth_ok env m u (snd (logout K A tok w))" "aw_now (snd (logout K A tok w)) = aw_now w"
      using assms(1) by (auto simp: logout_effect[OF healthy] auth_ok_def split: option.splits)
    ultimately show ?thesis using Logout by (simp add: auth_step_def op_time_def)
  next
    case (Pass d)
    have "session_at K k (n - d) (auth_step K A env op w)"
      using assms(2) Pass by (auto simp: session_at_def auth_step_def wait_get wait_ttl split: option.splits if_splits)
    then show ?thesis using assms(1) Pass by (simp add: auth_step_def op_time_def auth_ok_def)
  qed
  then show "auth_ok env m u (auth_step K A env op w)" and "session_at K k (n - op_time op) (auth_step K A env op w)"
    and "aw_now (auth_step K A env op w) = aw_now w + op_time op" by blast+
qed

lemma auth_run_session:
  assumes "auth_ok env m u w" and "session_at K k n w" and "k = session_key (u_id u) (au_uuid A m)"
    and "CHR '':'' \<notin> set (u_id u)"
    and "n = 0 \<or> (\<forall>tok now. Logout (Some tok) \<in> set ops \<longrightarrow> token_key A now tok \<noteq> Some k)"
  shows "auth_ok env m u (auth_run K A env ops w) \<and> session_at K k (n - waited ops) (auth_run K A env ops w) \<and>
    aw_now (auth_run K A env ops w) = aw_now w + waited ops"
  using assms(1,2,5)
proof (induction ops arbitrary: w n)
  case Nil
  then show ?case by (simp add: auth_run_def waited_def)
next
  case (Cons op ops)
  have own: "n = 0 \<or> (\<forall>tok. op = Logout (Some tok) \<longrightarrow> token_key A (aw_now w) tok \<noteq> Some k)"
    using Cons.prems(3) by auto
  note step = auth_step_session[OF Cons.prems(1,2) assms(3,4) own]
  have rest: "n - op_time op = 0 \<or> (\<forall>tok now. Logout (Some tok) \<in> set ops \<longrightarrow> token_key A now tok \<noteq> Some k)"
    using Cons.prems(3) by auto
  show ?case using Cons.IH[OF step(1,2) rest] step(3) by (simp add: auth_run_def waited_def)
qed

text \<open>A refresh with the session's token, signed at \<open>t\<close>.\<close>

lemma refresh_valid:
  assumes "auth_ok env m u w" and "session_at K (session_key (u_id u) (au_uuid A m)) n w" and "0 < n"
    and "tok = au_sign_refresh A t \<lparr>rc_userId = Some (u_id u), rc_jti = Some (au_uuid A m), rc_tokenId = None\<rparr>"
    and "u_isActive u" and "u_id u \<noteq> ''''" and "t \<le> aw_now w" and "aw_now w + 1000 \<le> t + REFRESH_MS"
  shows "fst (refreshToken K A (Some tok) w) = Inr (generateAccessToken A u w)"
proof -
  have healthy: "healthy (aw_redis w)" and user: "user_by_id (u_id u) (aw_db w) = Some u"
    using assms(1) by (simp_all add: auth_ok_def)
  have "isRefreshTokenValid K (u_id u) (au_uuid A m) w = (Inr True, w)"
    using assms(2,3) by (auto simp: isRefreshTokenValid_def auth_redis_healthy[OF healthy] exists_cmd_def session_at_def)
  then show ?thesis
    using user assms(5-8) uuid_nonempty[of m]
    by (simp add: assms(4) refreshToken_def verify_refresh session_of_def js_or_def truthy_def)
qed

lemma refresh_refused:
  assumes "auth_ok env m u w" and "session_at K (session_key (u_id u) (au_uuid A m)) n w"
    and "tok = au_sign_refresh A t \<lparr>rc_userId = Some (u_id u), rc_jti = Some (au_uuid A m), rc_tokenId = None\<rparr>"
    and "u_id u \<noteq> ''''" and "n = 0 \<or> au_verify_refresh A (aw_now w) tok = None"
  shows "\<exists>e. fst (refreshToken K A (Some tok) w) = Inl e \<and> statusCode e = Some 401"
proof (cases "au_verify_refresh A (aw_now w) tok")
  case None
  then show ?thesis by (simp add: refreshToken_def error_defs)
next
  case (Some c)
  then have c: "c = \<lparr>rc_userId = Some (u_id u), rc_jti = Some (au_uuid A m), rc_tokenId = None\<rparr>"
    using verify_refresh_claims unfolding assms(3) by blast
  have healthy: "healthy (aw_redis w)" using assms(1) by (simp add: auth_ok_def)
  have "isRefreshTokenValid K (u_id u) (au_uuid A m) w = (Inr False, w)"
    using assms(2,5) Some by (auto simp: isRefreshTokenValid_def auth_redis_healthy[OF healthy] exists_cmd_def session_at_def)
  then show ?thesis using Some assms(4) uuid_nonempty[of m]
    by (simp add: c refreshToken_def session_of_def js_or_def truthy_def error_defs)
qed

text \<open>Time does not run backwards.\<close>

lemma auth_step_time: "aw_now w \<le> aw_now (auth_step K A env op w)"
proof -
  have opened: "aw_now v' = aw_now v" if "open_session K A u v = (r, v')" for u v r v'
    using that by (auto simp: open_session_def generateRefreshToken_def saveRefreshToken_def Let_def
        dest: auth_redis_time split: prod.splits sum.splits)
  have valid: "aw_now v' = aw_now v" if "isRefreshTokenValid K i j v = (b, v')" for i j v b v'
    using that by (auto simp: isRefreshTokenValid_def Let_def dest: auth_redis_time split: prod.splits)
  have revoked: "aw_now v' = aw_now v" if "revokeRefreshToken K i j v = (b, v')" for i j v b v'
    using that by (auto simp: revokeRefreshToken_def Let_def dest: auth_redis_time split: prod.splits)
  have "aw_now v' = aw_now w" if "login K A email pw w = (r, v')" for email pw r v'
    using that by (auto simp: login_def dest: opened split: option.splits if_splits)
  moreover have "aw_now v' = aw_now w" if "signup K A env d w = (r, v')" for d r v'
    using that by (auto simp: signup_def Let_def dest!: opened split: option.splits prod.splits sum.splits)
  moreover have "aw_now v' = aw_now w" if "refreshToken K A tok w = (r, v')" for tok r v'
    using that by (auto simp: refreshToken_def dest: valid split: option.splits prod.splits sum.splits bool.splits if_splits)
  moreover have "aw_now v' = aw_now w" if "logout K A tok w = (r, v')" for tok r v'
    using that revoked by (auto simp: logout_def split: option.splits prod.splits if_splits) (metis prod.collapse)
  ultimately have same: "aw_now (snd (login K A email pw w)) = aw_now w" "aw_now (snd (signup K A env d w)) = aw_now w"
    "aw_now (snd (refreshToken K A tok w)) = aw_now w" "aw_now (snd (logout K A tok w)) = aw_now w" for email pw d tok
    by (metis prod.collapse)+
  then show ?thesis by (cases op) (simp_all add: auth_step_def)
qed

lemma auth_run_time: "aw_now w \<le> aw_now (auth_run K A env ops w)"
proof (induction ops arbitrary: w)
  case (Cons op ops)
  show ?case using auth_step_time[of w env op] Cons[of "auth_step K A env op w"] by (simp add: auth_run_def)
qed (simp add: auth_run_def)

text \<open>The state right after a login.\<close>

lemma login_opens_session:
  assumes "healthy (aw_redis w)" and "distinct (map u_id (db_users (aw_db w)))" and "plain_ids (aw_db w)"
    and "\<forall>n. new_id env n \<noteq> '''' \<and> CHR '':'' \<notin> set (new_id env n)"
    and "login K A email pw w = (Inr r, w')"
  obtains u where "findByEmail email (aw_db w) = Some u" and "u_isActive u" and "u \<in> set (db_users (aw_db w))"
    and "auth_ok env (aw_seq w) u w'" and "session_at K (session_key (u_id u) (au_uuid A (aw_seq w))) REFRESH_MS w'"
    and "ar_refreshToken r = au_sign_refresh A (aw_now w)
           \<lparr>rc_userId = Some (u_id u), rc_jti = Some (au_uuid A (aw_seq w)), rc_tokenId = None\<rparr>"
    and "aw_now w' = aw_now w"
proof -
  obtain u where u: "findByEmail email (aw_db w) = Some u" "u_isActive u" "open_session K A u w = (Inr r, w')"
    using assms(5) by (auto simp: login_def split: option.splits if_splits)
  note mem = findByEmail_SomeD[OF u(1)]
  have "user_by_id (u_id u) (aw_db w) = Some u"
    using assms(2) mem find_distinct[of u_id "filter (\<lambda>u. u_deletedAt u = None) (db_users (aw_db w))" u "u_id u"]
    by (simp add: user_by_id_def distinct_map_filter find_filter_conj conj_commute)
  moreover have pos: "0 < REFRESH_MS" by (simp add: REFRESH_MS_def)
  ultimately have "auth_ok env (aw_seq w) u w'"
    "session_at K (session_key (u_id u) (au_uuid A (aw_seq w))) REFRESH_MS w'"
    using u(3) assms(1,3,4) by (auto simp: open_session_healthy auth_ok_def session_at_def get_set ttl_set)
  with u mem show ?thesis by (intro that[of u]) (auto simp: open_session_healthy[OF assms(1)])
qed

text \<open>Logging out with the session's token ends it, unless the token no longer verifies.\<close>

lemma logout_ends_session:
  assumes "auth_ok env m u w" and "session_at K (session_key (u_id u) (au_uuid A m)) n w"
    and "tok = au_sign_refresh A t \<lparr>rc_userId = Some (u_id u), rc_jti = Some (au_uuid A m), rc_tokenId = None\<rparr>"
    and "u_id u \<noteq> ''''"
  obtains n' where "auth_ok env m u (snd (logout K A (Some tok) w))"
    and "session_at K (session_key (u_id u) (au_uuid A m)) n' (snd (logout K A (Some tok) w))"
    and "aw_now (snd (logout K A (Some tok) w)) = aw_now w"
    and "n' = 0 \<or> au_verify_refresh A (aw_now w) tok = None"
proof -
  have healthy: "healthy (aw_redis w)" using assms(1) by (simp add: auth_ok_def)
  note logout = logout_effect[OF healthy, of "Some tok"]
  have some: "truthy (Some tok)" using refresh_nonempty assms(3) by (simp add: truthy_def)
  show thesis
  proof (cases "au_verify_refresh A (aw_now w) tok")
    case None
    then have "snd (logout K A (Some tok) w) = w" using some by (simp add: logout token_key_def)
    with None assms(1,2) show thesis by (intro that[of n]) simp_all
  next
    case (Some c)
    then have "c = \<lparr>rc_userId = Some (u_id u), rc_jti = Some (au_uuid A m), rc_tokenId = None\<rparr>"
      using verify_refresh_claims unfolding assms(3) by blast
    then have "token_key A (aw_now w) tok = Some (session_key (u_id u) (au_uuid A m))"
      using Some assms(4) uuid_nonempty[of m] by (simp add: token_key_def session_of_def js_or_def truthy_def)
    with some show thesis
      using assms(1) by (intro that[of 0]) (auto simp: logout session_at_def get_del auth_ok_def)
  qed
qed

end

definition refused ::
  "('s, string) kv \<Rightarrow> auth_lib \<Rightarrow> string \<Rightarrow> 's auth_world \<Rightarrow> bool" where
  "refused K A tok w \<longleftrightarrow> (\<exists>e. fst (refreshToken K A (Some tok) w) = Inl e \<and> statusCode e = Some 401)"


subsection \<open>An instance of the libraries\<close>

text \<open>Tokens that carry their fields in the clear, each field in a self-delimiting code.\<close>

fun enc :: "string \<Rightarrow> string" where
  "enc [] = ''.''"
| "enc (c # s) = CHR ''x'' # c # enc s"

fun dec :: "string \<Rightarrow> (string \<times> string) option" where
  "dec (m # s) =
     (if m = CHR ''.'' then Some ('''', s)
      else case s of [] \<Rightarrow> None | c # r \<Rightarrow> map_option (apfst (Cons c)) (dec r))"
| "dec [] = None"

lemma dec_enc [simp]: "dec (enc s @ r) = Some (s, r)"
  by (induction s) auto

definition opt_text :: "string option \<Rightarrow> string" where
  "opt_text v = (case v of None \<Rightarrow> '''' | Some s \<Rightarrow> CHR ''s'' # s)"

definition text_opt :: "string \<Rightarrow> string option" where
  "text_opt s = (case s of [] \<Rightarrow> None | _ # s \<Rightarrow> Some s)"

lemma text_opt_text [simp]: "text_opt (opt_text v) = v"
  by (simp add: text_opt_def opt_text_def split: option.split)

lemma role_text [simp]: "Option.bind (map_option show_role r) role_of_string = r"
  by (cases r rule: option.exhaust[case_names None Some]; cases "the r") (auto simp: role_of_string_def)

text \<open>Three fields and a time.\<close>

definition pack :: "nat \<Rightarrow> string option \<Rightarrow> string option \<Rightarrow> string option \<Rightarrow> string" where
  "pack t a b c = enc (replicate t (CHR ''i'')) @ enc (opt_text a) @ enc (opt_text b) @ enc (opt_text c)"

definition unpack :: "string \<Rightarrow> (nat \<times> string option \<times> string option \<times> string option) option" where
  "unpack s =
     Option.bind (dec s) (\<lambda>(t, s). Option.bind (dec s) (\<lambda>(a, s). Option.bind (dec s) (\<lambda>(b, s).
       Option.bind (dec s) (\<lambda>(c, _). Some (length t, text_opt a, text_opt b, text_opt c)))))"

lemma unpack_pack [simp]: "unpack (pack t a b c) = Some (t, a, b, c)"
  using dec_enc[of "opt_text c" "[]"] by (simp add: unpack_def pack_def)

definition plain_lib :: auth_lib where
  "plain_lib =
     \<lparr>au_sign_access = (\<lambda>t c. pack t (cl_userId c) (cl_email c) (map_option show_role (cl_role c))),
      au_verify_access = (\<lambda>now s. Option.bind (unpack s) (\<lambda>(t, a, b, r).
         if t \<le> now \<and> now < t + ACCESS_MS
         then Some \<lparr>cl_userId = a, cl_email = b, cl_role = Option.bind r role_of_string\<rparr> else None)),
      au_sign_refresh = (\<lambda>t c. pack t (rc_userId c) (rc_jti c) (rc_tokenId c)),
      au_verify_refresh = (\<lambda>now s. Option.bind (unpack s) (\<lambda>(t, a, b, c).
         if t \<le> now \<and> now < t + REFRESH_MS
         then Some \<lparr>rc_userId = a, rc_jti = b, rc_tokenId = c\<rparr> else None)),
      au_hash = (\<lambda>n pw. enc pw), au_compare = (\<lambda>pw h. h = enc pw),
      au_uuid = (\<lambda>n. CHR ''j'' # replicate n (CHR ''i''))\<rparr>"

lemma pack_nonempty: "pack t a b c \<noteq> ''''"
  by (cases t) (simp_all add: pack_def)

interpretation plain: auth_laws plain_lib
  by unfold_locales (auto simp: plain_lib_def pack_nonempty split: option.split dest: arg_cong[of _ _ length])

interpretation memory: auth_service "mem_kv :: (string mem, string) kv" plain_lib
  by unfold_locales

definition alice_user :: user where
  "alice_user = \<lparr>u_id = ''u1'', u_email = ''a@x'', u_passwordHash = enc ''secret'', u_firstName = ''A'',
     u_lastName = ''B'', u_role = CUSTOMER, u_isActive = True, u_deletedAt = None, u_createdAt = 0\<rparr>"

definition auth_start :: "string mem auth_world" where
  "auth_start = \<lparr>aw_db = \<lparr>db_users = [alice_user], db_accounts = [], db_transactions = [], db_entries = [],
     db_outbox = [], db_audits = [], db_notifications = [], db_now = 0, db_seq = 0\<rparr>,
     aw_redis = \<lparr>store = mem_empty, faults = []\<rparr>, aw_now = 0, aw_seq = 0\<rparr>"

definition plain_env :: db_env where
  "plain_env = \<lparr>new_id = (\<lambda>n. CHR ''r'' # replicate n (CHR ''i'')), to_dec = (\<lambda>_. None)\<rparr>"


subsection \<open>What the service does besides\<close>

text \<open>The role in the public sign-up request is the role of the new account.\<close>

lemma anyone_signs_up_as_admin:
  assumes "signup K A env (signup_data_of L b) w = (Inr r, w')" and "ab_role b = Some ''ADMIN''"
  shows "su_role (ar_user r) = ADMIN"
  using assms
  by (auto simp: signup_def createUser_def signup_data_of_def role_of_string_def open_session_def safe_user_def Let_def
      split: option.splits prod.splits sum.splits if_splits)

text \<open>When Redis fails, a logout is answered like any other and the session stays open.\<close>

lemma logout_hides_redis_failure:
  assumes "faults (aw_redis w) = Refused m # fs"
  shows "fst (logout K A tok w) = ''Logged out successfully''"
    and "store (aw_redis (snd (logout K A tok w))) = store (aw_redis w)"
  using assms by (auto simp: logout_def revokeRefreshToken_def auth_redis_def redis_call_def Let_def
      split: option.splits prod.splits)

end
