(* ===== verification/PaymentQueries.thy ===== *)
theory PaymentQueries
  imports Database Paging
begin

text \<open>
  The reading half of the payment service: the queries of
  \<open>services/payment-service/src/repositories/paymentRepository.js\<close> (where clause, pages, financial
  summary), their entry points in \<open>services/paymentService.js\<close> and \<open>controllers/paymentController.js\<close>.
  Prisma's conversion of a JavaScript number to a decimal operand is the parameter \<open>qe_decimal\<close>.
\<close>

record query_env =
  qe_decimal :: "rat \<Rightarrow> rat"

text \<open>\<open>userContext\<close>: the claims of the token; a missing one is undefined.\<close>

record query_context =
  qc_userId :: "string option"
  qc_role :: "role option"

definition query_context_of :: "claims \<Rightarrow> query_context" where
  "query_context_of c = \<lparr>qc_userId = cl_userId c, qc_role = cl_role c\<rparr>"

record tx_filters =
  tf_status :: "tx_status option"
  tf_type :: "tx_category option"
  tf_startDate :: "nat option"
  tf_endDate :: "nat option"
  tf_minAmount :: "rat option"
  tf_maxAmount :: "rat option"
  tf_referenceId :: "string option"
  tf_accountNumber :: "string option"
  tf_userId :: "string option"
  tf_cursor :: "string option"
  tf_limit :: "nat option"

definition no_filters :: tx_filters where
  "no_filters = \<lparr>tf_status = None, tf_type = None, tf_startDate = None, tf_endDate = None,
     tf_minAmount = None, tf_maxAmount = None, tf_referenceId = None, tf_accountNumber = None,
     tf_userId = None, tf_cursor = None, tf_limit = None\<rparr>"

subsection \<open>The where clause\<close>

definition related_account :: "string option \<Rightarrow> db \<Rightarrow> account option" where
  "related_account i db = Option.bind i (\<lambda>i. account_by_id i db)"

definition sourceAccount :: "db \<Rightarrow> transaction \<Rightarrow> account option" where
  "sourceAccount db t = related_account (t_sourceAccountId t) db"

definition targetAccount :: "db \<Rightarrow> transaction \<Rightarrow> account option" where
  "targetAccount db t = related_account (t_targetAccountId t) db"

definition on_account :: "(account \<Rightarrow> bool) \<Rightarrow> account option \<Rightarrow> bool" where
  "on_account P a = (case a of None \<Rightarrow> False | Some a \<Rightarrow> P a)"

text \<open>\<open>{ userId, deletedAt: null }\<close>; Prisma takes \<open>userId: undefined\<close> for no condition.\<close>

definition owned_by :: "string option \<Rightarrow> account \<Rightarrow> bool" where
  "owned_by userId a \<longleftrightarrow> (case userId of None \<Rightarrow> True | Some u \<Rightarrow> a_userId a = u) \<and> a_deletedAt a = None"

definition party :: "string option \<Rightarrow> db \<Rightarrow> transaction \<Rightarrow> bool" where
  "party userId db t \<longleftrightarrow> on_account (owned_by userId) (sourceAccount db t) \<or> on_account (owned_by userId) (targetAccount db t)"

definition role_scope :: "query_context \<Rightarrow> tx_filters \<Rightarrow> db \<Rightarrow> transaction \<Rightarrow> bool" where
  "role_scope ctx f db t =
     (if \<not> is_staff (qc_role ctx) then party (qc_userId ctx) db t
      else if truthy (tf_userId f) then party (tf_userId f) db t
      else True)"

definition account_filter :: "tx_filters \<Rightarrow> db \<Rightarrow> transaction \<Rightarrow> bool" where
  "account_filter f db t \<longleftrightarrow>
     (truthy (tf_accountNumber f) \<longrightarrow>
        on_account (\<lambda>a. Some (a_accountNumber a) = tf_accountNumber f) (sourceAccount db t) \<or>
        on_account (\<lambda>a. Some (a_accountNumber a) = tf_accountNumber f) (targetAccount db t))"

definition amount_filter :: "query_env \<Rightarrow> tx_filters \<Rightarrow> transaction \<Rightarrow> bool" where
  "amount_filter E f t \<longleftrightarrow>
     (case tf_minAmount f of None \<Rightarrow> True | Some x \<Rightarrow> qe_decimal E x \<le> of_int (t_amount t) / 100) \<and>
     (case tf_maxAmount f of None \<Rightarrow> True | Some x \<Rightarrow> of_int (t_amount t) / 100 \<le> qe_decimal E x)"

definition date_filter :: "tx_filters \<Rightarrow> transaction \<Rightarrow> bool" where
  "date_filter f t \<longleftrightarrow>
     (case tf_startDate f of None \<Rightarrow> True | Some d \<Rightarrow> d \<le> t_createdAt t) \<and>
     (case tf_endDate f of None \<Rightarrow> True | Some d \<Rightarrow> t_createdAt t \<le> d)"

definition reference_filter :: "tx_filters \<Rightarrow> transaction \<Rightarrow> bool" where
  "reference_filter f t \<longleftrightarrow>
     (truthy (tf_referenceId f) \<longrightarrow>
        (case t_referenceId t of None \<Rightarrow> False | Some r \<Rightarrow> contains (to_lower (the (tf_referenceId f))) (to_lower r)))"

text \<open>
  When both a scope and an account are asked for, the code moves both disjunctions under \<open>AND\<close>;
  as a predicate the clause is the conjunction of its conditions either way.
\<close>

definition buildTransactionWhereClause ::
  "query_env \<Rightarrow> query_context \<Rightarrow> tx_filters \<Rightarrow> db \<Rightarrow> transaction \<Rightarrow> bool" where
  "buildTransactionWhereClause E ctx f db t \<longleftrightarrow>
     role_scope ctx f db t \<and> account_filter f db t \<and>
     (case tf_status f of None \<Rightarrow> True | Some s \<Rightarrow> t_status t = s) \<and>
     (case tf_type f of None \<Rightarrow> True | Some c \<Rightarrow> t_type t = c) \<and>
     amount_filter E f t \<and> date_filter f t \<and> reference_filter f t"

subsection \<open>Pages\<close>

record account_summary =
  as_accountNumber :: string
  as_type :: account_type
  as_currency :: string
  as_owner :: "(string \<times> string \<times> string) option" \<comment> \<open>first and last name, e-mail\<close>

definition account_summary_of :: "db \<Rightarrow> account \<Rightarrow> account_summary" where
  "account_summary_of db a =
     \<lparr>as_accountNumber = a_accountNumber a, as_type = a_type a, as_currency = a_currency a,
      as_owner = map_option (\<lambda>u. (u_firstName u, u_lastName u, u_email u))
        (List.find (\<lambda>u. u_id u = a_userId a) (db_users db))\<rparr>"

record tx_row =
  tr_transaction :: transaction
  tr_source :: "account_summary option"
  tr_target :: "account_summary option"
  tr_ledgerEntries :: "ledger_entry list"

definition tx_row_of :: "db \<Rightarrow> transaction \<Rightarrow> tx_row" where
  "tx_row_of db t =
     \<lparr>tr_transaction = t, tr_source = map_option (account_summary_of db) (sourceAccount db t),
      tr_target = map_option (account_summary_of db) (targetAccount db t),
      tr_ledgerEntries = entries_of (t_id t) db\<rparr>"

record tx_page =
  tp_transactions :: "tx_row list"
  tp_limit :: nat
  tp_totalCount :: nat
  tp_hasMore :: bool
  tp_nextCursor :: "string option"

definition page_limit :: "tx_filters \<Rightarrow> nat" where
  "page_limit f = (case tf_limit f of None \<Rightarrow> 20 | Some n \<Rightarrow> if n = 0 then 20 else n)"

definition getPaginatedTransactions :: "query_env \<Rightarrow> query_context \<Rightarrow> tx_filters \<Rightarrow> db \<Rightarrow> tx_page" where
  "getPaginatedTransactions E ctx f db =
     (let limit = page_limit f;
          rows = filter (buildTransactionWhereClause E ctx f db) (db_transactions db);
          (items, next_cursor) = cursor_page t_id limit (cursor_after t_id (tf_cursor f) (newest_by t_createdAt rows))
      in \<lparr>tp_transactions = map (tx_row_of db) items, tp_limit = limit, tp_totalCount = length rows,
          tp_hasMore = (next_cursor \<noteq> None), tp_nextCursor = next_cursor\<rparr>)"

definition findByReferenceId :: "string \<Rightarrow> db \<Rightarrow> transaction option" where
  "findByReferenceId r db = List.find (\<lambda>t. t_referenceId t = Some r) (db_transactions db)"

text \<open>\<open>transaction.sourceAccount?.userId === userId\<close>: without an account and without a user both sides are undefined.\<close>

definition is_user :: "account option \<Rightarrow> query_context \<Rightarrow> bool" where
  "is_user a ctx \<longleftrightarrow> map_option a_userId a = qc_userId ctx"

text \<open>The details of one payment come with its outbox events: identifier, type, status, time.\<close>

type_synonym outbox_line = "string \<times> string \<times> outbox_status \<times> nat"

definition outbox_lines :: "db \<Rightarrow> transaction \<Rightarrow> outbox_line list" where
  "outbox_lines db t = map (\<lambda>e. (o_id e, o_eventType e, o_status e, o_createdAt e))
     (filter (\<lambda>e. o_transactionId e = Some (t_id t)) (db_outbox db))"

definition getPaymentByReference :: "string \<Rightarrow> query_context \<Rightarrow> db \<Rightarrow> app_error + tx_row \<times> outbox_line list" where
  "getPaymentByReference r ctx db =
     (case findByReferenceId r db of
        None \<Rightarrow> Inl (NotFoundError (Msg (''Payment with reference ID '' @ r @ '' not found'')))
      | Some t \<Rightarrow>
          let isSender = is_user (sourceAccount db t) ctx; isReceiver = is_user (targetAccount db t) ctx
          in if \<not> isSender \<and> \<not> isReceiver \<and> \<not> is_staff (qc_role ctx)
             then Inl (ForbiddenError (Msg ''Access denied: You are not authorized to view this payment''))
             else Inr (tx_row_of db t, outbox_lines db t))"

subsection \<open>Months\<close>

text \<open>
  \<open>date.toISOString().slice(0, 7)\<close>: year and month of a time in milliseconds since 1970, by the
  count of days from March 1 of year 0 in cycles of 400 years.
\<close>

definition civil_month :: "nat \<Rightarrow> nat \<times> nat" where
  "civil_month ms =
     (let z = ms div 86400000 + 719468; era = z div 146097; doe = z mod 146097;
          yoe = (doe - doe div 1460 + doe div 36524 - doe div 146096) div 365;
          doy = doe - (365 * yoe + yoe div 4 - yoe div 100);
          mp = (5 * doy + 2) div 153;
          m = (if mp < 10 then mp + 3 else mp - 9);
          y = yoe + era * 400
      in (if m \<le> 2 then y + 1 else y, m))"

definition pad :: "nat \<Rightarrow> string \<Rightarrow> string" where
  "pad n s = replicate (n - length s) (CHR ''0'') @ s"

definition month_key :: "nat \<times> nat \<Rightarrow> string" where
  "month_key ym = pad 4 (show_nat (fst ym)) @ ''-'' @ pad 2 (show_nat (snd ym))"

subsection \<open>The summary\<close>

record month_data =
  md_month :: "nat \<times> nat"
  md_sent :: rat
  md_received :: rat
  md_total :: rat
  md_count :: nat

record tally =
  ta_sent :: rat
  ta_received :: rat
  ta_successful :: nat
  ta_failed :: nat
  ta_months :: "month_data list"

definition tally_start :: tally where
  "tally_start = \<lparr>ta_sent = 0, ta_received = 0, ta_successful = 0, ta_failed = 0, ta_months = []\<rparr>"

text \<open>A JavaScript map in insertion order; the entry of a month is made when it is first met.\<close>

fun update_month :: "nat \<times> nat \<Rightarrow> (month_data \<Rightarrow> month_data) \<Rightarrow> month_data list \<Rightarrow> month_data list" where
  "update_month k g [] = [g \<lparr>md_month = k, md_sent = 0, md_received = 0, md_total = 0, md_count = 0\<rparr>]"
| "update_month k g (m # ms) = (if md_month m = k then g m # ms else m # update_month k g ms)"

definition summary_role :: "query_context \<Rightarrow> tx_filters \<Rightarrow> bool \<Rightarrow> account option \<Rightarrow> bool" where
  "summary_role ctx f otherwise a =
     (if is_staff (qc_role ctx)
      then (if truthy (tf_accountNumber f) then map_option a_accountNumber a = tf_accountNumber f else otherwise)
      else is_user a ctx)"

definition isSender :: "query_context \<Rightarrow> tx_filters \<Rightarrow> db \<Rightarrow> transaction \<Rightarrow> bool" where
  "isSender ctx f db t = summary_role ctx f True (sourceAccount db t)"

definition isReceiver :: "query_context \<Rightarrow> tx_filters \<Rightarrow> db \<Rightarrow> transaction \<Rightarrow> bool" where
  "isReceiver ctx f db t = summary_role ctx f False (targetAccount db t)"

definition add_month :: "rat \<Rightarrow> bool \<Rightarrow> bool \<Rightarrow> month_data \<Rightarrow> month_data" where
  "add_month amt sent rcv m =
     m\<lparr>md_count := md_count m + 1,
       md_sent := (if sent then js_add (md_sent m) amt else md_sent m),
       md_received := (if rcv then js_add (md_received m) amt else md_received m),
       md_total := js_add (md_total m) amt\<rparr>"

definition tally_tx :: "query_context \<Rightarrow> tx_filters \<Rightarrow> db \<Rightarrow> transaction \<Rightarrow> tally \<Rightarrow> tally" where
  "tally_tx ctx f db t a =
     (let amt = num_of_cents (t_amount t); s = isSender ctx f db t; r = isReceiver ctx f db t
      in if t_status t = COMPLETED then
           (let a = a\<lparr>ta_successful := ta_successful a + 1\<rparr>;
                a = (if s \<and> \<not> r then a\<lparr>ta_sent := js_add (ta_sent a) amt\<rparr>
                     else if r \<and> \<not> s then a\<lparr>ta_received := js_add (ta_received a) amt\<rparr>
                     else if s \<and> r then a\<lparr>ta_sent := js_add (ta_sent a) amt, ta_received := js_add (ta_received a) amt\<rparr>
                     else a)
            in a\<lparr>ta_months := update_month (civil_month (t_createdAt t)) (add_month amt s r) (ta_months a)\<rparr>)
         else if t_status t = FAILED then a\<lparr>ta_failed := ta_failed a + 1\<rparr>
         else a)"

record month_line =
  ml_month :: string
  ml_sent :: rat
  ml_received :: rat
  ml_total :: rat
  ml_count :: nat

definition month_line_of :: "month_data \<Rightarrow> month_line" where
  "month_line_of m = \<lparr>ml_month = month_key (md_month m), ml_sent = to_fixed2 (md_sent m),
     ml_received = to_fixed2 (md_received m), ml_total = to_fixed2 (md_total m), ml_count = md_count m\<rparr>"

text \<open>Newest month first; keys of four and two digits compare like their numbers.\<close>

definition newest_months :: "month_data list \<Rightarrow> month_data list" where
  "newest_months ms = sort_key (\<lambda>m. - int (12 * fst (md_month m) + snd (md_month m))) ms"

record fin_summary =
  fs_currency :: string
  fs_totalSent :: rat
  fs_totalReceived :: rat
  fs_totalVolume :: rat
  fs_totalSuccessful :: nat
  fs_totalFailed :: nat
  fs_totalTransactions :: nat
  fs_lastTransactionAt :: "nat option"
  fs_monthlyVolume :: "month_line list"

text \<open>The clause of the summary knows dates and account only.\<close>

definition summary_filters :: "tx_filters \<Rightarrow> tx_filters" where
  "summary_filters f = no_filters\<lparr>tf_startDate := tf_startDate f, tf_endDate := tf_endDate f,
     tf_accountNumber := tf_accountNumber f\<rparr>"

definition summary_rows :: "query_env \<Rightarrow> query_context \<Rightarrow> tx_filters \<Rightarrow> db \<Rightarrow> transaction list" where
  "summary_rows E ctx f db = newest_by t_createdAt
     (filter (buildTransactionWhereClause E ctx (summary_filters f) db) (db_transactions db))"

definition getFinancialSummary ::
  "query_env \<Rightarrow> query_context \<Rightarrow> tx_filters \<Rightarrow> string option \<Rightarrow> db \<Rightarrow> fin_summary" where
  "getFinancialSummary E ctx f currency db =
     (let txs = summary_rows E ctx f db;
          a = fold (tally_tx ctx f db) txs tally_start
      in \<lparr>fs_currency = (case currency of None \<Rightarrow> ''USD'' | Some c \<Rightarrow> c),
          fs_totalSent = to_fixed2 (ta_sent a), fs_totalReceived = to_fixed2 (ta_received a),
          fs_totalVolume = to_fixed2 (js_add (ta_sent a) (ta_received a)),
          fs_totalSuccessful = ta_successful a, fs_totalFailed = ta_failed a,
          fs_totalTransactions = length txs,
          fs_lastTransactionAt = (case txs of [] \<Rightarrow> None | t # _ \<Rightarrow> Some (t_createdAt t)),
          fs_monthlyVolume = map month_line_of (newest_months (ta_months a))\<rparr>)"

subsection \<open>Handlers\<close>

definition reference_handler :: "claims \<Rightarrow> string \<Rightarrow> db \<Rightarrow> app_error + (tx_row \<times> outbox_line list) response" where
  "reference_handler c r db =
     rbind (getPaymentByReference r (query_context_of c) db) (\<lambda>x. Inr (api_success ''Payment details retrieved'' x 200))"

text \<open>The history handler passes no account number, the search handler does; neither passes a user.\<close>

definition history_handler :: "query_env \<Rightarrow> claims \<Rightarrow> tx_filters \<Rightarrow> db \<Rightarrow> tx_page response" where
  "history_handler E c q db = api_success ''Payment history retrieved successfully''
     (getPaginatedTransactions E (query_context_of c) (q\<lparr>tf_accountNumber := None, tf_userId := None\<rparr>) db) 200"

definition search_handler :: "query_env \<Rightarrow> claims \<Rightarrow> tx_filters \<Rightarrow> db \<Rightarrow> tx_page response" where
  "search_handler E c q db = api_success ''Payment search results retrieved successfully''
     (getPaginatedTransactions E (query_context_of c) (q\<lparr>tf_userId := None\<rparr>) db) 200"

definition summary_handler :: "query_env \<Rightarrow> claims \<Rightarrow> tx_filters \<Rightarrow> string option \<Rightarrow> db \<Rightarrow> fin_summary response" where
  "summary_handler E c q currency db = api_success ''Financial dashboard summary retrieved successfully''
     (getFinancialSummary E (query_context_of c) q currency db) 200"

lemma civil_month_examples:
  "civil_month 0 = (1970, 1)" "civil_month 1772323199000 = (2026, 2)" "civil_month 1772323200000 = (2026, 3)"
  "civil_month 951868799999 = (2000, 2)" "civil_month 1735689599999 = (2024, 12)"
  by (simp_all add: civil_month_def Let_def)

subsection \<open>Scoping\<close>

lemma role_scope_customer: "\<not> is_staff (qc_role ctx) \<Longrightarrow> role_scope ctx f db t = party (qc_userId ctx) db t"
  by (simp add: role_scope_def)

lemma page_rows:
  assumes "x \<in> set (tp_transactions (getPaginatedTransactions E ctx f db))"
  shows "\<exists>t \<in> set (db_transactions db). x = tx_row_of db t \<and> buildTransactionWhereClause E ctx f db t"
proof -
  let ?rows = "newest_by t_createdAt (filter (buildTransactionWhereClause E ctx f db) (db_transactions db))"
  let ?items = "fst (cursor_page t_id (page_limit f) (cursor_after t_id (tf_cursor f) ?rows))"
  have "tp_transactions (getPaginatedTransactions E ctx f db) = map (tx_row_of db) ?items"
    by (simp add: getPaginatedTransactions_def Let_def case_prod_beta)
  then obtain t where t: "t \<in> set ?items" "x = tx_row_of db t" using assms by auto
  from t(1) have "t \<in> set ?rows" by (rule subsetD[OF set_cursor_after subsetD[OF set_cursor_page]])
  then show ?thesis using t(2) by (auto simp: newest_by_def)
qed

text \<open>C12: A customer sees own payments only. For a caller who is neither teller nor administrator, whatever
  filters the request has, each transaction of a page has a live account of the caller as its
  source or target, the counts of page and summary count such transactions only, and the details of
  a payment are given out only when the caller owns its source or target account.\<close>

theorem customers_see_own_payments:
  assumes "\<not> is_staff (qc_role ctx)" and "qc_userId ctx = Some u"
  shows "(\<forall>x. x \<in> set (tp_transactions (getPaginatedTransactions E ctx f db)) \<longrightarrow>
      (\<exists>t. t \<in> set (db_transactions db) \<and> x = tx_row_of db t \<and> party (Some u) db t)) \<and>
    tp_totalCount (getPaginatedTransactions E ctx f db) \<le> length (filter (party (Some u) db) (db_transactions db)) \<and>
    fs_totalTransactions (getFinancialSummary E ctx f cur db) \<le> length (filter (party (Some u) db) (db_transactions db)) \<and>
    (\<forall>x. getPaymentByReference r ctx db = Inr x \<longrightarrow>
      (\<exists>t a. fst x = tx_row_of db t \<and> t_referenceId t = Some r \<and> a_userId a = u \<and>
        (sourceAccount db t = Some a \<or> targetAccount db t = Some a)))"
proof (intro conjI allI impI)
  fix x assume "x \<in> set (tp_transactions (getPaginatedTransactions E ctx f db))"
  from page_rows[OF this] show "\<exists>t. t \<in> set (db_transactions db) \<and> x = tx_row_of db t \<and> party (Some u) db t"
    using assms by (auto simp: buildTransactionWhereClause_def role_scope_customer)
next
  have le: "length (filter (buildTransactionWhereClause E ctx g db) ts) \<le> length (filter (party (Some u) db) ts)" for g ts
    using assms by (induction ts) (auto simp: buildTransactionWhereClause_def role_scope_customer)
  show "tp_totalCount (getPaginatedTransactions E ctx f db) \<le> length (filter (party (Some u) db) (db_transactions db))"
    using le by (simp add: getPaginatedTransactions_def newest_by_def Let_def split: prod.split)
  show "fs_totalTransactions (getFinancialSummary E ctx f cur db) \<le> length (filter (party (Some u) db) (db_transactions db))"
    using le by (simp add: getFinancialSummary_def summary_rows_def newest_by_def Let_def)
next
  fix x assume "getPaymentByReference r ctx db = Inr x"
  then show "\<exists>t a. fst x = tx_row_of db t \<and> t_referenceId t = Some r \<and> a_userId a = u \<and>
        (sourceAccount db t = Some a \<or> targetAccount db t = Some a)"
    using assms by (fastforce simp: getPaymentByReference_def findByReferenceId_def is_user_def Let_def
        split: option.splits if_splits dest: find_SomeD)
qed

subsection \<open>Exactness of the summary\<close>

text \<open>One rounding of a sum of less than a billion is off by less than \<open>3 * 10\<^sup>-\<^sup>7\<close> with its summand.\<close>

lemma fl_err_small:
  assumes "\<bar>x\<bar> \<le> 1000000001"
  shows "\<bar>fl x - x\<bar> \<le> 14 / 10 ^ 8"
proof -
  have "\<bar>fl x - x\<bar> \<le> \<bar>x\<bar> / 2 ^ 53 + 1 / 2 ^ 1075" by (rule fl_err)
  also have "\<dots> \<le> 1000000001 / 2 ^ 53 + 1 / 2 ^ 53"
    using assms by (intro add_mono divide_right_mono divide_left_mono) (simp_all add: power_increasing)
  also have "\<dots> \<le> 14 / 10 ^ 8" by simp
  finally show ?thesis .
qed

definition js_sum :: "int list \<Rightarrow> rat" where
  "js_sum cs = fold (\<lambda>c s. js_add s (num_of_cents c)) cs 0"

lemma js_sum_snoc: "js_sum (cs @ [c]) = js_add (js_sum cs) (num_of_cents c)"
  by (simp add: js_sum_def)

lemma js_sum_err:
  assumes "\<forall>c \<in> set cs. 0 \<le> c" and "sum_list cs \<le> 10 ^ 11" and "length cs \<le> 5000"
  shows "\<bar>js_sum cs - of_int (sum_list cs) / 100\<bar> \<le> of_nat (length cs) * (3 / 10 ^ 7)"
  using assms
proof (induction cs rule: rev_induct)
  case Nil
  then show ?case by (simp add: js_sum_def)
next
  case (snoc c cs)
  let ?S = "of_int (sum_list cs) / 100 :: rat" and ?c = "of_int c / 100 :: rat"
  have c: "0 \<le> c" "0 \<le> sum_list cs" "c + sum_list cs \<le> 10 ^ 11"
    using snoc.prems by (auto intro: sum_list_nonneg)
  have IH: "\<bar>js_sum cs - ?S\<bar> \<le> of_nat (length cs) * (3 / 10 ^ 7)" using snoc.IH snoc.prems c by simp
  have "of_nat (length cs) * (3 / 10 ^ 7) \<le> (5000 * (3 / 10 ^ 7) :: rat)"
    using snoc.prems(3) by (intro mult_right_mono) simp_all
  with IH have near: "\<bar>js_sum cs - ?S\<bar> \<le> 15 / 10 ^ 4" by simp
  have r: "0 \<le> ?c" "0 \<le> ?S" "?c + ?S \<le> 10 ^ 9"
  proof -
    have "(of_int (c + sum_list cs) :: rat) \<le> of_int (10 ^ 11)" using c by (simp only: of_int_le_iff)
    then show "?c + ?S \<le> 10 ^ 9" by simp
  qed (use c in simp_all)
  have amt: "\<bar>num_of_cents c - ?c\<bar> \<le> 14 / 10 ^ 8"
    unfolding num_of_cents_def using r by (intro fl_err_small) simp
  let ?x = "js_sum cs + num_of_cents c"
  have "\<bar>?x\<bar> \<le> 1000000001" using near amt r unfolding abs_le_iff by simp
  then have "\<bar>fl ?x - ?x\<bar> \<le> 14 / 10 ^ 8" by (rule fl_err_small)
  then have "\<bar>js_add (js_sum cs) (num_of_cents c) - (?S + ?c)\<bar> \<le> of_nat (length cs) * (3 / 10 ^ 7) + 28 / 10 ^ 8"
    using IH amt unfolding js_add_def by linarith
  then show ?case by (simp add: js_sum_snoc add_divide_distrib algebra_simps)
qed

lemma js_add_near:
  assumes "\<bar>s - of_int a / 100\<bar> \<le> 15 / 10 ^ 4" "\<bar>r - of_int b / 100\<bar> \<le> 15 / 10 ^ 4"
    and "0 \<le> a" "a \<le> 10 ^ 11" "0 \<le> b" "b \<le> 10 ^ 11"
  shows "\<bar>js_add s r - of_int (a + b) / 100\<bar> \<le> 4 / 10 ^ 3"
proof -
  have near: "s - of_int a / 100 \<le> 15 / 10000" "- (15 / 10000) \<le> s - of_int a / 100"
    "r - of_int b / 100 \<le> 15 / 10000" "- (15 / 10000) \<le> r - of_int b / 100"
    using assms(1,2) by (simp_all only: abs_le_iff) simp_all
  have int: "0 \<le> (of_int a :: rat)" "(of_int a :: rat) \<le> of_int (10 ^ 11)" "0 \<le> (of_int b :: rat)" "(of_int b :: rat) \<le> of_int (10 ^ 11)"
    using assms(3-6) by (simp_all only: of_int_le_iff of_int_0_le_iff)
  have "\<bar>s + r\<bar> \<le> 2000000000001" using near int unfolding abs_le_iff by simp
  then have "\<bar>js_add s r - (s + r)\<bar> \<le> 3 / 10000" unfolding js_add_def by (rule fl_err_bound)
  then show ?thesis using near unfolding abs_le_iff by (simp add: add_divide_distrib)
qed

text \<open>A number within half a cent of a sum of cents prints as that sum.\<close>

lemma to_fixed2_near:
  assumes "\<bar>x - of_int n / 100\<bar> \<le> 4 / 10 ^ 3" and "0 \<le> n"
  shows "to_fixed2 x = num_of_cents n"
proof (cases "x < 0")
  case False
  have "x - of_int n / 100 \<le> 4 / 1000" "- (4 / 1000) \<le> x - of_int n / 100" using assms(1) by (simp_all only: abs_le_iff) simp_all
  then have "\<lfloor>\<bar>x\<bar> * 10 ^ 2 + 1 / 2\<rfloor> = n" using False by (intro floor_unique) simp_all
  with False show ?thesis by (simp add: to_fixed2_def to_fixed_def num_of_cents_def)
next
  case True
  have b: "- (4 / 1000) \<le> x - of_int n / 100" using assms(1) by (simp only: abs_le_iff) simp
  with True have "(of_int n :: rat) < 1" by simp
  then have n: "n = 0" using assms(2) by simp
  with b have "\<lfloor>\<bar>x\<bar> * 10 ^ 2 + 1 / 2\<rfloor> = 0" using True by (intro floor_unique) simp_all
  with True n show ?thesis by (simp add: to_fixed2_def to_fixed_def num_of_cents_def)
qed

definition completed_cents :: "(transaction \<Rightarrow> bool) \<Rightarrow> transaction list \<Rightarrow> int list" where
  "completed_cents P txs = map t_amount (filter (\<lambda>t. t_status t = COMPLETED \<and> P t) txs)"

lemma tally_sums:
  "ta_sent (fold (tally_tx ctx f db) txs tally_start) = js_sum (completed_cents (isSender ctx f db) txs)"
  "ta_received (fold (tally_tx ctx f db) txs tally_start) = js_sum (completed_cents (isReceiver ctx f db) txs)"
  "ta_successful (fold (tally_tx ctx f db) txs tally_start) = length (filter (\<lambda>t. t_status t = COMPLETED) txs)"
  "ta_failed (fold (tally_tx ctx f db) txs tally_start) = length (filter (\<lambda>t. t_status t = FAILED) txs)"
  by (induction txs rule: rev_induct)
     (simp_all add: tally_start_def completed_cents_def js_sum_snoc tally_tx_def Let_def, simp_all add: js_sum_def)

lemma completed_cents_bounds:
  assumes "\<forall>t \<in> set txs. 0 \<le> t_amount t" and "(\<Sum>t\<leftarrow>txs. t_amount t) \<le> 10 ^ 11" and "length txs \<le> 5000"
  shows "\<forall>c \<in> set (completed_cents P txs). 0 \<le> c" and "sum_list (completed_cents P txs) \<le> 10 ^ 11"
    and "length (completed_cents P txs) \<le> 5000"
proof -
  show "\<forall>c \<in> set (completed_cents P txs). 0 \<le> c" using assms(1) by (auto simp: completed_cents_def)
  have "sum_list (completed_cents P txs) \<le> (\<Sum>t\<leftarrow>txs. t_amount t)"
    using assms(1) by (induction txs) (auto simp: completed_cents_def)
  with assms(2) show "sum_list (completed_cents P txs) \<le> 10 ^ 11" by simp
  show "length (completed_cents P txs) \<le> 5000"
    using le_trans[OF length_filter_le assms(3)] by (simp add: completed_cents_def)
qed


subsection \<open>A small database\<close>

definition sample_queries :: db where
  "sample_queries = \<lparr>db_users = [],
     db_accounts = [\<lparr>a_id = ''a'', a_accountNumber = ''VC1'', a_userId = ''u'', a_type = CHECKING, a_status = ACTIVE,
       a_balance = 0, a_currency = ''USD'', a_version = 0, a_deletedAt = None, a_createdAt = 0\<rparr>],
     db_transactions = map (\<lambda>(i, s, t, amt, st). \<lparr>t_id = i, t_idempotencyKey = i, t_referenceId = Some i, t_sourceAccountId = s,
       t_targetAccountId = t, t_amount = amt, t_currency = ''USD'', t_type = TRANSFER, t_status = st, t_description = None,
       t_failureReason = None, t_createdAt = 1000\<rparr>)
       [(''t1'', Some ''a'', Some ''b'', 110, COMPLETED), (''t2'', Some ''b'', Some ''a'', 220, COMPLETED), (''t3'', Some ''b'', Some ''c'', 500, FAILED)],
     db_entries = [], db_outbox = [], db_audits = [], db_notifications = [], db_now = 5, db_seq = 0\<rparr>"

abbreviation "sample_customer \<equiv> \<lparr>qc_userId = Some ''u'', qc_role = Some CUSTOMER\<rparr>"
abbreviation "sample_qe \<equiv> \<lparr>qe_decimal = id\<rparr>"

lemma sample_rows:
  "summary_rows sample_qe sample_customer no_filters sample_queries = take 2 (db_transactions sample_queries)"
  by (simp add: sample_queries_def summary_rows_def summary_filters_def no_filters_def newest_by_def
      buildTransactionWhereClause_def role_scope_def is_staff_def party_def on_account_def owned_by_def sourceAccount_def
      targetAccount_def related_account_def account_by_id_def account_filter_def amount_filter_def date_filter_def
      reference_filter_def truthy_def)

theorem customers_see_own_payments_witness:
  "tp_totalCount (getPaginatedTransactions sample_qe sample_customer no_filters sample_queries) \<le>
     length (filter (party (Some ''u'') sample_queries) (db_transactions sample_queries)) \<and>
   length (filter (party (Some ''u'') sample_queries) (db_transactions sample_queries)) = 2"
proof
  show "tp_totalCount (getPaginatedTransactions sample_qe sample_customer no_filters sample_queries) \<le>
     length (filter (party (Some ''u'') sample_queries) (db_transactions sample_queries))"
    using customers_see_own_payments[of sample_customer "''u''" sample_qe no_filters sample_queries]
    by (simp add: is_staff_def)
  show "length (filter (party (Some ''u'') sample_queries) (db_transactions sample_queries)) = 2"
    by (simp add: sample_queries_def party_def on_account_def owned_by_def sourceAccount_def
      targetAccount_def related_account_def account_by_id_def)
qed


end
