(* ===== verification/BrowserStorage.thy ===== *)
theory BrowserStorage
  imports Prelude
begin

text \<open>
  What the web application keeps in the browser (\<open>frontend/src/utils/storage.js\<close>): the access token
  in memory, the profile of the user and the marks of read notifications in \<open>localStorage\<close>;
  and the identifiers it makes (\<open>utils/trace.js\<close>, \<open>api/paymentApi.js\<close>). An entry of
  \<open>localStorage\<close> holds what was stored, or text that \<open>JSON.parse\<close> refuses; a full store
  throws on every write.
\<close>

datatype 'a slot = Missing | Garbled | Stored 'a

record profile =
  pf_id :: "string option"
  pf_email :: "string option"
  pf_firstName :: "string option"
  pf_lastName :: "string option"
  pf_role :: "string option"

record browser =
  br_token :: "string option"
  br_user :: "profile slot"
  br_readIds :: "string list slot"
  br_readAll :: "nat option" \<comment> \<open>the time of the last ``mark all''\<close>
  br_full :: bool

subsection \<open>The token\<close>

definition setMemoryAccessToken :: "string option \<Rightarrow> browser \<Rightarrow> browser" where
  "setMemoryAccessToken t b = b\<lparr>br_token := (if truthy t then t else None)\<rparr>"

definition clearMemoryAccessToken :: "browser \<Rightarrow> browser" where
  "clearMemoryAccessToken b = b\<lparr>br_token := None\<rparr>"

subsection \<open>Read notifications\<close>

definition getReadIds :: "browser \<Rightarrow> string set" where
  "getReadIds b = (case br_readIds b of Stored ids \<Rightarrow> set ids | _ \<Rightarrow> {})"

text \<open>
  A timestamp is missing (\<^const>\<open>None\<close>), no date (\<open>Some None\<close>) or a time. A second of grace is given
  to notifications made just after the marking.
\<close>

definition isRead :: "string option \<Rightarrow> nat option option \<Rightarrow> browser \<Rightarrow> bool" where
  "isRead i ts b \<longleftrightarrow> truthy i \<and>
     (the i \<in> getReadIds b \<or>
      (case br_readAll b of None \<Rightarrow> False
       | Some m \<Rightarrow> (case ts of None \<Rightarrow> True | Some None \<Rightarrow> False | Some (Some t) \<Rightarrow> t \<le> m + 1000)))"

definition read_list :: "browser \<Rightarrow> string list" where
  "read_list b = (case br_readIds b of Stored ids \<Rightarrow> ids | _ \<Rightarrow> [])"

text \<open>\<open>readIds.add(id)\<close> on a set kept in insertion order\<close>

definition add_id :: "string \<Rightarrow> string list \<Rightarrow> string list" where
  "add_id i ids = (if i \<in> set ids then ids else ids @ [i])"

definition markAsRead :: "string option \<Rightarrow> browser \<Rightarrow> browser" where
  "markAsRead i b =
     (if \<not> truthy i \<or> br_full b then b else b\<lparr>br_readIds := Stored (add_id (the i) (read_list b))\<rparr>)"

definition markAllAsRead :: "string option list \<Rightarrow> nat \<Rightarrow> browser \<Rightarrow> browser" where
  "markAllAsRead is now b =
     (if br_full b then b
      else b\<lparr>br_readIds := Stored (fold (\<lambda>i ids. if truthy i then add_id (the i) ids else ids) is (read_list b)),
             br_readAll := Some now\<rparr>)"

definition clear_notifications :: "browser \<Rightarrow> browser" where
  "clear_notifications b = b\<lparr>br_readIds := Missing, br_readAll := None\<rparr>"

subsection \<open>The profile\<close>

definition getUser :: "browser \<Rightarrow> profile option" where
  "getUser b = (case br_user b of Stored u \<Rightarrow> Some u | _ \<Rightarrow> None)"

text \<open>The user object of the server: its identifier can have three names, and it can have other fields.\<close>

record server_user =
  su_id :: "string option"
  su_userId :: "string option"
  su_mongoId :: "string option" \<comment> \<open>\<open>_id\<close>\<close>
  su_email :: "string option"
  su_firstName :: "string option"
  su_lastName :: "string option"
  su_role :: "string option"

definition minimalProfile :: "server_user \<Rightarrow> profile" where
  "minimalProfile u = \<lparr>pf_id = js_or (js_or (su_id u) (su_userId u)) (su_mongoId u), pf_email = su_email u,
     pf_firstName = su_firstName u, pf_lastName = su_lastName u, pf_role = su_role u\<rparr>"

definition setUser :: "server_user option \<Rightarrow> browser \<Rightarrow> browser" where
  "setUser u b =
     (case u of None \<Rightarrow> b\<lparr>br_user := Missing\<rparr>
      | Some u \<Rightarrow> if br_full b then b else b\<lparr>br_user := Stored (minimalProfile u)\<rparr>)"

definition clearUser :: "browser \<Rightarrow> browser" where
  "clearUser b = clear_notifications (b\<lparr>br_user := Missing\<rparr>)"

definition clearAll :: "browser \<Rightarrow> browser" where
  "clearAll b = clearMemoryAccessToken (clear_notifications (b\<lparr>br_user := Missing\<rparr>))"

lemmas browser_defs = setMemoryAccessToken_def clearMemoryAccessToken_def setUser_def clearUser_def clearAll_def
  clear_notifications_def markAsRead_def markAllAsRead_def

subsection \<open>Identifiers\<close>

text \<open>
  \<open>crypto.randomUUID\<close> where the browser has it; otherwise the \<open>x\<close> and \<open>y\<close> of a template are replaced by
  random hexadecimal digits (the numbers \<open>Math.random() * 16 | 0\<close>, one for each).
\<close>

record random_source =
  randomUUID :: "string option"
  random16 :: "nat \<Rightarrow> nat"

definition hex_char :: "nat \<Rightarrow> char" where
  "hex_char n = ''0123456789abcdef'' ! n"

fun fill_template :: "(nat \<Rightarrow> nat) \<Rightarrow> nat \<Rightarrow> string \<Rightarrow> string" where
  "fill_template rnd n [] = []"
| "fill_template rnd n (c # s) =
     (if c = CHR ''x'' then hex_char (rnd n) # fill_template rnd (n + 1) s
      else if c = CHR ''y'' then hex_char (rnd n mod 4 + 8) # fill_template rnd (n + 1) s
      else c # fill_template rnd n s)"

definition uuid_template :: string where
  "uuid_template = ''xxxxxxxx-xxxx-4xxx-yxxx-xxxxxxxxxxxx''"

definition generateTraceId :: "random_source \<Rightarrow> string" where
  "generateTraceId R = (case randomUUID R of Some u \<Rightarrow> u | None \<Rightarrow> fill_template (random16 R) 0 uuid_template)"

definition generateUUID :: "random_source \<Rightarrow> string" where
  "generateUUID R = (case randomUUID R of Some u \<Rightarrow> u | None \<Rightarrow> fill_template (random16 R) 0 uuid_template)"

definition is_hex :: "char \<Rightarrow> bool" where
  "is_hex c \<longleftrightarrow> c \<in> set ''0123456789abcdef''"

text \<open>What a validator asks of an identifier made from a template.\<close>

definition fits :: "string \<Rightarrow> string \<Rightarrow> bool" where
  "fits tmpl s \<longleftrightarrow> list_all2 (\<lambda>t c. if t = CHR ''x'' then is_hex c
     else if t = CHR ''y'' then c \<in> set ''89ab'' else c = t) tmpl s"

subsection \<open>Lemmas\<close>

lemma is_hex_digit: "n < 16 \<Longrightarrow> is_hex (hex_char n)"
  unfolding is_hex_def hex_char_def by (rule nth_mem) simp

lemma hex_digit_variant: "hex_char (n mod 4 + 8) \<in> set ''89ab''"
proof -
  have "hex_char (m + 8) = ''89ab'' ! m" if "m < 4" for m
    using that unfolding hex_char_def by (cases rule: linorder_cases[of m 2]) (auto simp: less_Suc_eq numeral_eq_Suc)
  then show ?thesis using mod_less_divisor[of 4 n] nth_mem[of "n mod 4" "''89ab''"] by simp
qed

lemma fill_template_fits: "(\<And>n. rnd n < 16) \<Longrightarrow> fits s (fill_template rnd n s)"
  by (induction rnd n s rule: fill_template.induct) (use hex_digit_variant in \<open>auto simp: fits_def is_hex_digit\<close>)

text \<open>Without \<open>crypto\<close> the code still makes identifiers of version 4.\<close>

lemma generateUUID_version4:
  "randomUUID R = None \<Longrightarrow> (\<And>n. random16 R n < 16) \<Longrightarrow> fits uuid_template (generateUUID R)"
  by (simp add: generateUUID_def fill_template_fits)

lemma getReadIds_read_list: "getReadIds b = set (read_list b)"
  by (simp add: getReadIds_def read_list_def split: slot.split)

lemma set_add_id [simp]: "set (add_id i ids) = insert i (set ids)"
  by (auto simp: add_id_def)

lemma set_add_ids: "set (fold (\<lambda>i ids. if truthy i then add_id (the i) ids else ids) is ids) =
    set ids \<union> {the i |i. i \<in> set is \<and> truthy i}"
  by (induction "is" arbitrary: ids) auto

lemma markAsRead_reads:
  assumes "truthy i" and "\<not> br_full b"
  shows "isRead i ts (markAsRead i b)"
    and "isRead j ts b \<Longrightarrow> isRead j ts (markAsRead i b)"
  using assms by (auto simp: isRead_def markAsRead_def getReadIds_read_list read_list_def split: option.split slot.split)

lemma markAllAsRead_reads:
  assumes "\<not> br_full b"
  shows "truthy i \<Longrightarrow> i \<in> set is \<Longrightarrow> isRead i ts (markAllAsRead is now b)"
    and "truthy j \<Longrightarrow> t \<le> now + 1000 \<Longrightarrow> isRead j (Some (Some t)) (markAllAsRead is now b)"
  using assms by (auto simp: isRead_def markAllAsRead_def getReadIds_def set_add_ids split: option.split)

text \<open>Logging out leaves nothing of the user in the browser.\<close>

lemma logged_out_clean:
  "getUser (clearUser b) = None" "getReadIds (clearUser b) = {}" "\<not> isRead i ts (clearUser b)"
  "clearAll b = (clearUser b)\<lparr>br_token := None\<rparr>"
  by (simp_all add: browser_defs getUser_def getReadIds_def isRead_def)

end
