(* ===== verification/WebClient.thy ===== *)
theory WebClient
  imports Paging BrowserStorage
begin

text \<open>
  The HTTP client of the web application (\<open>frontend/src/api/client.js\<close>) with its two interceptors,
  and the session state of the user interface (\<open>context/AuthContext.jsx\<close>), which listens to the
  client's session-expired event. What axios does with a request is the list of actions the
  interceptors return; the requests under way are in theory WebClientProps. The configuration object
  of a request keeps its own fields \<open>_retryCount\<close> and \<open>_authRetried\<close> when it is sent again. The body
  \<open>'b\<close> of a request is never looked at.
\<close>

datatype web_method = Get | Post | Patch

record 'b web_request =
  wr_id :: nat \<comment> \<open>the promise the caller holds\<close>
  wr_method :: web_method
  wr_url :: string
  wr_body :: 'b
  wr_auth :: "string option" \<comment> \<open>the token in the header \<open>Authorization\<close>\<close>
  wr_trace :: "string option"
  wr_retryCount :: nat
  wr_authRetried :: bool

record web_error =
  we_status :: "nat option" \<comment> \<open>\<open>error.response?.status\<close>\<close>
  we_code :: "string option"
  we_message :: "string option"
  we_trace :: "string option"

text \<open>What the login, signup and refresh endpoints answer; the token can be in three places.\<close>

record token_reply =
  ar_tokensAccess :: "string option"
  ar_accessToken :: "string option"
  ar_token :: "string option"
  ar_user :: "server_user option"
  ar_role :: "string option"

definition new_access_token :: "token_reply \<Rightarrow> string option" where
  "new_access_token r = js_or (js_or (ar_tokensAccess r) (ar_accessToken r)) (ar_token r)"

record inspector_entry =
  ie_trace :: string
  ie_method :: web_method
  ie_url :: string
  ie_status :: nat
  ie_ok :: bool

record auth_ui =
  ui_user :: "server_user option"
  ui_accessToken :: "string option"
  ui_isSessionExpired :: bool
  ui_loading :: bool

record 'b web_client =
  wc_browser :: browser
  wc_default :: "string option" \<comment> \<open>\<open>apiClient.defaults.headers.common.Authorization\<close>\<close>
  wc_isRefreshing :: bool
  wc_failedQueue :: "'b web_request list"
  wc_expired :: bool \<comment> \<open>\<open>isSessionExpiredActive\<close>\<close>
  wc_events :: nat \<comment> \<open>session-expired events so far\<close>
  wc_inspected :: "inspector_entry list"
  wc_ui :: auth_ui

abbreviation wc_token :: "'b web_client \<Rightarrow> string option" where
  "wc_token c \<equiv> br_token (wc_browser c)"

definition on_browser :: "(browser \<Rightarrow> browser) \<Rightarrow> 'b web_client \<Rightarrow> 'b web_client" where
  "on_browser g c = c\<lparr>wc_browser := g (wc_browser c)\<rparr>"

definition on_ui :: "(auth_ui \<Rightarrow> auth_ui) \<Rightarrow> 'b web_client \<Rightarrow> 'b web_client" where
  "on_ui g c = c\<lparr>wc_ui := g (wc_ui c)\<rparr>"

subsection \<open>The request interceptor\<close>

text \<open>
  \<open>trace\<close> is the identifier \<open>generateTraceId\<close> makes for this call. Axios merges the default headers
  into the headers of the request, which go first.
\<close>

definition request_interceptor :: "string \<Rightarrow> 'b web_client \<Rightarrow> 'b web_request \<Rightarrow> 'b web_request" where
  "request_interceptor trace c r =
     r\<lparr>wr_auth := (if truthy (wc_token c) then wc_token c
                    else if wr_auth r \<noteq> None then wr_auth r else wc_default c),
       wr_trace := (if truthy (wr_trace r) then wr_trace r else Some trace)\<rparr>"

subsection \<open>The session-expired event\<close>

text \<open>The listener of \<open>AuthContext\<close>; \<open>dispatchEvent\<close> runs it before it returns.\<close>

definition handleSessionExpired :: "'b web_client \<Rightarrow> 'b web_client" where
  "handleSessionExpired c =
     (on_browser clearMemoryAccessToken (on_ui (\<lambda>u. u\<lparr>ui_isSessionExpired := True, ui_accessToken := None\<rparr>) c))
       \<lparr>wc_default := None\<rparr>"

definition announce_expired :: "'b web_client \<Rightarrow> 'b web_client" where
  "announce_expired c =
     (if wc_expired c then c else handleSessionExpired (c\<lparr>wc_expired := True, wc_events := wc_events c + 1\<rparr>))"

definition resetSessionExpiredFlag :: "'b web_client \<Rightarrow> 'b web_client" where
  "resetSessionExpiredFlag c = c\<lparr>wc_expired := False\<rparr>"

subsection \<open>The response interceptor\<close>

definition inspect :: "'b web_request \<Rightarrow> string option \<Rightarrow> nat \<Rightarrow> bool \<Rightarrow> 'b web_client \<Rightarrow> 'b web_client" where
  "inspect r trace status ok c = c\<lparr>wc_inspected := wc_inspected c @
     [\<lparr>ie_trace = or_else (js_or trace (wr_trace r)) ''N/A'', ie_method = wr_method r, ie_url = wr_url r,
       ie_status = status, ie_ok = ok\<rparr>]\<rparr>"

definition error_status :: "web_error \<Rightarrow> nat" where
  "error_status e = (case we_status e of
       Some (Suc n) \<Rightarrow> Suc n | _ \<Rightarrow> if we_code e = Some ''ECONNABORTED'' then 408 else 0)"

definition mentions :: "string \<Rightarrow> string option \<Rightarrow> bool" where
  "mentions p s = (case s of None \<Rightarrow> False | Some s \<Rightarrow> contains p s)"

definition isNetworkError :: "web_error \<Rightarrow> bool" where
  "isNetworkError e \<longleftrightarrow> we_status e = None \<or> we_status e = Some 0 \<or>
     we_code e = Some ''ECONNABORTED'' \<or> we_code e = Some ''ETIMEDOUT'' \<or>
     mentions ''Network Error'' (we_message e) \<or> mentions ''timeout'' (we_message e)"

definition is5xxError :: "web_error \<Rightarrow> bool" where
  "is5xxError e = (case we_status e of None \<Rightarrow> False | Some s \<Rightarrow> 500 \<le> s \<and> s \<le> 599)"

definition isRetryableError :: "web_error \<Rightarrow> bool" where
  "isRetryableError e \<longleftrightarrow> isNetworkError e \<or> is5xxError e"

definition getRetryDelay :: "nat \<Rightarrow> nat" where
  "getRetryDelay n = 500 * 2 ^ (n - 1)"

abbreviation (input) "WEB_MAX_RETRIES \<equiv> (2 :: nat)"

text \<open>What becomes of a request after its reply was an error.\<close>

datatype 'b outcome =
    Backoff nat "'b web_request" \<comment> \<open>sent again after a delay\<close>
  | Queued \<comment> \<open>waits in \<open>failedQueue\<close> for the refresh under way\<close>
  | Refreshing "'b web_request" \<comment> \<open>starts the refresh call\<close>
  | Rejected web_error

definition after_retry :: "'b web_request \<Rightarrow> web_error \<Rightarrow> 'b web_client \<Rightarrow> 'b outcome \<times> 'b web_client" where
  "after_retry r e c =
     (if contains ''/auth/login'' (wr_url r) \<or> contains ''/auth/signup'' (wr_url r) then (Rejected e, c)
      else if contains ''/auth/refresh'' (wr_url r) then
        (Rejected e, if we_status e = Some 401 then announce_expired (on_browser clearMemoryAccessToken c) else c)
      else if we_status e = Some 401 \<and> wc_expired c then (Rejected e, c)
      else if we_status e = Some 401 \<and> \<not> wr_authRetried r then
        if wc_isRefreshing c then (Queued, c\<lparr>wc_failedQueue := wc_failedQueue c @ [r]\<rparr>)
        else (Refreshing (r\<lparr>wr_authRetried := True\<rparr>), c\<lparr>wc_isRefreshing := True\<rparr>)
      else (Rejected e, c))"

definition response_error :: "'b web_request \<Rightarrow> web_error \<Rightarrow> 'b web_client \<Rightarrow> 'b outcome \<times> 'b web_client" where
  "response_error r e c =
     (let c = inspect r (we_trace e) (error_status e) False c
      in if wr_method r = Get \<and> isRetryableError e then
           let r = r\<lparr>wr_retryCount := wr_retryCount r + 1\<rparr>
           in if wr_retryCount r \<le> WEB_MAX_RETRIES then (Backoff (getRetryDelay (wr_retryCount r)) r, c)
              else after_retry r e c
         else after_retry r e c)"

text \<open>
  The end of the refresh call: the requests to send, the promises to reject (the owner of the call
  and the queued ones), the state. A reply without a token is an error as well.
\<close>

definition refresh_failed :: "'b web_request \<Rightarrow> web_error \<Rightarrow> 'b web_client \<Rightarrow>
    'b web_request list \<times> 'b web_request list \<times> 'b web_client" where
  "refresh_failed r e c =
     (let queued = wc_failedQueue c;
          c = announce_expired (on_browser clearMemoryAccessToken (c\<lparr>wc_failedQueue := []\<rparr>))
      in ([], queued @ [r], c\<lparr>wc_isRefreshing := False\<rparr>))"

definition no_token_error :: web_error where
  "no_token_error = \<lparr>we_status = None, we_code = None,
     we_message = Some ''No access token in refresh response'', we_trace = None\<rparr>"

definition refresh_done :: "'b web_request \<Rightarrow> web_error + token_reply \<Rightarrow> 'b web_client \<Rightarrow>
    'b web_request list \<times> 'b web_request list \<times> 'b web_client" where
  "refresh_done r reply c =
     (case reply of
        Inl e \<Rightarrow> refresh_failed r e c
      | Inr d \<Rightarrow>
          let t = new_access_token d
          in if truthy t then
               let queued = map (\<lambda>q. q\<lparr>wr_auth := t\<rparr>) (wc_failedQueue c)
               in (queued @ [r\<lparr>wr_auth := t\<rparr>], [],
                   (on_browser (setMemoryAccessToken t) c)
                     \<lparr>wc_expired := False, wc_default := t, wc_failedQueue := [], wc_isRefreshing := False\<rparr>)
             else refresh_failed r no_token_error c)"

definition refresh_error :: "web_error + token_reply \<Rightarrow> web_error" where
  "refresh_error reply = (case reply of Inl e \<Rightarrow> e | Inr _ \<Rightarrow> no_token_error)"

subsection \<open>The session of the user interface\<close>

definition user_of_profile :: "profile \<Rightarrow> server_user" where
  "user_of_profile p = \<lparr>su_id = pf_id p, su_userId = None, su_mongoId = None, su_email = pf_email p,
     su_firstName = pf_firstName p, su_lastName = pf_lastName p, su_role = pf_role p\<rparr>"

definition savedUser :: "browser \<Rightarrow> server_user option" where
  "savedUser b = map_option user_of_profile (getUser b)"

definition isAuthenticated :: "'b web_client \<Rightarrow> bool" where
  "isAuthenticated c \<longleftrightarrow> truthy (ui_accessToken (wc_ui c))"

definition install_token :: "string option \<Rightarrow> 'b web_client \<Rightarrow> 'b web_client" where
  "install_token t c =
     (if \<not> truthy t then c
      else (resetSessionExpiredFlag (on_ui (\<lambda>u. u\<lparr>ui_accessToken := t, ui_isSessionExpired := False\<rparr>)
             (on_browser (setMemoryAccessToken t) c)))\<lparr>wc_default := t\<rparr>)"

definition keep_user :: "server_user option \<Rightarrow> 'b web_client \<Rightarrow> 'b web_client" where
  "keep_user u c = (if u = None then c else on_ui (\<lambda>ui. ui\<lparr>ui_user := u\<rparr>) (on_browser (setUser u) c))"

definition set_loading :: "bool \<Rightarrow> 'b web_client \<Rightarrow> 'b web_client" where
  "set_loading l = on_ui (\<lambda>u. u\<lparr>ui_loading := l\<rparr>)"

text \<open>\<open>data.user || { email, role: data.role || 'CUSTOMER' }\<close>\<close>

definition login_user :: "string \<Rightarrow> token_reply \<Rightarrow> server_user" where
  "login_user email d = (case ar_user d of Some u \<Rightarrow> u | None \<Rightarrow>
     \<lparr>su_id = None, su_userId = None, su_mongoId = None, su_email = Some email, su_firstName = None,
      su_lastName = None, su_role = Some (or_else (ar_role d) ''CUSTOMER'')\<rparr>)"

definition login_done :: "string \<Rightarrow> web_error + token_reply \<Rightarrow> 'b web_client \<Rightarrow> 'b web_client" where
  "login_done email reply c = set_loading False
     (case reply of Inl e \<Rightarrow> c | Inr d \<Rightarrow> keep_user (Some (login_user email d)) (install_token (new_access_token d) c))"

record signup_form =
  sf_email :: string
  sf_firstName :: string
  sf_lastName :: string
  sf_role :: "string option"

definition signup_user :: "signup_form \<Rightarrow> token_reply \<Rightarrow> server_user" where
  "signup_user f d = (case ar_user d of Some u \<Rightarrow> u | None \<Rightarrow>
     \<lparr>su_id = None, su_userId = None, su_mongoId = None, su_email = Some (sf_email f), su_firstName = Some (sf_firstName f),
      su_lastName = Some (sf_lastName f), su_role = Some (or_else (sf_role f) ''CUSTOMER'')\<rparr>)"

definition signup_done :: "signup_form \<Rightarrow> web_error + token_reply \<Rightarrow> 'b web_client \<Rightarrow> 'b web_client" where
  "signup_done f reply c = set_loading False
     (case reply of Inl e \<Rightarrow> c | Inr d \<Rightarrow> keep_user (Some (signup_user f d)) (install_token (new_access_token d) c))"

text \<open>\<open>finally\<close> of the logout, whatever the server said\<close>

definition logout_done :: "'b web_client \<Rightarrow> 'b web_client" where
  "logout_done c = set_loading False
     ((resetSessionExpiredFlag (on_ui (\<lambda>u. u\<lparr>ui_user := None, ui_accessToken := None, ui_isSessionExpired := False\<rparr>)
        (on_browser (\<lambda>b. clearUser (clearMemoryAccessToken b)) c)))\<lparr>wc_default := None\<rparr>)"

definition refresh_handler_done :: "web_error + token_reply \<Rightarrow> 'b web_client \<Rightarrow> 'b web_client" where
  "refresh_handler_done reply c =
     (case reply of
        Inl e \<Rightarrow> on_ui (\<lambda>u. u\<lparr>ui_accessToken := None, ui_isSessionExpired := True\<rparr>) (on_browser clearMemoryAccessToken c)
      | Inr d \<Rightarrow> if truthy (new_access_token d) then keep_user (ar_user d) (install_token (new_access_token d) c) else c)"

text \<open>The restoring of the session when the application starts; \<open>saved\<close> was read before the call.\<close>

definition restore_failed :: "server_user option \<Rightarrow> 'b web_client \<Rightarrow> 'b web_client" where
  "restore_failed saved c =
     (let c = (on_ui (\<lambda>u. u\<lparr>ui_accessToken := None\<rparr>) (on_browser clearMemoryAccessToken c))\<lparr>wc_default := None\<rparr>
      in if saved \<noteq> None then on_ui (\<lambda>u. u\<lparr>ui_isSessionExpired := True\<rparr>) c
         else on_ui (\<lambda>u. u\<lparr>ui_user := None\<rparr>) (on_browser clearUser c))"

definition restore_done :: "server_user option \<Rightarrow> web_error + token_reply \<Rightarrow> 'b web_client \<Rightarrow> 'b web_client" where
  "restore_done saved reply c = set_loading False
     (case reply of
        Inl e \<Rightarrow> restore_failed saved c
      | Inr d \<Rightarrow> if truthy (new_access_token d)
                 then keep_user (case ar_user d of None \<Rightarrow> saved | Some u \<Rightarrow> Some u) (install_token (new_access_token d) c)
                 else restore_failed saved c)"

definition app_start :: "browser \<Rightarrow> 'b web_client" where
  "app_start b = \<lparr>wc_browser = b\<lparr>br_token := None\<rparr>, wc_default = None, wc_isRefreshing = False, wc_failedQueue = [],
     wc_expired = False, wc_events = 0, wc_inspected = [],
     wc_ui = \<lparr>ui_user = savedUser b, ui_accessToken = None, ui_isSessionExpired = False, ui_loading = True\<rparr>\<rparr>"

lemmas session_ops = login_done_def signup_done_def logout_done_def refresh_handler_done_def restore_done_def
  restore_failed_def install_token_def keep_user_def set_loading_def resetSessionExpiredFlag_def
  announce_expired_def handleSessionExpired_def on_browser_def on_ui_def Let_def

end
