(* ===== verification/WebClientProps.thy ===== *)
theory WebClientProps
  imports WebClient "HOL-Library.Multiset"
begin

text \<open>
  The requests of the web application under way: those on the wire, those waiting for a timer, those
  queued behind a refresh and the one that owns the refresh call. A step answers one of them, by
  any answer the network may give; the user issues requests and the session handlers run in
  between. Every request ends, a payment is never repeated unless the server refused it, and the
  state of the session stays consistent.
\<close>

record ('b, 'd) web =
  web_client :: "'b web_client"
  web_inflight :: "'b web_request list"
  web_waiting :: "'b web_request list"
  web_owner :: "'b web_request option"
  web_answers :: "(nat \<times> (web_error + 'd)) list"
  web_issued :: "'b web_request list" \<comment> \<open>as the caller made them, by identifier\<close>
  web_wire :: "'b web_request list" \<comment> \<open>everything sent so far\<close>
  web_denied :: "nat list" \<comment> \<open>the requests answered with 401 so far\<close>

definition send_all :: "(nat \<Rightarrow> string) \<Rightarrow> 'b web_request list \<Rightarrow> ('b, 'd) web \<Rightarrow> ('b, 'd) web" where
  "send_all tr rs w =
     (let rs = map (\<lambda>r. request_interceptor (tr (wr_id r)) (web_client w) r) rs
      in w\<lparr>web_inflight := web_inflight w @ rs, web_wire := web_wire w @ rs\<rparr>)"

definition answer :: "nat \<Rightarrow> web_error + 'd \<Rightarrow> ('b, 'd) web \<Rightarrow> ('b, 'd) web" where
  "answer i a w = w\<lparr>web_answers := web_answers w @ [(i, a)]\<rparr>"

definition succeed :: "'b web_request \<Rightarrow> string option \<Rightarrow> nat \<Rightarrow> 'd \<Rightarrow> ('b, 'd) web \<Rightarrow> ('b, 'd) web" where
  "succeed r trace status d w =
     answer (wr_id r) (Inr d) (w\<lparr>web_client := inspect r trace status True (web_client w)\<rparr>)"

definition fail_request :: "'b web_request \<Rightarrow> web_error \<Rightarrow> ('b, 'd) web \<Rightarrow> ('b, 'd) web" where
  "fail_request r e w =
     (let (out, c) = response_error r e (web_client w);
          w = w\<lparr>web_client := c, web_denied := web_denied w @ (if we_status e = Some 401 then [wr_id r] else [])\<rparr>
      in case out of
           Backoff d r \<Rightarrow> w\<lparr>web_waiting := web_waiting w @ [r]\<rparr>
         | Queued \<Rightarrow> w
         | Refreshing r \<Rightarrow> w\<lparr>web_owner := Some r\<rparr>
         | Rejected e \<Rightarrow> answer (wr_id r) (Inl e) w)"

definition end_refresh ::
  "(nat \<Rightarrow> string) \<Rightarrow> 'b web_request \<Rightarrow> web_error + token_reply \<Rightarrow> ('b, 'd) web \<Rightarrow> ('b, 'd) web" where
  "end_refresh tr r reply w =
     (let (sends, rejects, c) = refresh_done r reply (web_client w)
      in send_all tr sends
           (w\<lparr>web_client := c, web_owner := None,
              web_answers := web_answers w @ map (\<lambda>q. (wr_id q, Inl (refresh_error reply))) rejects\<rparr>))"

inductive web_step :: "(nat \<Rightarrow> string) \<Rightarrow> ('b, 'd) web \<Rightarrow> ('b, 'd) web \<Rightarrow> bool" for tr where
  reply: "web_inflight w = xs @ r # ys \<Longrightarrow> web_step tr w (succeed r trace status d (w\<lparr>web_inflight := xs @ ys\<rparr>))"
| failure: "web_inflight w = xs @ r # ys \<Longrightarrow> web_step tr w (fail_request r e (w\<lparr>web_inflight := xs @ ys\<rparr>))"
| timer: "web_waiting w = xs @ r # ys \<Longrightarrow> web_step tr w (send_all tr [r] (w\<lparr>web_waiting := xs @ ys\<rparr>))"
| refreshed: "web_owner w = Some r \<Longrightarrow> web_step tr w (end_refresh tr r res w)"

definition new_request :: "nat \<Rightarrow> web_method \<Rightarrow> string \<Rightarrow> 'b \<Rightarrow> 'b web_request" where
  "new_request i m u b = \<lparr>wr_id = i, wr_method = m, wr_url = u, wr_body = b, wr_auth = None, wr_trace = None,
     wr_retryCount = 0, wr_authRetried = False\<rparr>"

definition issue :: "(nat \<Rightarrow> string) \<Rightarrow> web_method \<Rightarrow> string \<Rightarrow> 'b \<Rightarrow> ('b, 'd) web \<Rightarrow> ('b, 'd) web" where
  "issue tr m u b w =
     (let r = new_request (length (web_issued w)) m u b
      in send_all tr [r] (w\<lparr>web_issued := web_issued w @ [r]\<rparr>))"

inductive session_op :: "'b web_client \<Rightarrow> 'b web_client \<Rightarrow> bool" where
  "session_op c (login_done email reply c)"
| "session_op c (signup_done f reply c)"
| "session_op c (logout_done c)"
| "session_op c (refresh_handler_done reply c)"
| "session_op c (restore_done saved reply c)"
| "session_op c (set_loading l c)"
| "session_op c (on_ui (\<lambda>u. u\<lparr>ui_isSessionExpired := x\<rparr>) c)"

inductive user_step :: "(nat \<Rightarrow> string) \<Rightarrow> ('b, 'd) web \<Rightarrow> ('b, 'd) web \<Rightarrow> bool" for tr where
  issue: "user_step tr w (issue tr m u b w)"
| session: "session_op (web_client w) c \<Longrightarrow> user_step tr w (w\<lparr>web_client := c\<rparr>)"

definition web_start :: "browser \<Rightarrow> ('b, 'd) web" where
  "web_start b = \<lparr>web_client = app_start b, web_inflight = [], web_waiting = [], web_owner = None,
     web_answers = [], web_issued = [], web_wire = [], web_denied = []\<rparr>"

inductive web_reachable :: "(nat \<Rightarrow> string) \<Rightarrow> browser \<Rightarrow> ('b, 'd) web \<Rightarrow> bool" for tr b where
  start: "web_reachable tr b (web_start b)"
| step: "web_reachable tr b w \<Longrightarrow> web_step tr w w' \<Longrightarrow> web_reachable tr b w'"
| user: "web_reachable tr b w \<Longrightarrow> user_step tr w w' \<Longrightarrow> web_reachable tr b w'"

definition open_requests :: "('b, 'd) web \<Rightarrow> 'b web_request list" where
  "open_requests w = web_inflight w @ web_waiting w @ wc_failedQueue (web_client w) @
     (case web_owner w of None \<Rightarrow> [] | Some r \<Rightarrow> [r])"

subsection \<open>The cases of the interceptor\<close>

lemma client_simps [simp]:
  "wc_failedQueue (announce_expired c) = wc_failedQueue c" "wc_isRefreshing (announce_expired c) = wc_isRefreshing c"
  "wc_failedQueue (on_browser g c) = wc_failedQueue c" "wc_isRefreshing (on_browser g c) = wc_isRefreshing c"
  "wc_failedQueue (on_ui h c) = wc_failedQueue c" "wc_isRefreshing (on_ui h c) = wc_isRefreshing c"
  "wc_failedQueue (inspect r t n ok c) = wc_failedQueue c" "wc_isRefreshing (inspect r t n ok c) = wc_isRefreshing c"
  by (simp_all add: announce_expired_def handleSessionExpired_def on_browser_def on_ui_def inspect_def)

lemma after_retry_cases:
  assumes "after_retry r e c = (out, c')"
  obtains (queued) "out = Queued" "wc_failedQueue c' = wc_failedQueue c @ [r]" "wc_isRefreshing c" "wc_isRefreshing c'"
      "we_status e = Some 401" "\<not> wr_authRetried r"
    | (refreshing) "out = Refreshing (r\<lparr>wr_authRetried := True\<rparr>)" "\<not> wc_isRefreshing c" "wc_isRefreshing c'"
      "wc_failedQueue c' = wc_failedQueue c" "we_status e = Some 401" "\<not> wr_authRetried r"
    | (rejected) "out = Rejected e" "wc_failedQueue c' = wc_failedQueue c" "wc_isRefreshing c' = wc_isRefreshing c"
  using assms unfolding after_retry_def by (auto split: if_splits)

text \<open>What an error leads to: the request that goes on differs in its counters only.\<close>

lemma response_error_cases:
  assumes "response_error r e c = (out, c')"
  obtains (backoff) d where "out = Backoff d (r\<lparr>wr_retryCount := Suc (wr_retryCount r)\<rparr>)" "wr_method r = Get" "wr_retryCount r \<le> 1"
      "wc_failedQueue c' = wc_failedQueue c" "wc_isRefreshing c' = wc_isRefreshing c"
    | (queued) n where "out = Queued" "wc_failedQueue c' = wc_failedQueue c @ [r\<lparr>wr_retryCount := n\<rparr>]" "wr_retryCount r \<le> n"
      "wc_isRefreshing c" "wc_isRefreshing c'" "we_status e = Some 401" "\<not> wr_authRetried r"
    | (refreshing) n where "out = Refreshing (r\<lparr>wr_retryCount := n, wr_authRetried := True\<rparr>)" "wr_retryCount r \<le> n"
      "\<not> wc_isRefreshing c" "wc_isRefreshing c'" "wc_failedQueue c' = wc_failedQueue c" "we_status e = Some 401" "\<not> wr_authRetried r"
    | (rejected) "out = Rejected e" "wc_failedQueue c' = wc_failedQueue c" "wc_isRefreshing c' = wc_isRefreshing c"
proof (cases "wr_method r = Get \<and> isRetryableError e \<and> wr_retryCount r \<le> 1")
  case True
  with assms show ?thesis by (intro backoff) (auto simp: response_error_def Let_def)
next
  case False
  let ?d = "inspect r (we_trace e) (error_status e) False c"
  obtain n where n: "wr_retryCount r \<le> n" "after_retry (r\<lparr>wr_retryCount := n\<rparr>) e ?d = (out, c')"
  proof (cases "wr_method r = Get \<and> isRetryableError e")
    case True
    with False assms show ?thesis by (intro that[of "Suc (wr_retryCount r)"]) (auto simp: response_error_def Let_def)
  next
    case False
    with assms show ?thesis by (intro that[of "wr_retryCount r"]) (auto simp: response_error_def Let_def)
  qed
  note thesis = queued[of n] refreshing[of n] rejected
  from n(2) show ?thesis
  proof (cases rule: after_retry_cases)
    case queued
    with n(1) show ?thesis by (intro thesis(1)) simp_all
  next
    case refreshing
    with n(1) show ?thesis by (intro thesis(2)) simp_all
  next
    case rejected
    then show ?thesis by (intro thesis(3)) simp_all
  qed
qed

subsection \<open>Every request ends\<close>

definition fresh_requests :: "('b, 'd) web \<Rightarrow> nat" where
  "fresh_requests w = 2 * length (filter (\<lambda>r. \<not> wr_authRetried r) (open_requests w)) + (if web_owner w = None then 0 else 1)"

definition retries_left :: "('b, 'd) web \<Rightarrow> nat" where
  "retries_left w = (\<Sum>r\<leftarrow>open_requests w. 2 - wr_retryCount r)"

definition stages :: "('b, 'd) web \<Rightarrow> nat" where
  "stages w = 3 * length (web_waiting w) + 2 * length (web_inflight w) + length (wc_failedQueue (web_client w))"

lemmas measure_defs = fresh_requests_def retries_left_def stages_def open_requests_def

definition web_order :: "(('b, 'd) web \<times> ('b, 'd) web) set" where
  "web_order = measures [fresh_requests, retries_left, stages]"

lemma send_all_fields [simp]:
  "web_client (send_all tr rs w) = web_client w" "web_waiting (send_all tr rs w) = web_waiting w"
  "web_owner (send_all tr rs w) = web_owner w" "web_answers (send_all tr rs w) = web_answers w"
  "web_issued (send_all tr rs w) = web_issued w" "web_denied (send_all tr rs w) = web_denied w"
  "web_inflight (send_all tr rs w) = web_inflight w @ map (\<lambda>r. request_interceptor (tr (wr_id r)) (web_client w) r) rs"
  "web_wire (send_all tr rs w) = web_wire w @ map (\<lambda>r. request_interceptor (tr (wr_id r)) (web_client w) r) rs"
  by (simp_all add: send_all_def Let_def)

lemma interceptor_fields [simp]:
  "wr_id (request_interceptor t c r) = wr_id r" "wr_method (request_interceptor t c r) = wr_method r"
  "wr_url (request_interceptor t c r) = wr_url r" "wr_body (request_interceptor t c r) = wr_body r"
  "wr_retryCount (request_interceptor t c r) = wr_retryCount r"
  "wr_authRetried (request_interceptor t c r) = wr_authRetried r"
  by (simp_all add: request_interceptor_def)

lemma filter_interceptor [simp]:
  "length (filter (\<lambda>r. \<not> wr_authRetried r) (map (\<lambda>r. request_interceptor (t r) c r) rs)) =
     length (filter (\<lambda>r. \<not> wr_authRetried r) rs)"
  "(\<Sum>r\<leftarrow>map (\<lambda>r. request_interceptor (t r) c r) rs. 2 - wr_retryCount r) = (\<Sum>r\<leftarrow>rs. 2 - wr_retryCount r)"
  by (induction rs) simp_all

text \<open>The end of a refresh, in either case: the queue and the owner go on the wire, or they are answered.\<close>

lemma refresh_done_cases:
  assumes "refresh_done r reply c = (sends, rejects, c')"
  obtains (sent) t where "sends = map (\<lambda>q. q\<lparr>wr_auth := t\<rparr>) (wc_failedQueue c @ [r])" "rejects = []"
      "wc_failedQueue c' = []" "\<not> wc_isRefreshing c'"
    | (failed) "sends = []" "rejects = wc_failedQueue c @ [r]" "wc_failedQueue c' = []" "\<not> wc_isRefreshing c'"
proof (cases "\<exists>d. reply = Inr d \<and> truthy (new_access_token d)")
  case True
  then obtain d where "reply = Inr d" "truthy (new_access_token d)" by blast
  with assms show ?thesis by (intro sent[of "new_access_token d"]) (auto simp: refresh_done_def Let_def)
next
  case False
  with assms show ?thesis
    by (intro failed) (auto simp: refresh_done_def refresh_failed_def Let_def split: sum.splits)
qed

lemma web_step_decreases: "web_step tr w w' \<Longrightarrow> (w', w) \<in> web_order"
proof (induction rule: web_step.induct)
  case (reply w xs r ys trace status d)
  then show ?case by (auto simp: web_order_def succeed_def answer_def measure_defs)
next
  case (failure w xs r ys e)
  obtain out c' where o: "response_error r e (web_client w) = (out, c')" by force
  from o show ?case
    by (cases rule: response_error_cases)
      (use failure o in \<open>auto simp: web_order_def fail_request_def answer_def measure_defs split: option.split\<close>)
next
  case (timer w xs r ys)
  then show ?case by (simp add: web_order_def measure_defs)
next
  case (refreshed w r res)
  obtain sends rejects c' where d: "refresh_done r res (web_client w) = (sends, rejects, c')" by (metis prod_cases3)
  from d show ?case
    by (cases rule: refresh_done_cases) (use refreshed d in \<open>auto simp: web_order_def end_refresh_def measure_defs o_def\<close>)
qed

lemma web_steps_wf: "wf {(w', w). web_step tr w w'}"
proof (rule wf_subset)
  show "wf web_order" by (simp add: web_order_def)
qed (auto intro: web_step_decreases)

subsection \<open>No request is lost, no payment repeated\<close>

definition same_call :: "'b web_request \<Rightarrow> 'b web_request \<Rightarrow> bool" where
  "same_call r q \<longleftrightarrow> wr_method r = wr_method q \<and> wr_url r = wr_url q \<and> wr_body r = wr_body q"

definition sends :: "nat \<Rightarrow> ('b, 'd) web \<Rightarrow> nat" where
  "sends i w = count_list (map wr_id (web_wire w)) i"

definition denials :: "nat \<Rightarrow> ('b, 'd) web \<Rightarrow> nat" where
  "denials i w = count_list (web_denied w) i"

definition behind_refresh :: "('b, 'd) web \<Rightarrow> 'b web_request list" where
  "behind_refresh w = wc_failedQueue (web_client w) @ (case web_owner w of None \<Rightarrow> [] | Some r \<Rightarrow> [r])"

definition refresh_inv :: "('b, 'd) web \<Rightarrow> bool" where
  "refresh_inv w \<longleftrightarrow> (web_owner w = None \<longleftrightarrow> \<not> wc_isRefreshing (web_client w)) \<and>
     (\<not> wc_isRefreshing (web_client w) \<longrightarrow> wc_failedQueue (web_client w) = [])"

definition ids_inv :: "('b, 'd) web \<Rightarrow> bool" where
  "ids_inv w \<longleftrightarrow> mset (map wr_id (open_requests w)) + mset (map fst (web_answers w)) = mset [0..<length (web_issued w)]"

definition calls_inv :: "('b, 'd) web \<Rightarrow> bool" where
  "calls_inv w \<longleftrightarrow> (\<forall>r \<in> set (open_requests w) \<union> set (web_wire w).
     wr_id r < length (web_issued w) \<and> same_call r (web_issued w ! wr_id r))"

definition mutates :: "nat \<Rightarrow> ('b, 'd) web \<Rightarrow> bool" where
  "mutates i w \<longleftrightarrow> i < length (web_issued w) \<and> wr_method (web_issued w ! i) \<noteq> Get"

definition sends_inv :: "('b, 'd) web \<Rightarrow> bool" where
  "sends_inv w \<longleftrightarrow> (\<forall>r \<in> set (web_waiting w). wr_method r = Get) \<and>
     (\<forall>i. mutates i w \<longrightarrow> sends i w \<le> denials i w + 1) \<and>
     (\<forall>r \<in> set (behind_refresh w). mutates (wr_id r) w \<longrightarrow> sends (wr_id r) w \<le> denials (wr_id r) w)"

lemmas web_inv_defs = refresh_inv_def ids_inv_def calls_inv_def sends_inv_def

lemma count_list_distinct: "distinct xs \<Longrightarrow> count_list xs i = (if i \<in> set xs then 1 else 0)"
  by (induction xs) auto

lemma ids_distinct: "ids_inv w \<Longrightarrow> distinct (map wr_id (open_requests w))"
proof -
  assume "ids_inv w"
  then have "mset (map wr_id (open_requests w) @ map fst (web_answers w)) = mset [0..<length (web_issued w)]"
    by (simp add: ids_inv_def)
  then have "distinct (map wr_id (open_requests w) @ map fst (web_answers w))" by (metis distinct_upt mset_eq_imp_distinct_iff)
  then show ?thesis by simp
qed

lemma refresh_step: "web_step tr w w' \<Longrightarrow> refresh_inv w \<Longrightarrow> refresh_inv w'"
proof (induction rule: web_step.induct)
  case (failure w xs r ys e)
  obtain out c' where o: "response_error r e (web_client w) = (out, c')" by force
  from o show ?case
    by (cases rule: response_error_cases) (use failure o in \<open>auto simp: refresh_inv_def fail_request_def answer_def\<close>)
next
  case (refreshed w r res)
  obtain sends rejects c' where d: "refresh_done r res (web_client w) = (sends, rejects, c')" by (metis prod_cases3)
  from d show ?case
    by (cases rule: refresh_done_cases) (use d in \<open>auto simp: refresh_inv_def end_refresh_def\<close>)
qed (auto simp: refresh_inv_def succeed_def answer_def)

lemma ids_step: "web_step tr w w' \<Longrightarrow> refresh_inv w \<Longrightarrow> ids_inv w \<Longrightarrow> ids_inv w'"
proof (induction rule: web_step.induct)
  case (failure w xs r ys e)
  obtain out c' where o: "response_error r e (web_client w) = (out, c')" by force
  from o show ?case
    by (cases rule: response_error_cases)
      (use failure o in \<open>auto simp: refresh_inv_def ids_inv_def fail_request_def answer_def open_requests_def split: option.splits\<close>)
next
  case (refreshed w r res)
  obtain sends rejects c' where d: "refresh_done r res (web_client w) = (sends, rejects, c')" by (metis prod_cases3)
  from d show ?case
    by (cases rule: refresh_done_cases)
      (use refreshed d in \<open>auto simp: ids_inv_def end_refresh_def open_requests_def o_def ac_simps\<close>)
qed (auto simp: ids_inv_def succeed_def answer_def open_requests_def)

lemma calls_step: "web_step tr w w' \<Longrightarrow> calls_inv w \<Longrightarrow> calls_inv w'"
proof (induction rule: web_step.induct)
  case (failure w xs r ys e)
  obtain out c' where o: "response_error r e (web_client w) = (out, c')" by force
  from o show ?case
    by (cases rule: response_error_cases)
      (use failure o in \<open>auto simp: calls_inv_def fail_request_def answer_def open_requests_def same_call_def split: option.splits\<close>)
next
  case (refreshed w r res)
  obtain sends rejects c' where d: "refresh_done r res (web_client w) = (sends, rejects, c')" by (metis prod_cases3)
  from d show ?case
    by (cases rule: refresh_done_cases)
      (use refreshed d in \<open>auto simp: calls_inv_def end_refresh_def open_requests_def same_call_def\<close>)
qed (auto simp: calls_inv_def succeed_def answer_def open_requests_def same_call_def)

text \<open>Putting requests on the wire adds one to the count of each.\<close>

lemma sends_send_all:
  assumes "distinct (map wr_id rs)"
  shows "sends i (send_all tr rs w) = sends i w + (if i \<in> wr_id ` set rs then 1 else 0)"
  using count_list_distinct[OF assms, of i] by (simp add: sends_def o_def)

lemma sends_step:
  assumes "web_step tr w w'" and "refresh_inv w" and "ids_inv w" and "calls_inv w" and "sends_inv w"
  shows "sends_inv w'"
  using assms
proof (induction rule: web_step.induct)
  case (failure w xs r ys e)
  obtain out c' where o: "response_error r e (web_client w) = (out, c')" by force
  have r: "wr_id r < length (web_issued w)" "wr_method r = wr_method (web_issued w ! wr_id r)"
    and own: "wr_id r \<notin> wr_id ` set (behind_refresh w)"
    using failure ids_distinct[of w] by (auto simp: calls_inv_def open_requests_def same_call_def behind_refresh_def)
  from o show ?case
    by (cases rule: response_error_cases)
      (use failure o r own in \<open>auto simp: sends_inv_def fail_request_def answer_def behind_refresh_def sends_def denials_def
        mutates_def refresh_inv_def le_Suc_eq split: option.splits\<close>)
next
  case (refreshed w r res)
  obtain ss rejects c' where d: "refresh_done r res (web_client w) = (ss, rejects, c')" by (metis prod_cases3)
  have dist: "distinct (map wr_id (behind_refresh w))"
    using refreshed ids_distinct[of w] by (auto simp: open_requests_def behind_refresh_def)
  from d show ?case
  proof (cases rule: refresh_done_cases)
    case (sent t)
    let ?w = "w\<lparr>web_client := c', web_owner := None\<rparr>"
    have w': "end_refresh tr r res w = send_all tr ss ?w" using d sent by (simp add: end_refresh_def)
    have ids: "map wr_id ss = map wr_id (behind_refresh w)" using sent refreshed by (simp add: behind_refresh_def)
    then have "sends i (send_all tr ss ?w) = sends i w + (if i \<in> wr_id ` set (behind_refresh w) then 1 else 0)" for i
      using sends_send_all[of ss i tr ?w] dist by (simp add: sends_def flip: set_map)
    then show ?thesis using refreshed.prems sent unfolding w'
      by (auto simp: sends_inv_def behind_refresh_def denials_def mutates_def sends_def split: if_splits)
  next
    case failed
    then show ?thesis using refreshed d
      by (auto simp: sends_inv_def end_refresh_def behind_refresh_def denials_def mutates_def sends_def)
  qed
next
  case (timer w xs r ys)
  then have "wr_method (web_issued w ! wr_id r) = Get"
    by (auto simp: sends_inv_def calls_inv_def open_requests_def same_call_def)
  with timer show ?case by (auto simp: sends_inv_def behind_refresh_def denials_def mutates_def sends_def)
qed (auto simp: sends_inv_def succeed_def answer_def behind_refresh_def denials_def mutates_def sends_def)

lemma session_op_fields:
  "session_op c c' \<Longrightarrow> wc_failedQueue c' = wc_failedQueue c \<and> wc_isRefreshing c' = wc_isRefreshing c"
  by (induction rule: session_op.induct) (auto simp: session_ops split: sum.split)

lemma user_step_inv:
  fixes w :: "('b, 'd) web"
  assumes "user_step tr w w'" and "refresh_inv w" and "ids_inv w" and "calls_inv w" and "sends_inv w"
  shows "refresh_inv w' \<and> ids_inv w' \<and> calls_inv w' \<and> sends_inv w'"
  using assms
proof (induction rule: user_step.induct)
  case (issue w m u b)
  let ?n = "length (web_issued w)"
  have new: "wr_id (new_request ?n m u b) = ?n" "same_call (new_request ?n m u b) (new_request ?n m u b)"
    by (simp_all add: new_request_def same_call_def)
  have "\<forall>r \<in> set (open_requests w) \<union> set (web_wire w). wr_id r \<noteq> ?n"
    using issue(3) unfolding calls_inv_def by (metis less_irrefl)
  then have "\<forall>r \<in> set (web_wire w). wr_id r \<noteq> ?n" and behind: "\<forall>r \<in> set (behind_refresh w). wr_id r \<noteq> ?n"
    by (simp_all add: open_requests_def behind_refresh_def)
  then have none: "count_list (map wr_id (web_wire w)) ?n = 0" by (auto simp: count_list_0_iff)
  have "refresh_inv (issue tr m u b w)" using issue by (simp add: issue_def refresh_inv_def Let_def)
  moreover have "ids_inv (issue tr m u b w)"
    using issue new by (simp add: issue_def ids_inv_def open_requests_def Let_def)
  moreover have "calls_inv (issue tr m u b w)"
    using issue new by (auto simp: issue_def calls_inv_def open_requests_def Let_def nth_append same_call_def less_SucI)
  moreover have "sends_inv (issue tr m u b w)"
    using issue new none behind
    by (auto simp: issue_def sends_inv_def behind_refresh_def sends_def denials_def mutates_def Let_def nth_append
        less_Suc_eq dest: spec[of _ "_ :: nat"] split: if_splits)
  ultimately show ?case by blast
next
  case (session w c)
  then show ?case using session_op_fields[OF session(1)]
    by (auto simp: web_inv_defs open_requests_def behind_refresh_def sends_def denials_def mutates_def)
qed

lemma web_reachable_inv:
  "web_reachable tr b w \<Longrightarrow> refresh_inv w \<and> ids_inv w \<and> calls_inv w \<and> sends_inv w"
proof (induction rule: web_reachable.induct)
  case start
  then show ?case
    by (simp add: web_inv_defs web_start_def app_start_def open_requests_def behind_refresh_def mutates_def)
next
  case (step w w')
  then show ?case using refresh_step ids_step calls_step sends_step by blast
next
  case (user w w')
  then show ?case using user_step_inv by blast
qed

subsection \<open>The session\<close>

definition session_inv :: "'b web_client \<Rightarrow> bool" where
  "session_inv c \<longleftrightarrow>
     (wc_expired c \<longrightarrow> wc_token c = None \<and> ui_accessToken (wc_ui c) = None \<and> wc_default c = None) \<and>
     (isAuthenticated c \<longrightarrow> truthy (wc_token c))"

lemma session_inspect [simp]: "session_inv (inspect r t n ok c) = session_inv c"
  by (simp add: session_inv_def inspect_def isAuthenticated_def)

lemma session_announce:
  "session_inv c \<Longrightarrow> session_inv (announce_expired (on_browser clearMemoryAccessToken c))"
  by (auto simp: session_inv_def isAuthenticated_def announce_expired_def handleSessionExpired_def on_browser_def on_ui_def
      clearMemoryAccessToken_def)

lemma session_response_error:
  assumes "response_error r e c = (out, c')" and "session_inv c"
  shows "session_inv c'"
proof -
  have upd: "session_inv (c\<lparr>wc_failedQueue := q\<rparr>) = session_inv c" "session_inv (c\<lparr>wc_isRefreshing := f\<rparr>) = session_inv c"
    for q f and c :: "'a web_client" by (simp_all add: session_inv_def isAuthenticated_def)
  have "session_inv c'" if "after_retry r e d = (out, c')" "session_inv d" for r d
    using that session_announce by (auto simp: after_retry_def upd split: if_splits)
  then show ?thesis using assms by (auto simp: response_error_def Let_def split: if_splits)
qed

lemma session_refresh_done:
  assumes "refresh_done r reply c = (s, rejects, c')" and "session_inv c"
  shows "session_inv c'"
proof -
  have failed: "session_inv c'" if "refresh_failed r e c = (s, rejects, c')" for e
    using that session_announce[of "c\<lparr>wc_failedQueue := []\<rparr>"] assms(2)
    by (auto simp: refresh_failed_def Let_def session_inv_def isAuthenticated_def)
  with assms show ?thesis
    by (auto simp: refresh_done_def Let_def session_inv_def isAuthenticated_def on_browser_def setMemoryAccessToken_def
        split: sum.splits if_splits)
qed

lemma session_op_inv: "session_op c c' \<Longrightarrow> session_inv c \<Longrightarrow> session_inv c'"
  by (induction rule: session_op.induct)
    (auto simp: session_inv_def isAuthenticated_def session_ops browser_defs Let_def split: sum.split option.split)

lemma web_reachable_session: "web_reachable tr b w \<Longrightarrow> session_inv (web_client w)"
proof (induction rule: web_reachable.induct)
  case start
  then show ?case by (simp add: session_inv_def web_start_def app_start_def isAuthenticated_def)
next
  case (step w w')
  from step(2,1,3) show ?case
  proof (induction rule: web_step.induct)
    case (failure w xs r ys e)
    then show ?case using session_response_error[of r e "web_client w"]
      by (cases "response_error r e (web_client w)") (auto simp: fail_request_def answer_def Let_def split: outcome.splits)
  next
    case (refreshed w r res)
    then show ?case using session_refresh_done[of r res "web_client w"]
      by (cases "refresh_done r res (web_client w)") (auto simp: end_refresh_def)
  qed (simp_all add: succeed_def answer_def)
next
  case (user w w')
  from user(2,1,3) show ?case
    by (induction rule: user_step.induct) (auto simp: issue_def Let_def session_op_inv)
qed

subsection \<open>Properties\<close>


text \<open>C10: The web application never repeats a payment by itself. A request that is no \<open>GET\<close> goes out again
  only after the server refused it with 401, whatever errors and timeouts the network makes up; and
  each time it is the same call with the same body, hence the same idempotency key.\<close>

theorem mutation_sent_again_only_after_401:
  assumes "web_reachable tr b w" and "i < length (web_issued w)" and "wr_method (web_issued w ! i) \<noteq> Get"
  shows "sends i w \<le> denials i w + 1 \<and> (\<forall>r. r \<in> set (web_wire w) \<longrightarrow> wr_id r = i \<longrightarrow> same_call r (web_issued w ! i))"
  using web_reachable_inv[OF assms(1)] assms(2,3) by (auto simp: sends_inv_def calls_inv_def mutates_def)


subsection \<open>A run\<close>

text \<open>A payment is posted with a stale token, refused, and posted again with the token of the refresh.\<close>

definition sample_browser :: browser where
  "sample_browser = \<lparr>br_token = None, br_user = Missing, br_readIds = Missing, br_readAll = None, br_full = False\<rparr>"

definition denied401 :: web_error where
  "denied401 = \<lparr>we_status = Some 401, we_code = None, we_message = None, we_trace = None\<rparr>"

definition fresh_reply :: token_reply where
  "fresh_reply = \<lparr>ar_tokensAccess = None, ar_accessToken = Some ''tok'', ar_token = None, ar_user = None, ar_role = None\<rparr>"

definition pay1 :: "(nat, nat) web" where
  "pay1 = issue (\<lambda>_. ''trace'') Post ''/payments/transfer'' 42 (web_start sample_browser)"

definition pay2 :: "(nat, nat) web" where
  "pay2 = fail_request (hd (web_inflight pay1)) denied401 (pay1\<lparr>web_inflight := []\<rparr>)"

definition pay3 :: "(nat, nat) web" where
  "pay3 = end_refresh (\<lambda>_. ''trace'') (the (web_owner pay2)) (Inr fresh_reply) pay2"

definition pay4 :: "(nat, nat) web" where
  "pay4 = succeed (hd (web_inflight pay3)) None 201 7 (pay3\<lparr>web_inflight := []\<rparr>)"

lemma pay_values:
  "web_inflight pay1 = [hd (web_inflight pay1)]" "web_owner pay2 = Some (the (web_owner pay2))" "web_inflight pay3 = [hd (web_inflight pay3)]"
  "web_issued pay3 = [new_request 0 Post ''/payments/transfer'' 42]" "map wr_id (web_wire pay3) = [0, 0]" "web_denied pay3 = [0]"
  "web_answers pay4 = [(0, Inr 7)]" "web_issued pay4 = [new_request 0 Post ''/payments/transfer'' 42]"
  "web_inflight pay4 = []" "web_waiting pay4 = []" "web_owner pay4 = None" "wc_token (web_client pay3) = Some ''tok''"
  by code_simp+

lemma pay_reachable: "web_reachable (\<lambda>_. ''trace'') sample_browser pay3" "web_reachable (\<lambda>_. ''trace'') sample_browser pay4"
proof -
  have 1: "web_reachable (\<lambda>_. ''trace'') sample_browser pay1"
    unfolding pay1_def by (rule web_reachable.user[OF web_reachable.start user_step.issue])
  have 2: "web_reachable (\<lambda>_. ''trace'') sample_browser pay2"
    using web_step.failure[of pay1 "[]" "hd (web_inflight pay1)" "[]"] pay_values(1)
    by (auto simp: pay2_def intro: web_reachable.step[OF 1])
  show 3: "web_reachable (\<lambda>_. ''trace'') sample_browser pay3"
    unfolding pay3_def by (rule web_reachable.step[OF 2]) (rule web_step.refreshed[OF pay_values(2)])
  show "web_reachable (\<lambda>_. ''trace'') sample_browser pay4"
    using web_step.reply[of pay3 "[]" "hd (web_inflight pay3)" "[]"] pay_values(3)
    by (auto simp: pay4_def intro: web_reachable.step[OF 3])
qed


theorem mutation_sent_again_only_after_401_witness: "sends 0 pay3 \<le> denials 0 pay3 + 1 \<and> sends 0 pay3 = 2"
  using mutation_sent_again_only_after_401[OF pay_reachable(1), of 0] pay_values(4,5)
  by (simp add: sends_def new_request_def)


end
