(* ===== verification/EventStream.thy ===== *)
theory EventStream
  imports GatewayEvents
begin

text \<open>
  The browser's side of the live events: \<open>EventStreamClient\<close> of \<open>frontend/src/api/eventsApi.js\<close>
  with its reconnection by exponential backoff, heartbeat watchdog and resume identifier. Time is
  a natural number of milliseconds; the jitter of a delay is an input. An \<open>EventSource\<close> of the browser
  delivers frames with data and drops comments such as the gateway's keep-alive.
\<close>

datatype stream_status = ST_CONNECTED | ST_RECONNECTING | ST_OFFLINE

text \<open>What a message of the source carries: nothing or a comment, no JSON, or a parsed event.\<close>

datatype stream_data = NoData | NotJson | Parsed sse_event

record stream_client =
  es_source :: "bool option" \<comment> \<open>the \<open>EventSource\<close> there is, and whether it has opened\<close>
  es_url :: "string option" \<comment> \<open>the resume identifier in its address\<close>
  es_status :: stream_status
  es_lastEventId :: "string option"
  es_heartbeat :: nat
  es_watchdog :: bool
  es_attempts :: nat
  es_timer :: "rat option" \<comment> \<open>the delay of the reconnect timer that is set\<close>
  es_closed :: bool \<comment> \<open>\<open>isManuallyClosed\<close>\<close>
  es_events :: "sse_event list" \<comment> \<open>given to \<open>onEvent\<close>\<close>
  es_changes :: "stream_status list" \<comment> \<open>given to \<open>onStatusChange\<close>\<close>
  es_errors :: nat

definition heartbeatTimeoutMs :: nat where "heartbeatTimeoutMs = 45000"
definition maxReconnectAttempts :: nat where "maxReconnectAttempts = 20"
definition baseDelayMs :: rat where "baseDelayMs = 1000"
definition maxDelayMs :: rat where "maxDelayMs = 30000"

definition new_stream :: "nat \<Rightarrow> stream_client" where
  "new_stream now = \<lparr>es_source = None, es_url = None, es_status = ST_OFFLINE, es_lastEventId = None,
     es_heartbeat = now, es_watchdog = False, es_attempts = 0, es_timer = None, es_closed = False,
     es_events = [], es_changes = [], es_errors = 0\<rparr>"

definition setStatus :: "stream_status \<Rightarrow> stream_client \<Rightarrow> stream_client" where
  "setStatus s c = (if es_status c \<noteq> s then c\<lparr>es_status := s, es_changes := es_changes c @ [s]\<rparr> else c)"

definition recordHeartbeat :: "nat \<Rightarrow> stream_client \<Rightarrow> stream_client" where
  "recordHeartbeat now c = c\<lparr>es_heartbeat := now\<rparr>"

definition startHeartbeatWatchdog :: "nat \<Rightarrow> stream_client \<Rightarrow> stream_client" where
  "startHeartbeatWatchdog now c = (recordHeartbeat now (c\<lparr>es_watchdog := False\<rparr>))\<lparr>es_watchdog := True\<rparr>"

definition cleanupEventSource :: "stream_client \<Rightarrow> stream_client" where
  "cleanupEventSource c = c\<lparr>es_watchdog := False, es_source := None\<rparr>"

definition give_event :: "sse_event \<Rightarrow> stream_client \<Rightarrow> stream_client" where
  "give_event e c = c\<lparr>es_events := es_events c @ [e]\<rparr>"

text \<open>\<open>jitter\<close> is \<open>Math.random() * 500\<close>.\<close>

definition reconnect_after :: "rat \<Rightarrow> nat \<Rightarrow> rat" where
  "reconnect_after jitter attempts = min (baseDelayMs * (3 / 2) ^ (attempts - 1) + jitter) maxDelayMs"

text \<open>
  \<open>scheduleReconnect()\<close> for the calls that are not immediate. \<open>connect\<close> calls it when the constructor of
  \<open>EventSource\<close> throws (\<open>broken\<close>); the immediate variant, which calls \<open>connect\<close>, is below.
\<close>

definition begin_reconnect :: "stream_client \<Rightarrow> stream_client" where
  "begin_reconnect c = (let c = setStatus ST_RECONNECTING c in c\<lparr>es_attempts := es_attempts c + 1\<rparr>)"

definition scheduleReconnect_later :: "rat \<Rightarrow> stream_client \<Rightarrow> stream_client" where
  "scheduleReconnect_later jitter c =
     (if es_closed c then c
      else let c = begin_reconnect c
           in if maxReconnectAttempts < es_attempts c then setStatus ST_OFFLINE c
              else c\<lparr>es_timer := Some (reconnect_after jitter (es_attempts c))\<rparr>)"

definition connect :: "nat \<Rightarrow> bool \<Rightarrow> rat \<Rightarrow> stream_client \<Rightarrow> stream_client" where
  "connect now broken jitter c =
     (let c = cleanupEventSource (c\<lparr>es_closed := False\<rparr>);
          c = c\<lparr>es_timer := None\<rparr>;
          c = setStatus (if 0 < es_attempts c then ST_RECONNECTING else ST_OFFLINE) c
      in if broken then
           let c = cleanupEventSource c
           in scheduleReconnect_later jitter (c\<lparr>es_errors := es_errors c + 1\<rparr>)
         else startHeartbeatWatchdog now (c\<lparr>es_source := Some False, es_url := es_lastEventId c\<rparr>))"

definition scheduleReconnect :: "bool \<Rightarrow> nat \<Rightarrow> bool \<Rightarrow> rat \<Rightarrow> stream_client \<Rightarrow> stream_client" where
  "scheduleReconnect immediate now broken jitter c =
     (if \<not> immediate then scheduleReconnect_later jitter c
      else if es_closed c then c
      else let c = begin_reconnect c
           in if maxReconnectAttempts < es_attempts c then setStatus ST_OFFLINE c
              else connect now broken jitter c)"

definition restored_event :: sse_event where
  "restored_event = no_event\<lparr>le_type := Some ''connection.restored''\<rparr>"

definition on_open :: "nat \<Rightarrow> stream_client \<Rightarrow> stream_client" where
  "on_open now c =
     (let wasReconnecting = (0 < es_attempts c);
          c = setStatus ST_CONNECTED (recordHeartbeat now (c\<lparr>es_source := Some True, es_attempts := 0\<rparr>))
      in if wasReconnecting then give_event restored_event c else c)"

text \<open>\<open>eid\<close> is the identifier the source reports with the message.\<close>

definition on_message :: "nat \<Rightarrow> string option \<Rightarrow> stream_data \<Rightarrow> stream_client \<Rightarrow> stream_client" where
  "on_message now eid d c =
     (let c = recordHeartbeat now c;
          c = (if truthy eid then c\<lparr>es_lastEventId := eid\<rparr> else c)
      in case d of
           Parsed e \<Rightarrow> give_event e (if truthy (own_id e) then c\<lparr>es_lastEventId := own_id e\<rparr> else c)
         | _ \<Rightarrow> c)"

definition on_stream_error :: "rat \<Rightarrow> stream_client \<Rightarrow> stream_client" where
  "on_stream_error jitter c =
     (if es_closed c then c
      else let c = cleanupEventSource c
           in scheduleReconnect_later jitter (c\<lparr>es_errors := es_errors c + 1\<rparr>))"

definition watchdog_tick :: "nat \<Rightarrow> bool \<Rightarrow> rat \<Rightarrow> stream_client \<Rightarrow> stream_client" where
  "watchdog_tick now broken jitter c =
     (if es_closed c \<or> es_status c \<noteq> ST_CONNECTED then c
      else if heartbeatTimeoutMs < now - es_heartbeat c
      then scheduleReconnect True now broken jitter (cleanupEventSource (setStatus ST_OFFLINE c))
      else c)"

definition timer_fires :: "nat \<Rightarrow> bool \<Rightarrow> rat \<Rightarrow> stream_client \<Rightarrow> stream_client" where
  "timer_fires now broken jitter c = connect now broken jitter c"

definition clearReplayCache :: "stream_client \<Rightarrow> stream_client" where
  "clearReplayCache c = c\<lparr>es_lastEventId := None\<rparr>"

definition close :: "stream_client \<Rightarrow> stream_client" where
  "close c = setStatus ST_OFFLINE (cleanupEventSource
     (c\<lparr>es_closed := True, es_lastEventId := None, es_attempts := 0, es_timer := None\<rparr>))"

definition reconnect :: "nat \<Rightarrow> bool \<Rightarrow> rat \<Rightarrow> stream_client \<Rightarrow> stream_client" where
  "reconnect now broken jitter c = connect now broken jitter (c\<lparr>es_attempts := 0\<rparr>)"

subsection \<open>The life of a client\<close>

text \<open>
  The handlers run only for the source there is: \<open>cleanupEventSource\<close> takes them off. A watchdog tick
  needs a watchdog, a timer event a timer.
\<close>

definition jitter_ok :: "rat \<Rightarrow> bool" where
  "jitter_ok j \<longleftrightarrow> 0 \<le> j \<and> j < 500"

inductive stream_step :: "stream_client \<Rightarrow> stream_client \<Rightarrow> bool" where
  connect: "jitter_ok j \<Longrightarrow> stream_step c (connect now broken j c)"
| opened: "es_source c = Some False \<Longrightarrow> stream_step c (on_open now c)"
| message: "es_source c = Some True \<Longrightarrow> stream_step c (on_message now eid d c)"
| error: "es_source c = Some b \<Longrightarrow> jitter_ok j \<Longrightarrow> stream_step c (on_stream_error j c)"
| watchdog: "es_watchdog c \<Longrightarrow> jitter_ok j \<Longrightarrow> stream_step c (watchdog_tick now broken j c)"
| timer: "es_timer c = Some d \<Longrightarrow> jitter_ok j \<Longrightarrow> stream_step c (timer_fires now broken j c)"
| clear: "stream_step c (clearReplayCache c)"
| close: "stream_step c (close c)"
| reconnect: "jitter_ok j \<Longrightarrow> stream_step c (reconnect now broken j c)"

text \<open>The provider makes a client and connects it at once.\<close>

inductive stream_reachable :: "stream_client \<Rightarrow> bool" where
  new: "jitter_ok j \<Longrightarrow> stream_reachable (connect now broken j (new_stream now))"
| step: "stream_reachable c \<Longrightarrow> stream_step c c' \<Longrightarrow> stream_reachable c'"

text \<open>At most one of source and timer; the watchdog lives and dies with the source; connected means open.\<close>

definition stream_inv :: "stream_client \<Rightarrow> bool" where
  "stream_inv c \<longleftrightarrow> (es_source c = None \<or> es_timer c = None) \<and> (es_watchdog c \<longleftrightarrow> es_source c \<noteq> None) \<and>
     (es_status c = ST_CONNECTED \<longleftrightarrow> es_source c = Some True) \<and>
     (es_closed c \<longrightarrow> es_source c = None \<and> es_timer c = None) \<and>
     (\<forall>d. es_timer c = Some d \<longrightarrow> es_attempts c \<le> maxReconnectAttempts \<and> baseDelayMs \<le> d \<and> d \<le> maxDelayMs)"

lemmas stream_ops = setStatus_def recordHeartbeat_def startHeartbeatWatchdog_def cleanupEventSource_def give_event_def
  begin_reconnect_def scheduleReconnect_later_def connect_def scheduleReconnect_def on_open_def on_message_def
  on_stream_error_def watchdog_tick_def timer_fires_def clearReplayCache_def close_def reconnect_def

lemma setStatus_fields [simp]:
  "es_source (setStatus s c) = es_source c" "es_timer (setStatus s c) = es_timer c" "es_watchdog (setStatus s c) = es_watchdog c"
  "es_status (setStatus s c) = s" "es_closed (setStatus s c) = es_closed c" "es_attempts (setStatus s c) = es_attempts c"
  "es_lastEventId (setStatus s c) = es_lastEventId c" "es_events (setStatus s c) = es_events c" "es_url (setStatus s c) = es_url c"
  by (simp_all add: setStatus_def)

text \<open>A client that has been started and not closed is never stuck.\<close>

definition stream_alive :: "stream_client \<Rightarrow> bool" where
  "stream_alive c \<longleftrightarrow> es_closed c \<or> es_source c \<noteq> None \<or> es_timer c \<noteq> None \<or>
     (es_status c = ST_OFFLINE \<and> maxReconnectAttempts < es_attempts c)"

definition parked :: "stream_client \<Rightarrow> bool" where
  "parked c \<longleftrightarrow> es_source c = None \<and> es_timer c = None \<and> \<not> es_watchdog c"

lemma reconnect_after_bounds:
  assumes "jitter_ok j"
  shows "baseDelayMs \<le> reconnect_after j n \<and> reconnect_after j n \<le> maxDelayMs"
proof -
  have "1 \<le> (3 / 2 :: rat) ^ (n - 1)" by (rule one_le_power) simp
  then have "1000 \<le> 1000 * (3 / 2) ^ (n - 1) + j" using assms unfolding jitter_ok_def by linarith
  then show ?thesis by (simp add: reconnect_after_def baseDelayMs_def maxDelayMs_def)
qed

lemma later_ok: "parked c \<Longrightarrow> \<not> es_closed c \<Longrightarrow> jitter_ok j \<Longrightarrow>
    stream_inv (scheduleReconnect_later j c) \<and> stream_alive (scheduleReconnect_later j c)"
  by (simp add: scheduleReconnect_later_def begin_reconnect_def Let_def stream_inv_def stream_alive_def parked_def reconnect_after_bounds)

lemma connect_ok:
  assumes "jitter_ok j"
  shows "stream_inv (connect now broken j c) \<and> stream_alive (connect now broken j c)"
proof (cases broken)
  case True
  then show ?thesis using later_ok assms by (simp add: connect_def Let_def cleanupEventSource_def parked_def)
next
  case False
  then show ?thesis
    by (simp add: connect_def Let_def cleanupEventSource_def startHeartbeatWatchdog_def recordHeartbeat_def stream_inv_def stream_alive_def)
qed

lemma error_ok: "stream_inv c \<Longrightarrow> es_source c = Some b \<Longrightarrow> jitter_ok j \<Longrightarrow>
    stream_inv (on_stream_error j c) \<and> stream_alive (on_stream_error j c)"
  using later_ok by (auto simp: on_stream_error_def Let_def cleanupEventSource_def parked_def stream_inv_def[of c])

lemma watchdog_ok:
  assumes "stream_inv c" and "stream_alive c" and "jitter_ok j"
  shows "stream_inv (watchdog_tick now broken j c) \<and> stream_alive (watchdog_tick now broken j c)"
proof (cases "es_closed c \<or> es_status c \<noteq> ST_CONNECTED \<or> now - es_heartbeat c \<le> heartbeatTimeoutMs")
  case True
  then have "watchdog_tick now broken j c = c" by (auto simp: watchdog_tick_def)
  with assms show ?thesis by simp
next
  case False
  let ?d = "begin_reconnect (cleanupEventSource (setStatus ST_OFFLINE c))"
  have d: "parked ?d"
    using assms(1) False by (simp add: parked_def begin_reconnect_def cleanupEventSource_def Let_def stream_inv_def)
  have tick: "watchdog_tick now broken j c =
      (if maxReconnectAttempts < es_attempts ?d then setStatus ST_OFFLINE ?d else connect now broken j ?d)"
    using False by (simp add: watchdog_tick_def scheduleReconnect_def cleanupEventSource_def Let_def)
  show ?thesis
  proof (cases "maxReconnectAttempts < es_attempts ?d")
    case True
    have "stream_inv (setStatus ST_OFFLINE ?d)" "stream_alive (setStatus ST_OFFLINE ?d)"
      unfolding stream_inv_def stream_alive_def using True d[unfolded parked_def] by simp_all
    with True show ?thesis by (simp only: tick if_True simp_thms)
  next
    case False
    then show ?thesis using connect_ok[OF assms(3)] by (simp only: tick if_False simp_thms)
  qed
qed

lemma message_ok: "stream_inv c \<Longrightarrow> es_source c = Some True \<Longrightarrow>
    stream_inv (on_message now eid d c) \<and> stream_alive (on_message now eid d c)"
  by (cases d) (auto simp: on_message_def Let_def recordHeartbeat_def give_event_def stream_inv_def stream_alive_def)

lemma open_ok: "stream_inv c \<Longrightarrow> es_source c = Some b \<Longrightarrow> stream_inv (on_open now c) \<and> stream_alive (on_open now c)"
  by (auto simp: on_open_def Let_def recordHeartbeat_def give_event_def stream_inv_def stream_alive_def)

lemma close_ok: "stream_inv (close c) \<and> stream_alive (close c)"
  by (simp add: close_def cleanupEventSource_def stream_inv_def stream_alive_def)

lemma clear_ok: "stream_inv (clearReplayCache c) = stream_inv c" "stream_alive (clearReplayCache c) = stream_alive c"
  by (simp_all add: clearReplayCache_def stream_inv_def stream_alive_def)

lemma stream_step_ok: "stream_step c c' \<Longrightarrow> stream_inv c \<and> stream_alive c \<Longrightarrow> stream_inv c' \<and> stream_alive c'"
  unfolding timer_fires_def reconnect_def
  by (induction rule: stream_step.induct)
    (use connect_ok error_ok message_ok open_ok close_ok watchdog_ok clear_ok in
      \<open>auto simp only: timer_fires_def reconnect_def\<close>)

lemma stream_reachable_ok: "stream_reachable c \<Longrightarrow> stream_inv c \<and> stream_alive c"
  by (induction rule: stream_reachable.induct) (simp_all only: connect_ok stream_step_ok)

text \<open>C27: The live connection of the browser never gets stuck. In every state a client can reach that its owner has
  not closed there is a source, a reconnect timer that ends within 1 to 30 seconds, or the client
  has given up after 20 failed attempts and says so; it reports itself connected exactly while its
  source is open, and source and timer never exist together.\<close>

theorem stream_never_stuck:
  assumes "stream_reachable c"
  shows "(es_closed c \<or> es_source c \<noteq> None \<or> (\<exists>d. es_timer c = Some d \<and> 1000 \<le> d \<and> d \<le> 30000) \<or>
      (es_status c = ST_OFFLINE \<and> 20 < es_attempts c)) \<and>
    (es_status c = ST_CONNECTED \<longleftrightarrow> es_source c = Some True) \<and>
    (es_source c = None \<or> es_timer c = None)"
proof -
  have "stream_inv c" "stream_alive c" using stream_reachable_ok[OF assms] by simp_all
  then show ?thesis
    by (cases "es_timer c") (auto simp: stream_inv_def stream_alive_def maxReconnectAttempts_def baseDelayMs_def maxDelayMs_def)
qed

theorem stream_never_stuck_witness:
  "es_timer (on_stream_error 200 (on_open 5 (connect 0 False 0 (new_stream 0)))) = Some 1200 \<and>
   es_source (on_stream_error 200 (on_open 5 (connect 0 False 0 (new_stream 0)))) = None"
proof -
  have "stream_reachable (connect 0 False 0 (new_stream 0))" by (rule stream_reachable.new) (simp add: jitter_ok_def)
  then have "stream_reachable (on_open 5 (connect 0 False 0 (new_stream 0)))"
    by (rule stream_reachable.step)
      (rule stream_step.opened, simp add: stream_ops new_stream_def Let_def)
  then have "stream_reachable (on_stream_error 200 (on_open 5 (connect 0 False 0 (new_stream 0))))"
    by (rule stream_reachable.step)
      (rule stream_step.error[of _ True], simp_all add: stream_ops new_stream_def Let_def jitter_ok_def)
  from stream_never_stuck[OF this] show ?thesis
    by (simp add: stream_ops new_stream_def Let_def reconnect_after_def baseDelayMs_def maxDelayMs_def maxReconnectAttempts_def)
qed

text \<open>After 20 failures in a row the next one is the last; before, each sets the timer again.\<close>

lemma gives_up: "\<not> es_closed c \<Longrightarrow> es_timer c = None \<Longrightarrow>
    es_timer (on_stream_error j c) = (if es_attempts c < 20 then Some (reconnect_after j (es_attempts c + 1)) else None)"
  by (simp add: on_stream_error_def scheduleReconnect_later_def begin_reconnect_def cleanupEventSource_def Let_def
      maxReconnectAttempts_def)

subsection \<open>Browser and gateway together\<close>

definition connected_event :: sse_event where
  "connected_event = no_event\<lparr>le_type := Some ''connected''\<rparr>"

text \<open>A frame as the \<open>EventSource\<close> delivers it.\<close>

definition deliver :: "nat \<Rightarrow> frame \<Rightarrow> stream_client \<Rightarrow> stream_client" where
  "deliver now f c =
     (case f of KeepAlive \<Rightarrow> c
      | Connected \<Rightarrow> on_message now None (Parsed connected_event) c
      | Event i e \<Rightarrow> on_message now (Some i) (Parsed e) c)"

lemma deliver_event:
  assumes "truthy (own_id e)"
  shows "deliver now (Event (the (own_id e)) (enriched e)) c =
    c\<lparr>es_heartbeat := now, es_lastEventId := own_id e, es_events := es_events c @ [enriched e]\<rparr>"
proof -
  have "own_id (enriched e) = own_id e"
    using assms by (simp add: own_id_def[of "enriched e"] js_or_def) (simp add: enriched_def)
  then show ?thesis using assms
    by (cases "own_id e") (simp_all add: deliver_def on_message_def Let_def recordHeartbeat_def give_event_def)
qed

lemma deliver_events:
  assumes "\<forall>e \<in> set es. truthy (own_id e)"
  shows "es_events (fold (deliver now) (map (\<lambda>e. Event (the (own_id e)) (enriched e)) es) c) = es_events c @ map enriched es \<and>
    es_lastEventId (fold (deliver now) (map (\<lambda>e. Event (the (own_id e)) (enriched e)) es) c) =
      (if es = [] then es_lastEventId c else own_id (last es))"
  using assms by (induction es arbitrary: c) (auto simp: deliver_event)

text \<open>The client after its connection broke and its timer made a new one, which opened.\<close>

definition comes_back :: "nat \<Rightarrow> rat \<Rightarrow> stream_client \<Rightarrow> stream_client" where
  "comes_back now j c = on_open now (timer_fires now False j (on_stream_error j c))"

lemma comes_back_fields:
  assumes "\<not> es_closed c" and "es_attempts c < 20"
  shows "es_url (comes_back now j c) = es_lastEventId c" "es_lastEventId (comes_back now j c) = es_lastEventId c"
    "es_events (comes_back now j c) = es_events c @ [restored_event]" "es_source (comes_back now j c) = Some True"
  using assms by (simp_all add: comes_back_def on_stream_error_def scheduleReconnect_later_def begin_reconnect_def timer_fires_def
      connect_def cleanupEventSource_def startHeartbeatWatchdog_def on_open_def recordHeartbeat_def give_event_def
      maxReconnectAttempts_def Let_def)

text \<open>C20: No event is lost or doubled over a reconnection. A browser whose last event was \<open>x\<close> loses its connection;
  the gateway broadcasts fewer than 100 further events; the browser's timer connects again. What the
  application is then given is exactly the notice that the connection is restored, the greeting and
  those events in their order, and the next resume starts at the last of them.\<close>

theorem reconnection_loses_nothing:
  fixes now t res :: nat and j :: rat
  assumes "hub_ok hub" and "truthy (own_id x)" and "own_id x \<notin> Some ` fst ` set (sh_buffer hub)"
    and "\<And>e. e \<in> set es \<Longrightarrow> truthy (own_id e) \<and> own_id e \<noteq> own_id x" and "length es < 100"
    and "es_lastEventId c = own_id x" and "\<not> es_closed c" and "es_attempts c < 20"
  defines "b \<equiv> comes_back now j c"
    and "hub' \<equiv> broadcast_all t es (broadcastSSEEvent t (Some x) hub)"
  defines "b' \<equiv> fold (deliver now) (sc_frames (last (sh_clients (stream_open res None (es_url b) hub')))) b"
  shows "es_events b' = es_events c @ [restored_event, connected_event] @ map enriched es \<and>
    es_lastEventId b' = (if es = [] then own_id x else own_id (last es))"
proof -
  have es: "\<forall>e \<in> set es. truthy (own_id e) \<and> own_id e \<noteq> own_id x" using assms(4) by blast
  have "es_url b = own_id x" using comes_back_fields(1)[OF assms(7,8)] assms(6) by (simp add: b_def)
  then have "stream_open res None (es_url b) hub' = stream_open res (own_id x) None hub'"
    using assms(2) by (simp add: stream_open_def js_or_def)
  then have frames: "sc_frames (last (sh_clients (stream_open res None (es_url b) hub'))) =
      Connected # map (\<lambda>e. Event (the (own_id e)) (enriched e)) es"
    using resume_frames[OF assms(1,2) es assms(3)] assms(5) by (simp add: hub'_def)
  have greeted: "es_events (deliver now Connected b) = es_events c @ [restored_event, connected_event]"
    "es_lastEventId (deliver now Connected b) = own_id x"
    using comes_back_fields[OF assms(7,8)] assms(6)
    by (simp_all add: b_def deliver_def on_message_def recordHeartbeat_def give_event_def connected_event_def own_id_def
        no_event_def js_or_def)
  have "b' = fold (deliver now) (map (\<lambda>e. Event (the (own_id e)) (enriched e)) es) (deliver now Connected b)"
    unfolding b'_def frames by simp
  with deliver_events[of es now "deliver now Connected b"] es greeted show ?thesis by simp
qed

theorem reconnection_loses_nothing_witness:
  "es_events (fold (deliver 9) (sc_frames (last (sh_clients (stream_open 1 None (Some ''e1'')
       (broadcast_all 0 [event_named ''e2''] (broadcastSSEEvent 0 (Some (event_named ''e1'')) hub_start))))))
     (comes_back 9 0 ((new_stream 0)\<lparr>es_lastEventId := Some ''e1''\<rparr>))) =
   [restored_event, connected_event, enriched (event_named ''e2'')]"
  using reconnection_loses_nothing[where hub = hub_start and x = "event_named ''e1''" and es = "[event_named ''e2'']" and
      c = "(new_stream 0)\<lparr>es_lastEventId := Some ''e1''\<rparr>" and now = 9 and j = 0 and t = 0 and res = 1]
    comes_back_fields(1)[of "(new_stream 0)\<lparr>es_lastEventId := Some ''e1''\<rparr>" 9 0]
  by (simp add: event_named_def own_id_def no_event_def js_or_def hub_ok_def hub_start_def new_stream_def)

text \<open>
  A stream without events is torn down although the gateway keeps it alive: comments do not reach
  the heartbeat.
\<close>

lemma keep_alive_unseen: "deliver now KeepAlive c = c"
  by (simp add: deliver_def)

lemma quiet_stream_reconnects:
  assumes "es_status c = ST_CONNECTED" and "\<not> es_closed c" and "es_attempts c = 0" and "45000 < now - es_heartbeat c"
  shows "es_source (watchdog_tick now False j c) = Some False" "es_attempts (watchdog_tick now False j c) = 1"
  using assms by (simp_all add: watchdog_tick_def heartbeatTimeoutMs_def scheduleReconnect_def begin_reconnect_def connect_def
      cleanupEventSource_def startHeartbeatWatchdog_def recordHeartbeat_def maxReconnectAttempts_def Let_def)

text \<open>Hiding the tab closes the client, and closing forgets where to resume.\<close>

lemma close_forgets: "es_url (connect now False j (close c)) = None"
  by (simp add: connect_def close_def cleanupEventSource_def startHeartbeatWatchdog_def recordHeartbeat_def Let_def)

end
