(* ===== verification/Realtime.thy ===== *)
theory Realtime
  imports EventStream BrowserStorage Paging
begin

text \<open>
  What the web application does with live events (\<open>frontend/src/context/RealtimeContext.jsx\<close>) and
  with its notifications (\<open>hooks/useNotifications.js\<close>): the deduplication of events, the updates of
  the query caches, the batched balance toasts, the marking as read. A query cache is a list of
  entries, one for each query whose key starts with the name; an entry without data is
  \<^const>\<open>None\<close>. Toasts are values; times are left out.
\<close>

subsection \<open>Events and caches\<close>

record notif_fields =
  nf_id :: "string option"
  nf_type :: "string option"
  nf_notificationType :: "string option"
  nf_title :: "string option"
  nf_subject :: "string option"
  nf_message :: "string option"
  nf_body :: "string option"
  nf_channel :: "string option"

record 'e live_msg =
  lm_eventId :: "string option"
  lm_referenceId :: "string option"
  lm_id :: "string option"
  lm_type :: "string option"
  lm_timestamp :: "string option"
  lm_payload :: "notif_fields option"
  lm_fields :: notif_fields \<comment> \<open>the same fields of the event itself\<close>
  lm_amount :: "rat option"
  lm_currency :: "string option"
  lm_reason :: "string option"
  lm_message :: "string option"
  lm_accountNumber :: "string option"
  lm_balance :: "rat option"
  lm_entry :: "'e option"
  lm_service :: "string option"
  lm_state :: "string option"

record notif_item =
  ni_id :: string
  ni_type :: string
  ni_title :: string
  ni_message :: string
  ni_read :: bool
  ni_status :: string
  ni_channel :: string

record notif_cache =
  nc_items :: "notif_item list"
  nc_totalCount :: nat
  nc_unreadCount :: nat

record history_cache =
  hc_items :: "notif_item list"
  hc_totalCount :: nat

record web_account =
  wa_accountNumber :: string
  wa_balance :: rat

record balance_cache =
  bc_accountNumber :: string
  bc_balance :: rat
  bc_currency :: string
  bc_status :: string

datatype toast =
    Toast_notification string string
  | Toast_completed "(rat \<times> string) option" "string option"
  | Toast_failed string
  | Toast_balance string rat string
  | Toast_balances nat
  | Toast_circuit string string
  | Toast_restored
  | Toast_lost
  | Toast_marked
  | Toast_all_marked

record 'e realtime =
  rt_processed :: "string list" \<comment> \<open>a JavaScript set in insertion order\<close>
  rt_lastEvent :: "'e live_msg option"
  rt_status :: stream_status
  rt_prevStatus :: stream_status
  rt_notifications :: "notif_cache option list"
  rt_history :: "history_cache option list"
  rt_accounts :: "web_account list option list"
  rt_balances :: "(string \<times> balance_cache option) list"
  rt_ledger :: "(string \<times> 'e list option) list"
  rt_batch :: "(string \<times> rat \<times> string) list" \<comment> \<open>a JavaScript map in insertion order\<close>
  rt_batchTimer :: bool
  rt_toasts :: "toast list"
  rt_stale :: "string list" \<comment> \<open>the keys invalidated so far\<close>

definition rt_start :: "'e realtime" where
  "rt_start = \<lparr>rt_processed = [], rt_lastEvent = None, rt_status = ST_OFFLINE, rt_prevStatus = ST_OFFLINE,
     rt_notifications = [], rt_history = [], rt_accounts = [], rt_balances = [], rt_ledger = [], rt_batch = [],
     rt_batchTimer = False, rt_toasts = [], rt_stale = []\<rparr>"

definition toasted :: "toast \<Rightarrow> 'e realtime \<Rightarrow> 'e realtime" where
  "toasted t s = s\<lparr>rt_toasts := rt_toasts s @ [t]\<rparr>"

definition invalidate :: "string list \<Rightarrow> 'e realtime \<Rightarrow> 'e realtime" where
  "invalidate ks s = s\<lparr>rt_stale := rt_stale s @ ks\<rparr>"

subsection \<open>Deduplication\<close>

definition EVENT_LIMIT :: nat where "EVENT_LIMIT = 500"

definition event_key :: "'e live_msg \<Rightarrow> string option" where
  "event_key e = js_or (js_or (lm_eventId e) (lm_referenceId e))
     (js_or (lm_id e) (if truthy (lm_type e) \<and> truthy (lm_timestamp e)
                        then Some (the (lm_type e) @ ''-'' @ the (lm_timestamp e)) else None))"

definition isDuplicateEvent :: "'e live_msg \<Rightarrow> 'e realtime \<Rightarrow> bool \<times> 'e realtime" where
  "isDuplicateEvent e s =
     (let key = event_key e
      in if \<not> truthy key then (False, s)
         else if the key \<in> set (rt_processed s) then (True, s)
         else (False, s\<lparr>rt_processed := push_bounded EVENT_LIMIT (the key) (rt_processed s)\<rparr>))"

subsection \<open>Balance toasts\<close>

fun map_put :: "string \<Rightarrow> 'a \<Rightarrow> (string \<times> 'a) list \<Rightarrow> (string \<times> 'a) list" where
  "map_put k v [] = [(k, v)]"
| "map_put k v ((k', v') # m) = (if k' = k then (k, v) # m else (k', v') # map_put k v m)"

definition flushBalanceUpdates :: "'e realtime \<Rightarrow> 'e realtime" where
  "flushBalanceUpdates s =
     (case rt_batch s of
        [] \<Rightarrow> s
      | [(acc, bal, cur)] \<Rightarrow> toasted (Toast_balance acc bal cur) (s\<lparr>rt_batch := []\<rparr>)
      | ups \<Rightarrow> toasted (Toast_balances (length ups)) (s\<lparr>rt_batch := []\<rparr>))"

definition batch_timer_fires :: "'e realtime \<Rightarrow> 'e realtime" where
  "batch_timer_fires s = flushBalanceUpdates (s\<lparr>rt_batchTimer := False\<rparr>)"

subsection \<open>The dispatcher\<close>

text \<open>\<open>gen\<close> is the identifier made up from the clock.\<close>

definition newNotif :: "string \<Rightarrow> 'e live_msg \<Rightarrow> notif_item" where
  "newNotif gen e =
     (let p = (case lm_payload e of Some p \<Rightarrow> p | None \<Rightarrow> lm_fields e)
      in \<lparr>ni_id = or_else (nf_id p) gen,
          ni_type = to_upper (or_else (js_or (nf_type p) (nf_notificationType p)) ''TRANSACTION''),
          ni_title = or_else (js_or (nf_title p) (nf_subject p)) ''New Notification'',
          ni_message = or_else (js_or (nf_message p) (nf_body p)) ''You have received a new banking alert.'',
          ni_read = False, ni_status = ''UNREAD'',
          ni_channel = to_upper (or_else (js_or (nf_channel p) (nf_notificationType p)) ''EMAIL'')\<rparr>)"

definition num_or :: "nat \<Rightarrow> nat \<Rightarrow> nat" where
  "num_or a b = (if a = 0 then b else a)"

definition add_notification :: "notif_item \<Rightarrow> notif_cache option \<Rightarrow> notif_cache option" where
  "add_notification n old =
     (case old of
        None \<Rightarrow> Some \<lparr>nc_items = [n], nc_totalCount = 1, nc_unreadCount = 1\<rparr>
      | Some c \<Rightarrow> Some (c\<lparr>nc_items := n # nc_items c,
                         nc_totalCount := num_or (nc_totalCount c) (length (nc_items c)) + 1,
                         nc_unreadCount := nc_unreadCount c + 1\<rparr>))"

definition add_history :: "notif_item \<Rightarrow> history_cache option \<Rightarrow> history_cache option" where
  "add_history n = map_option (\<lambda>c. c\<lparr>hc_items := n # hc_items c,
     hc_totalCount := num_or (hc_totalCount c) (length (hc_items c)) + 1\<rparr>)"

definition on_notification :: "string \<Rightarrow> bool \<Rightarrow> 'e live_msg \<Rightarrow> 'e realtime \<Rightarrow> 'e realtime" where
  "on_notification gen onPage e s =
     (let n = newNotif gen e;
          s = s\<lparr>rt_notifications := map (add_notification n) (rt_notifications s),
                rt_history := map (add_history n) (rt_history s)\<rparr>
      in if onPage then s else toasted (Toast_notification (ni_title n) (ni_message n)) s)"

definition on_payment_completed :: "'e live_msg \<Rightarrow> 'e realtime \<Rightarrow> 'e realtime" where
  "on_payment_completed e s =
     toasted (Toast_completed
         (case lm_amount e of None \<Rightarrow> None
          | Some a \<Rightarrow> if a = 0 then None else Some (a, or_else (lm_currency e) ''USD''))
         (if truthy (lm_referenceId e) then lm_referenceId e else None))
       (invalidate [''accounts'', ''account-balance'', ''transactions'', ''payment-history'', ''payment-summary'',
          ''ledger-entries'', ''notifications'', ''notification-history''] s)"

definition on_payment_failed :: "'e live_msg \<Rightarrow> 'e realtime \<Rightarrow> 'e realtime" where
  "on_payment_failed e s =
     toasted (Toast_failed (or_else (js_or (lm_reason e) (lm_message e)) ''Verification or funds error''))
       (invalidate [''accounts'', ''transactions'', ''payment-history'', ''ledger-entries''] s)"

definition put_balance :: "string \<Rightarrow> rat \<Rightarrow> string \<Rightarrow> string \<times> balance_cache option \<Rightarrow> string \<times> balance_cache option" where
  "put_balance acc bal cur q =
     (if fst q \<noteq> acc then q
      else (acc, Some (case snd q of
              None \<Rightarrow> \<lparr>bc_accountNumber = acc, bc_balance = bal, bc_currency = cur, bc_status = ''ACTIVE''\<rparr>
            | Some c \<Rightarrow> c\<lparr>bc_balance := bal\<rparr>)))"

definition put_account :: "string \<Rightarrow> rat \<Rightarrow> web_account \<Rightarrow> web_account" where
  "put_account acc bal a = (if wa_accountNumber a = acc then a\<lparr>wa_balance := bal\<rparr> else a)"

definition on_balance_updated :: "'e live_msg \<Rightarrow> 'e realtime \<Rightarrow> 'e realtime" where
  "on_balance_updated e s =
     (let cur = (case lm_currency e of None \<Rightarrow> ''USD'' | Some c \<Rightarrow> c);
          s = (case lm_balance e of
                 Some bal \<Rightarrow>
                   if truthy (lm_accountNumber e) then
                     let acc = the (lm_accountNumber e)
                     in s\<lparr>rt_balances := map (put_balance acc bal cur) (rt_balances s),
                          rt_accounts := map (map_option (map (put_account acc bal))) (rt_accounts s),
                          rt_batch := map_put acc (bal, cur) (rt_batch s), rt_batchTimer := True\<rparr>
                   else s
               | None \<Rightarrow> s)
      in invalidate [''accounts''] s)"

definition on_ledger_entry :: "'e live_msg \<Rightarrow> 'e realtime \<Rightarrow> 'e realtime" where
  "on_ledger_entry e s =
     (let s = (case lm_entry e of
                 Some x \<Rightarrow>
                   if truthy (lm_accountNumber e) then
                     s\<lparr>rt_ledger := map (\<lambda>(acc, q). if Some acc = lm_accountNumber e then (acc, map_option (\<lambda>es. x # es) q) else (acc, q))
                         (rt_ledger s)\<rparr>
                   else s
               | None \<Rightarrow> s)
      in invalidate [''ledger-entries''] s)"

definition on_circuit :: "'e live_msg \<Rightarrow> 'e realtime \<Rightarrow> 'e realtime" where
  "on_circuit e s =
     toasted (Toast_circuit (or_else (lm_service e) ''Downstream Service'') (or_else (lm_state e) ''CHANGED''))
       (invalidate [''circuit-breakers'', ''admin-circuit-breakers'', ''admin-telemetry''] s)"

definition dispatch_event :: "string \<Rightarrow> bool \<Rightarrow> 'e live_msg \<Rightarrow> 'e realtime \<Rightarrow> 'e realtime" where
  "dispatch_event gen onPage e s =
     (let ty = to_lower (the (lm_type e))
      in if ty = ''notification.created'' then on_notification gen onPage e s
         else if ty = ''payment.completed'' then on_payment_completed e s
         else if ty = ''payment.failed'' then on_payment_failed e s
         else if ty = ''account.balance.updated'' then on_balance_updated e s
         else if ty = ''ledger.entry.created'' then on_ledger_entry e s
         else if ty = ''circuit-breaker.state.changed'' then on_circuit e s
         else if ty = ''connection.restored'' then toasted Toast_restored s
         else s)"

definition handleIncomingEvent ::
  "string \<Rightarrow> bool \<Rightarrow> 'e live_msg \<Rightarrow> 'e realtime \<Rightarrow> 'e realtime" where
  "handleIncomingEvent gen onPage e s =
     (if \<not> truthy (lm_type e) then s
      else let (dup, s) = isDuplicateEvent e s
           in if dup then s else dispatch_event gen onPage e (s\<lparr>rt_lastEvent := Some e\<rparr>))"

definition handleStatusChange :: "stream_status \<Rightarrow> 'e realtime \<Rightarrow> 'e realtime" where
  "handleStatusChange st s =
     (let s = s\<lparr>rt_status := st\<rparr>;
          s = (if rt_prevStatus s = ST_CONNECTED \<and> st = ST_RECONNECTING then toasted Toast_lost s else s)
      in s\<lparr>rt_prevStatus := st\<rparr>)"

text \<open>The effect of the provider when the user is no longer signed in.\<close>

definition signed_out :: "'e realtime \<Rightarrow> 'e realtime" where
  "signed_out s = s\<lparr>rt_processed := [], rt_batch := [], rt_batchTimer := False, rt_lastEvent := None, rt_status := ST_OFFLINE\<rparr>"

subsection \<open>Notifications\<close>

text \<open>A notification of the server; \<open>ri_read\<close> is \<open>read\<close> or \<open>isRead\<close>, \<open>ri_time\<close> its timestamp.\<close>

record raw_item =
  ri_id :: "string option"
  ri_mongoId :: "string option"
  ri_type :: "string option"
  ri_notificationType :: "string option"
  ri_title :: "string option"
  ri_subject :: "string option"
  ri_payloadSubject :: "string option"
  ri_message :: "string option"
  ri_body :: "string option"
  ri_payloadBody :: "string option"
  ri_content :: "string option"
  ri_read :: bool
  ri_status :: "string option"
  ri_channel :: "string option"
  ri_time :: nat

definition format_item :: "browser \<Rightarrow> nat \<times> raw_item \<Rightarrow> notif_item" where
  "format_item b x =
     (let (idx, n) = x;
          i = or_else (js_or (ri_id n) (ri_mongoId n)) (''notif-'' @ show_nat idx);
          read = (ri_read n \<or> ri_status n = Some ''READ'' \<or> isRead (Some i) (Some (Some (ri_time n))) b)
      in \<lparr>ni_id = i,
          ni_type = to_upper (or_else (js_or (ri_type n) (ri_notificationType n)) ''SYSTEM''),
          ni_title = or_else (js_or (js_or (ri_title n) (ri_subject n)) (ri_payloadSubject n))
            (or_else (js_or (ri_type n) (ri_notificationType n)) ''Account'' @ '' Notification''),
          ni_message = or_else (js_or (js_or (ri_message n) (ri_body n)) (js_or (ri_payloadBody n) (ri_content n))) ''No details provided.'',
          ni_read = read, ni_status = or_else (ri_status n) (if read then ''READ'' else ''UNREAD''),
          ni_channel = or_else (js_or (ri_channel n) (ri_notificationType n)) ''EMAIL''\<rparr>)"

definition unread :: "notif_item list \<Rightarrow> nat" where
  "unread ns = length (filter (\<lambda>n. \<not> ni_read n) ns)"

text \<open>The result of \<open>useNotifications\<close> for the notifications and the count of the server.\<close>

definition useNotifications :: "browser \<Rightarrow> raw_item list \<Rightarrow> nat \<Rightarrow> notif_cache" where
  "useNotifications b rows totalCount =
     (let formatted = map (format_item b) (enumerate 0 rows)
      in \<lparr>nc_items = formatted, nc_totalCount = num_or totalCount (length formatted), nc_unreadCount = unread formatted\<rparr>)"

definition mark_item :: "string \<Rightarrow> notif_item \<Rightarrow> notif_item" where
  "mark_item i n = (if ni_id n = i then n\<lparr>ni_read := True, ni_status := ''READ''\<rparr> else n)"

definition mark_notification :: "string \<Rightarrow> notif_cache option \<Rightarrow> notif_cache option" where
  "mark_notification i = map_option (\<lambda>c. let ns = map (mark_item i) (nc_items c)
     in c\<lparr>nc_items := ns, nc_unreadCount := unread ns\<rparr>)"

definition mark_history :: "string \<Rightarrow> history_cache option \<Rightarrow> history_cache option" where
  "mark_history i = map_option (\<lambda>c. c\<lparr>hc_items := map (\<lambda>n. if ni_id n = i then n\<lparr>ni_read := True\<rparr> else n) (hc_items c)\<rparr>)"

definition mark_all_notifications :: "notif_cache option \<Rightarrow> notif_cache option" where
  "mark_all_notifications = map_option (\<lambda>c. c\<lparr>nc_items := map (\<lambda>n. n\<lparr>ni_read := True, ni_status := ''READ''\<rparr>) (nc_items c),
     nc_unreadCount := 0\<rparr>)"

definition mark_all_history :: "history_cache option \<Rightarrow> history_cache option" where
  "mark_all_history = map_option (\<lambda>c. c\<lparr>hc_items := map (\<lambda>n. n\<lparr>ni_read := True\<rparr>) (hc_items c)\<rparr>)"

text \<open>
  The mutations: \<open>notificationApi\<close> writes the mark to the browser first and never fails, and the
  handler \<open>onSuccess\<close> writes it again and updates the caches.
\<close>

definition useMarkAsRead :: "string \<Rightarrow> browser \<times> 'e realtime \<Rightarrow> browser \<times> 'e realtime" where
  "useMarkAsRead i = (\<lambda>(b, s).
     (markAsRead (Some i) (markAsRead (Some i) b),
      invalidate [''notifications'', ''notification-history'']
        (toasted Toast_marked s)\<lparr>rt_notifications := map (mark_notification i) (rt_notifications s),
           rt_history := map (mark_history i) (rt_history s)\<rparr>))"

definition useMarkAllAsRead :: "string option list \<Rightarrow> nat \<Rightarrow> browser \<times> 'e realtime \<Rightarrow> browser \<times> 'e realtime" where
  "useMarkAllAsRead is now = (\<lambda>(b, s).
     (markAllAsRead is now (markAllAsRead is now b),
      invalidate [''notifications'', ''notification-history'']
        (toasted Toast_all_marked s)\<lparr>rt_notifications := map mark_all_notifications (rt_notifications s),
           rt_history := map mark_all_history (rt_history s)\<rparr>))"

subsection \<open>Lemmas\<close>

lemma toasted_fields [simp]:
  "rt_processed (toasted t s) = rt_processed s" "rt_notifications (toasted t s) = rt_notifications s"
  "rt_accounts (toasted t s) = rt_accounts s" "rt_balances (toasted t s) = rt_balances s"
  by (simp_all add: toasted_def)

lemma invalidate_fields [simp]:
  "rt_processed (invalidate ks s) = rt_processed s" "rt_notifications (invalidate ks s) = rt_notifications s"
  "rt_accounts (invalidate ks s) = rt_accounts s" "rt_balances (invalidate ks s) = rt_balances s"
  by (simp_all add: invalidate_def)

lemmas event_handlers = on_notification_def on_payment_completed_def on_payment_failed_def on_balance_updated_def
  on_ledger_entry_def on_circuit_def Let_def

lemma dispatch_processed [simp]: "rt_processed (dispatch_event gen onPage e s) = rt_processed s"
  by (simp add: dispatch_event_def event_handlers split: option.split)

lemma isDuplicate_processed:
  "rt_processed (snd (isDuplicateEvent e s)) = rt_processed s \<or>
   rt_processed (snd (isDuplicateEvent e s)) = push_bounded EVENT_LIMIT (the (event_key e)) (rt_processed s)"
  by (simp add: isDuplicateEvent_def Let_def)

lemma handle_processed:
  "rt_processed (handleIncomingEvent gen onPage e s) = rt_processed s \<or>
   rt_processed (handleIncomingEvent gen onPage e s) = push_bounded EVENT_LIMIT (the (event_key e)) (rt_processed s)"
proof (cases "isDuplicateEvent e s")
  case (Pair dup t)
  then have "rt_processed (handleIncomingEvent gen onPage e s) = rt_processed s \<or>
      rt_processed (handleIncomingEvent gen onPage e s) = rt_processed t"
    by (simp add: handleIncomingEvent_def)
  with Pair isDuplicate_processed[of e s] show ?thesis by auto
qed

lemma handle_first:
  assumes "truthy (lm_type e)" and "event_key e = Some k" and "k \<noteq> ''''" and "k \<notin> set (rt_processed s)"
  shows "rt_processed (handleIncomingEvent gen onPage e s) = push_bounded EVENT_LIMIT k (rt_processed s)"
  using assms by (cases k) (simp_all add: handleIncomingEvent_def isDuplicateEvent_def Let_def)

lemma handle_again:
  assumes "event_key e = Some k" and "k \<noteq> ''''" and "k \<in> set (rt_processed s)"
  shows "handleIncomingEvent gen onPage e s = s"
  using assms by (cases k) (simp_all add: handleIncomingEvent_def isDuplicateEvent_def Let_def)

lemma lastn_of_push:
  assumes "k \<in> set (lastn n ids)" and "length ids \<le> m" and "n < m"
  shows "k \<in> set (lastn (Suc n) (push_bounded m x ids))"
proof -
  have "lastn (Suc n) (lastn m (ids @ [x])) = lastn (Suc n) (ids @ [x])" using assms(3) by (intro lastn_lastn) simp
  then show ?thesis
    using assms(1) push_bounded_lastn[OF assms(2)] by (auto simp: lastn_def)
qed

text \<open>C24: A live event takes effect once. Once an event with an identifier has been handled, handling it again
  changes nothing, neither caches nor toasts, as long as fewer than 500 other events came in
  between; and the application never remembers more than 500 identifiers.\<close>

theorem live_event_once:
  fixes gen :: string and onPage :: bool
  assumes "event_key e = Some k" and "k \<noteq> ''''" and "truthy (lm_type e)"
    and "k \<notin> set (rt_processed s)" and "length (rt_processed s) \<le> 500" and "length es < 500"
  defines "s' \<equiv> fold (\<lambda>(g, p, x). handleIncomingEvent g p x) es (handleIncomingEvent gen onPage e s)"
  shows "handleIncomingEvent gen2 onPage2 e s' = s' \<and> length (rt_processed s') \<le> 500"
proof -
  have keep: "k \<in> set (lastn (Suc (n + length es)) (rt_processed (fold (\<lambda>(g, p, x). handleIncomingEvent g p x) es t))) \<and>
      length (rt_processed (fold (\<lambda>(g, p, x). handleIncomingEvent g p x) es t)) \<le> 500"
    if "k \<in> set (lastn (Suc n) (rt_processed t))" "length (rt_processed t) \<le> 500" "n + length es < 500" for t :: "'a realtime" and n
    using that
  proof (induction es arbitrary: t n)
    case (Cons x es)
    obtain g p y where x: "x = (g, p, y)" by (cases x)
    let ?t = "handleIncomingEvent g p y t"
    have "k \<in> set (lastn (Suc (Suc n)) (rt_processed ?t)) \<and> length (rt_processed ?t) \<le> 500"
      using handle_processed[of g p y t]
    proof
      assume "rt_processed ?t = rt_processed t"
      moreover have "set (lastn (Suc n) xs) \<subseteq> set (lastn (Suc (Suc n)) xs)" for xs :: "string list"
        using set_lastn[of "Suc n" "lastn (Suc (Suc n)) xs"] by (simp add: lastn_lastn)
      ultimately show ?thesis using Cons.prems(1,2) by auto
    next
      assume "rt_processed ?t = push_bounded EVENT_LIMIT (the (event_key y)) (rt_processed t)"
      then show ?thesis using lastn_of_push[OF Cons.prems(1), of 500] push_bounded_length[of "rt_processed t" 500] Cons.prems(2,3)
        by (auto simp: EVENT_LIMIT_def)
    qed
    with Cons.IH[of "Suc n" ?t] Cons.prems(3) show ?case by (simp add: x)
  qed simp
  have first: "rt_processed (handleIncomingEvent gen onPage e s) = push_bounded 500 k (rt_processed s)"
    using handle_first[OF assms(3,1,2,4)] by (simp add: EVENT_LIMIT_def)
  then have "k \<in> set (lastn (Suc 0) (rt_processed (handleIncomingEvent gen onPage e s)))"
    using assms(5) by (simp add: push_bounded_lastn lastn_lastn) (simp add: lastn_def)
  with keep[of 0 "handleIncomingEvent gen onPage e s"] first assms(5,6) push_bounded_length[OF assms(5)]
  have "k \<in> set (lastn (Suc (length es)) (rt_processed s'))" "length (rt_processed s') \<le> 500" by (simp_all add: s'_def)
  then show ?thesis
    using handle_again[OF assms(1,2), of s'] set_lastn[of "Suc (length es)" "rt_processed s'"] by blast
qed

subsection \<open>Unread notifications\<close>

definition unread_ok :: "'e realtime \<Rightarrow> bool" where
  "unread_ok s \<longleftrightarrow> (\<forall>c. Some c \<in> set (rt_notifications s) \<longrightarrow> nc_unreadCount c = unread (nc_items c))"

lemma newNotif_unread [simp]: "\<not> ni_read (newNotif gen e)"
  by (simp add: newNotif_def Let_def)

lemma unread_add: "(\<And>c. old = Some c \<Longrightarrow> nc_unreadCount c = unread (nc_items c)) \<Longrightarrow> \<not> ni_read n \<Longrightarrow>
    add_notification n old = Some c \<Longrightarrow> nc_unreadCount c = unread (nc_items c)"
  by (auto simp: add_notification_def unread_def split: option.splits)

lemma dispatch_notifications:
  "rt_notifications (dispatch_event gen onPage e s) =
     (if to_lower (the (lm_type e)) = ''notification.created''
      then map (add_notification (newNotif gen e)) (rt_notifications s) else rt_notifications s)"
  by (simp add: dispatch_event_def event_handlers split: option.split)

lemma unread_handle:
  assumes "unread_ok s"
  shows "unread_ok (handleIncomingEvent gen onPage e s)"
proof (cases "isDuplicateEvent e s")
  case (Pair dup t)
  have t: "rt_notifications t = rt_notifications s"
    using Pair by (auto simp: isDuplicateEvent_def Let_def split: if_splits)
  have "rt_notifications (handleIncomingEvent gen onPage e s) \<in>
      {rt_notifications s, map (add_notification (newNotif gen e)) (rt_notifications s)}"
    using Pair t by (simp add: handleIncomingEvent_def dispatch_notifications)
  moreover have "nc_unreadCount c = unread (nc_items c)"
    if "Some c \<in> set (map (add_notification (newNotif gen e)) (rt_notifications s))" for c
  proof -
    from that obtain old where old: "old \<in> set (rt_notifications s)" "add_notification (newNotif gen e) old = Some c" by auto
    then show ?thesis using assms by (intro unread_add[OF _ newNotif_unread old(2)]) (simp add: unread_ok_def)
  qed
  ultimately show ?thesis using assms by (auto simp: unread_ok_def)
qed

lemma unread_all_read: "unread (map (\<lambda>n. n\<lparr>ni_read := True, ni_status := x\<rparr>) ns) = 0"
  by (induction ns) (simp_all add: unread_def)

lemma unread_marked:
  "unread_ok s \<Longrightarrow> unread_ok (snd (useMarkAsRead i (b, s)))"
  "unread_ok (snd (useMarkAllAsRead is now (b, s)))"
proof -
  have "nc_unreadCount c = unread (nc_items c)" if "Some c = mark_notification i q" for c q
    using that by (cases q) (simp_all add: mark_notification_def Let_def)
  then show "unread_ok s \<Longrightarrow> unread_ok (snd (useMarkAsRead i (b, s)))"
    by (auto simp: unread_ok_def useMarkAsRead_def)
  have "nc_unreadCount c = unread (nc_items c)" if "Some c = mark_all_notifications q" for c q
    using that by (cases q) (simp_all add: mark_all_notifications_def unread_all_read)
  then show "unread_ok (snd (useMarkAllAsRead is now (b, s)))"
    by (auto simp: unread_ok_def useMarkAllAsRead_def)
qed

lemma format_read:
  "(\<And>t. isRead (Some i) (Some (Some t)) b) \<Longrightarrow> ni_id (format_item b x) = i \<Longrightarrow> ni_read (format_item b x)"
  by (auto simp: format_item_def Let_def split: prod.splits)


text \<open>A balance event reaches every cache entry of the account and no other account.\<close>

definition currency_of :: "'e live_msg \<Rightarrow> string" where
  "currency_of e = (case lm_currency e of None \<Rightarrow> ''USD'' | Some c \<Rightarrow> c)"

lemma on_balance_fields:
  assumes "lm_balance e = Some bal" and "lm_accountNumber e = Some acc" and "acc \<noteq> ''''"
  shows "rt_balances (on_balance_updated e s) = map (put_balance acc bal (currency_of e)) (rt_balances s)"
    and "rt_accounts (on_balance_updated e s) = map (map_option (map (put_account acc bal))) (rt_accounts s)"
proof -
  have "truthy (Some acc)" using assms(3) by (cases acc) simp_all
  with assms(1,2) show "rt_balances (on_balance_updated e s) = map (put_balance acc bal (currency_of e)) (rt_balances s)"
    "rt_accounts (on_balance_updated e s) = map (map_option (map (put_account acc bal))) (rt_accounts s)"
    unfolding on_balance_updated_def Let_def currency_of_def by simp_all
qed

lemma balance_event:
  assumes "lm_balance e = Some bal" and "lm_accountNumber e = Some acc" and "acc \<noteq> ''''"
  shows "\<And>q. (acc, q) \<in> set (rt_balances (on_balance_updated e s)) \<Longrightarrow> map_option bc_balance q = Some bal"
    and "\<And>as a. Some as \<in> set (rt_accounts (on_balance_updated e s)) \<Longrightarrow> a \<in> set as \<Longrightarrow>
      wa_accountNumber a = acc \<Longrightarrow> wa_balance a = bal"
    and "filter (\<lambda>q. fst q \<noteq> acc) (rt_balances (on_balance_updated e s)) = filter (\<lambda>q. fst q \<noteq> acc) (rt_balances s)"
proof -
  note cur = on_balance_fields(1)[OF assms]
  show "map_option bc_balance q = Some bal" if "(acc, q) \<in> set (rt_balances (on_balance_updated e s))" for q
    using that by (auto simp: cur put_balance_def split: if_splits option.splits)
  show "wa_balance a = bal"
    if "Some as \<in> set (rt_accounts (on_balance_updated e s))" "a \<in> set as" "wa_accountNumber a = acc" for as a
  proof -
    from that(1) have "Some as \<in> map_option (map (put_account acc bal)) ` set (rt_accounts s)"
      unfolding on_balance_fields(2)[OF assms] by simp
    then obtain q where "Some as = map_option (map (put_account acc bal)) q" by (rule imageE)
    then obtain bs where "as = map (put_account acc bal) bs" by (cases q) simp_all
    with that(2) obtain z where "a = put_account acc bal z" by auto
    with that(3) show ?thesis by (cases "wa_accountNumber z = acc") (simp_all add: put_account_def)
  qed
  have "filter (\<lambda>q. fst q \<noteq> acc) (map (put_balance acc bal c) qs) = filter (\<lambda>q. fst q \<noteq> acc) qs" for c qs
    by (induction qs) (auto simp: put_balance_def)
  then show "filter (\<lambda>q. fst q \<noteq> acc) (rt_balances (on_balance_updated e s)) = filter (\<lambda>q. fst q \<noteq> acc) (rt_balances s)"
    by (simp add: cur)
qed

subsection \<open>A run\<close>

definition no_fields :: notif_fields where
  "no_fields = \<lparr>nf_id = None, nf_type = None, nf_notificationType = None, nf_title = None, nf_subject = None,
     nf_message = None, nf_body = None, nf_channel = None\<rparr>"

definition sample_live :: "string \<Rightarrow> nat live_msg" where
  "sample_live i = \<lparr>lm_eventId = Some i, lm_referenceId = None, lm_id = Some i, lm_type = Some ''Notification.Created'',
     lm_timestamp = None, lm_payload = None, lm_fields = no_fields, lm_amount = None, lm_currency = None,
     lm_reason = None, lm_message = None, lm_accountNumber = None, lm_balance = None, lm_entry = None,
     lm_service = None, lm_state = None\<rparr>"

definition one_query :: "nat realtime" where
  "one_query = rt_start\<lparr>rt_notifications := [Some \<lparr>nc_items = [], nc_totalCount = 0, nc_unreadCount = 0\<rparr>]\<rparr>"

definition two_events :: "nat realtime" where
  "two_events = handleIncomingEvent ''g2'' False (sample_live ''e2'') (handleIncomingEvent ''g1'' False (sample_live ''e1'') one_query)"

theorem live_event_once_witness: "handleIncomingEvent ''g3'' False (sample_live ''e1'') two_events = two_events"
  using live_event_once[of "sample_live ''e1''" "''e1''" one_query "[(''g2'', False, sample_live ''e2'')]" "''g3''" False "''g1''" False]
  by (simp add: two_events_def sample_live_def event_key_def js_or_def one_query_def rt_start_def)

definition quiet_browser :: browser where
  "quiet_browser = \<lparr>br_token = None, br_user = Missing, br_readIds = Missing, br_readAll = None, br_full = False\<rparr>"


end
