(* ===== verification/WebForms.thy ===== *)
theory WebForms
  imports Payment BrowserStorage Paging
begin

text \<open>
  What the forms of the web application send: the transfer, deposit and withdrawal form
  (\<open>frontend/src/components/TransferForm.jsx\<close>) with the payloads of \<open>api/paymentApi.js\<close>, the name of the
  signup form (\<open>pages/SignupPage.jsx\<close>), the opening of an account (\<open>components/CreateAccountModal.jsx\<close>,
  \<open>api/accountApi.js\<close>) and the customer search (\<open>hooks/useAccounts.js\<close>). The rules of
  react-hook-form are the checks its registered fields ask for.
\<close>

subsection \<open>Numbers in text\<close>

definition is_digit :: "char \<Rightarrow> bool" where
  "is_digit c \<longleftrightarrow> c \<in> set ''0123456789''"

definition decimal :: "string \<Rightarrow> nat" where
  "decimal s = foldl (\<lambda>n c. 10 * n + (of_char c - 48)) 0 s"

text \<open>A sign, and the number after \<open>e\<close> or \<open>E\<close> when there are digits.\<close>

definition strip_sign :: "string \<Rightarrow> bool \<times> string" where
  "strip_sign s = (case s of c # r \<Rightarrow> if c = CHR ''-'' then (True, r) else if c = CHR ''+'' then (False, r) else (False, s)
     | [] \<Rightarrow> (False, s))"

definition exponent :: "string \<Rightarrow> int" where
  "exponent s =
     (case s of c # r \<Rightarrow>
        if c \<in> {CHR ''e'', CHR ''E''} then
          let (neg, d) = strip_sign r; n = int (decimal (takeWhile is_digit d))
          in if neg then - n else n
        else 0
      | [] \<Rightarrow> 0)"

definition scale10 :: "int \<Rightarrow> rat \<Rightarrow> rat" where
  "scale10 e x = (if 0 \<le> e then x * 10 ^ nat e else x / 10 ^ nat (- e))"

text \<open>\<open>parseFloat\<close>: \<^const>\<open>None\<close> is not a number; the text \<open>Infinity\<close> and overflow are outside the model.\<close>

definition parseFloat :: "string \<Rightarrow> rat option" where
  "parseFloat s =
     (let (neg, t) = strip_sign (dropWhile is_space s);
          ip = takeWhile is_digit t; r = dropWhile is_digit t;
          frac = (case r of c # r' \<Rightarrow> if c = CHR ''.'' then takeWhile is_digit r' else [] | [] \<Rightarrow> []);
          rest = (case r of c # r' \<Rightarrow> if c = CHR ''.'' then dropWhile is_digit r' else r | [] \<Rightarrow> [])
      in if ip = [] \<and> frac = [] then None
         else let x = scale10 (exponent rest - int (length frac)) (of_nat (decimal (ip @ frac)))
              in Some (fl (if neg then - x else x)))"

subsection \<open>Payment payloads\<close>

record pay_data =
  pd_source :: string
  pd_targetAccountNumber :: "string option"
  pd_destinationAccountNumber :: "string option"
  pd_account :: string
  pd_amount :: rat
  pd_currency :: "string option"
  pd_description :: "string option"
  pd_idempotencyKey :: "string option"

text \<open>\<open>String(undefined)\<close> is the text ``undefined''.\<close>

definition js_string :: "string option \<Rightarrow> string" where
  "js_string v = (case v of None \<Rightarrow> ''undefined'' | Some s \<Rightarrow> s)"

definition transfer_payload :: "random_source \<Rightarrow> pay_data \<Rightarrow> transfer_data" where
  "transfer_payload R d =
     \<lparr>td_idempotencyKey = or_else (pd_idempotencyKey d) (generateUUID R),
      td_source = js_trim (pd_source d),
      td_target = js_trim (js_string (js_or (pd_targetAccountNumber d) (pd_destinationAccountNumber d))),
      td_amount = pd_amount d,
      td_currency = Some (to_upper (or_else (pd_currency d) ''USD'')),
      td_description = (if truthy (pd_description d) then Some (js_trim (the (pd_description d))) else None)\<rparr>"

definition cash_payload :: "random_source \<Rightarrow> string \<Rightarrow> pay_data \<Rightarrow> cash_data" where
  "cash_payload R memo d =
     \<lparr>cd_idempotencyKey = or_else (pd_idempotencyKey d) (generateUUID R),
      cd_accountNumber = js_trim (pd_account d),
      cd_amount = pd_amount d,
      cd_currency = Some (to_upper (or_else (pd_currency d) ''USD'')),
      cd_description = Some (if truthy (pd_description d) then js_trim (the (pd_description d)) else memo)\<rparr>"

definition deposit_payload :: "random_source \<Rightarrow> pay_data \<Rightarrow> cash_data" where
  "deposit_payload R d = cash_payload R ''Cash Deposit'' d"

definition withdraw_payload :: "random_source \<Rightarrow> pay_data \<Rightarrow> cash_data" where
  "withdraw_payload R d = cash_payload R ''Cash Withdrawal'' d"

subsection \<open>The transfer form\<close>

record form_values =
  fv_sourceAccountNumber :: string
  fv_targetAccountNumber :: string
  fv_accountNumber :: string
  fv_amount :: string
  fv_description :: string

record form_account =
  fa_accountNumber :: string
  fa_balance :: "rat option"
  fa_currency :: "string option"

text \<open>The receipt after an operation.\<close>

record receipt =
  rc_type :: string
  rc_title :: string
  rc_referenceId :: "string option"
  rc_sourceAccountNumber :: "string option"
  rc_targetAccountNumber :: "string option"
  rc_accountNumber :: "string option"
  rc_amount :: rat
  rc_currency :: string
  rc_description :: string

text \<open>What the component knows when the button is pressed; \<open>fm_balance\<close> is the balance of the balance hook.\<close>

record transfer_form =
  fm_tab :: string
  fm_selected :: string
  fm_accounts :: "form_account list"
  fm_balance :: "rat option"
  fm_error :: string
  fm_receipt :: "receipt option"

definition str_or :: "string \<Rightarrow> string \<Rightarrow> string" where
  "str_or a b = (if a = '''' then b else a)"

definition activeAccountNum :: "transfer_form \<Rightarrow> form_values \<Rightarrow> string" where
  "activeAccountNum m v =
     (if fm_tab m = ''transfer'' then str_or (fv_sourceAccountNumber v) (fm_selected m)
      else str_or (fv_accountNumber v) (fm_selected m))"

definition activeAccountObj :: "transfer_form \<Rightarrow> form_values \<Rightarrow> form_account option" where
  "activeAccountObj m v = List.find (\<lambda>a. fa_accountNumber a = activeAccountNum m v) (fm_accounts m)"

definition currentAvailableBalance :: "transfer_form \<Rightarrow> form_values \<Rightarrow> rat" where
  "currentAvailableBalance m v =
     (case fm_balance m of Some b \<Rightarrow> b
      | None \<Rightarrow> (case Option.bind (activeAccountObj m v) fa_balance of Some b \<Rightarrow> b | None \<Rightarrow> 0))"

definition currentCurrency :: "transfer_form \<Rightarrow> form_values \<Rightarrow> string" where
  "currentCurrency m v = or_else (Option.bind (activeAccountObj m v) fa_currency) ''USD''"

definition digits12 :: "string \<Rightarrow> bool" where
  "digits12 s \<longleftrightarrow> length s = 12 \<and> list_all is_digit s"

text \<open>
  The fields registered for a tab: with accounts to choose from the own account is a drop-down list,
  otherwise a text field with a pattern. \<open>number\<close> is the value of the number field.
\<close>

definition field_rules :: "(string \<Rightarrow> rat option) \<Rightarrow> transfer_form \<Rightarrow> form_values \<Rightarrow> bool" where
  "field_rules number m v \<longleftrightarrow>
     (let own = (\<lambda>s. s \<noteq> '''' \<and> (fm_accounts m = [] \<longrightarrow> digits12 s))
      in (if fm_tab m = ''transfer''
          then own (fv_sourceAccountNumber v) \<and> fv_targetAccountNumber v \<noteq> '''' \<and> digits12 (fv_targetAccountNumber v)
          else own (fv_accountNumber v)) \<and>
         fv_amount v \<noteq> '''' \<and> (case number (fv_amount v) of None \<Rightarrow> True | Some x \<Rightarrow> 1 / 100 \<le> x) \<and>
         length (fv_description v) \<le> 255)"

datatype submission =
    Stays transfer_form \<comment> \<open>with an error message\<close>
  | Transfers pay_data
  | Deposits pay_data
  | Withdraws pay_data

definition no_pay_data :: pay_data where
  "no_pay_data = \<lparr>pd_source = '''', pd_targetAccountNumber = None, pd_destinationAccountNumber = None, pd_account = '''',
     pd_amount = 0, pd_currency = None, pd_description = None, pd_idempotencyKey = None\<rparr>"

definition submit_transfer :: "rat \<Rightarrow> transfer_form \<Rightarrow> form_values \<Rightarrow> submission" where
  "submit_transfer amountNum m v =
     (let sourceAcc = str_or (fv_sourceAccountNumber v) (fm_selected m); targetAcc = fv_targetAccountNumber v
      in if sourceAcc = '''' \<or> targetAcc = ''''
         then Stays (m\<lparr>fm_error := ''Both source and destination accounts are required.''\<rparr>)
         else if sourceAcc = targetAcc
         then Stays (m\<lparr>fm_error := ''Source and destination accounts cannot be identical.''\<rparr>)
         else if currentAvailableBalance m v < amountNum
         then Stays (m\<lparr>fm_error := ''Transfer amount exceeds available source account balance.''\<rparr>)
         else Transfers (no_pay_data\<lparr>pd_source := sourceAcc, pd_targetAccountNumber := Some targetAcc, pd_amount := amountNum,
                pd_currency := Some (currentCurrency m v),
                pd_description := Some (str_or (fv_description v) ''Inter-account transfer'')\<rparr>))"

definition submit_cash :: "rat \<Rightarrow> string \<Rightarrow> transfer_form \<Rightarrow> form_values \<Rightarrow> pay_data" where
  "submit_cash amountNum memo m v = no_pay_data\<lparr>pd_account := str_or (fv_accountNumber v) (fm_selected m),
     pd_amount := amountNum, pd_currency := Some (currentCurrency m v), pd_description := Some (str_or (fv_description v) memo)\<rparr>"

definition onSubmit :: "transfer_form \<Rightarrow> form_values \<Rightarrow> submission" where
  "onSubmit m0 v =
     (let m = m0\<lparr>fm_error := ''''\<rparr>
      in case parseFloat (fv_amount v) of
           None \<Rightarrow> Stays (m\<lparr>fm_error := ''Please enter a valid positive amount.''\<rparr>)
         | Some amountNum \<Rightarrow>
             if amountNum \<le> 0 then Stays (m\<lparr>fm_error := ''Please enter a valid positive amount.''\<rparr>)
             else if fm_tab m = ''transfer'' then submit_transfer amountNum m v
             else if fm_tab m = ''deposit'' then
               (if str_or (fv_accountNumber v) (fm_selected m) = ''''
                then Stays (m\<lparr>fm_error := ''Account number is required for deposit.''\<rparr>)
                else Deposits (submit_cash amountNum ''Cash Deposit'' m v))
             else if fm_tab m = ''withdraw'' then
               (if str_or (fv_accountNumber v) (fm_selected m) = ''''
                then Stays (m\<lparr>fm_error := ''Account number is required for withdrawal.''\<rparr>)
                else if currentAvailableBalance m v < amountNum
                then Stays (m\<lparr>fm_error := ''Withdrawal amount exceeds available balance.''\<rparr>)
                else Withdraws (submit_cash amountNum ''Cash Withdrawal'' m v))
             else Stays m)"

text \<open>
  The callbacks of the mutation. On success the receipt is shown and the form keeps the account only;
  a field that \<open>reset\<close> is not given is undefined, which counts as empty. \<open>res\<close> is the answer, with its
  \<open>referenceId\<close> and that of its \<open>transaction\<close>.
\<close>

definition receipt_of :: "submission \<Rightarrow> string option \<times> string option \<Rightarrow> receipt option" where
  "receipt_of sub res =
     (let ref = (if truthy (fst res) then fst res else snd res);
          mk = (\<lambda>ty ti s t a d. Some \<lparr>rc_type = ty, rc_title = ti, rc_referenceId = ref, rc_sourceAccountNumber = s,
             rc_targetAccountNumber = t, rc_accountNumber = a, rc_amount = pd_amount d, rc_currency = the (pd_currency d),
             rc_description = the (pd_description d)\<rparr>)
      in case sub of
           Stays _ \<Rightarrow> None
         | Transfers d \<Rightarrow> mk ''TRANSFER'' ''Transfer Completed'' (Some (pd_source d)) (pd_targetAccountNumber d) None d
         | Deposits d \<Rightarrow> mk ''DEPOSIT'' ''Cash Deposit Completed'' None None (Some (pd_account d)) d
         | Withdraws d \<Rightarrow> mk ''WITHDRAW'' ''Cash Withdrawal Completed'' None None (Some (pd_account d)) d)"

definition reset_values :: "submission \<Rightarrow> form_values \<Rightarrow> form_values" where
  "reset_values sub v =
     (let clear = (\<lambda>s a. \<lparr>fv_sourceAccountNumber = s, fv_targetAccountNumber = '''', fv_accountNumber = a,
            fv_amount = '''', fv_description = ''''\<rparr>)
      in case sub of Stays _ \<Rightarrow> v | Transfers d \<Rightarrow> clear (pd_source d) '''' | Deposits d \<Rightarrow> clear '''' (pd_account d)
         | Withdraws d \<Rightarrow> clear '''' (pd_account d))"

definition operation_succeeded ::
  "submission \<Rightarrow> string option \<times> string option \<Rightarrow> transfer_form \<times> form_values \<Rightarrow> transfer_form \<times> form_values" where
  "operation_succeeded sub res = (\<lambda>(m, v). (m\<lparr>fm_error := '''', fm_receipt := receipt_of sub res\<rparr>, reset_values sub v))"

text \<open>\<open>errData?.error?.message || errData?.message || err.message || fallback\<close>\<close>

record op_error =
  oe_errorMessage :: "string option"
  oe_dataMessage :: "string option"
  oe_message :: "string option"

definition operation_failed :: "submission \<Rightarrow> op_error \<Rightarrow> transfer_form \<Rightarrow> transfer_form" where
  "operation_failed sub e m = m\<lparr>fm_error := or_else (js_or (js_or (oe_errorMessage e) (oe_dataMessage e)) (oe_message e))
     (case sub of Stays _ \<Rightarrow> '''' | Transfers _ \<Rightarrow> ''Transfer failed. Check destination account and balance.''
      | Deposits _ \<Rightarrow> ''Deposit failed. Check account status.''
      | Withdraws _ \<Rightarrow> ''Withdrawal failed. Check account balance.'')\<rparr>"

definition handleTabChange :: "string \<Rightarrow> transfer_form \<Rightarrow> transfer_form" where
  "handleTabChange tab m = m\<lparr>fm_tab := tab, fm_error := '''', fm_receipt := None\<rparr>"

text \<open>The address can name a tab and an account; with accounts loaded and none selected the first is taken.\<close>

definition sync_address :: "string option \<Rightarrow> string option \<Rightarrow> transfer_form \<times> form_values \<Rightarrow> transfer_form \<times> form_values" where
  "sync_address mode acc = (\<lambda>(m, v).
     (let m = (if mode \<in> {Some ''transfer'', Some ''deposit'', Some ''withdraw''} then m\<lparr>fm_tab := the mode\<rparr> else m)
      in if truthy acc then (m\<lparr>fm_selected := the acc\<rparr>, v\<lparr>fv_sourceAccountNumber := the acc, fv_accountNumber := the acc\<rparr>)
         else (m, v)))"

definition first_account :: "transfer_form \<times> form_values \<Rightarrow> transfer_form \<times> form_values" where
  "first_account = (\<lambda>(m, v).
     (case fm_accounts m of a # _ \<Rightarrow>
        if fm_selected m = '''' then (m\<lparr>fm_selected := fa_accountNumber a\<rparr>,
          v\<lparr>fv_sourceAccountNumber := fa_accountNumber a, fv_accountNumber := fa_accountNumber a\<rparr>)
        else (m, v)
      | [] \<Rightarrow> (m, v)))"

subsection \<open>Names, accounts, searches\<close>

text \<open>\<open>fullName.trim()\<close> cut at the first space\<close>

definition split_name :: "string \<Rightarrow> string \<times> string" where
  "split_name fullName =
     (let trimmed = js_trim fullName
      in case find_index (\<lambda>c. c = CHR '' '') trimmed of
           Some (Suc n) \<Rightarrow> (js_trim (take (Suc n) trimmed), str_or (js_trim (drop (n + 2) trimmed)) ''User'')
         | _ \<Rightarrow> (trimmed, ''User''))"

record account_form =
  af_type :: string
  af_currency :: string
  af_initialDeposit :: string

record account_payload =
  ap_type :: string
  ap_currency :: string
  ap_initialDeposit :: rat
  ap_customerId :: "string option"

text \<open>
  The modal and \<open>accountApi.createAccount\<close>: \<open>customer\<close> is the selected customer, by \<open>customerId\<close> and \<open>id\<close>;
  the result is an error message or the payload.
\<close>

definition normalizedType :: "string option \<Rightarrow> string" where
  "normalizedType t =
     (let n = to_upper (or_else t ''CHECKING'') in if n = ''CURRENT'' \<or> n = ''BUSINESS'' then ''CHECKING'' else n)"

definition open_account_form ::
  "bool \<Rightarrow> (string option \<times> string option) option \<Rightarrow> account_form \<Rightarrow> string + account_payload" where
  "open_account_form isTellerOrAdmin customer f =
     (if isTellerOrAdmin \<and> customer = None
      then Inl ''Please search and select a customer before opening an account.''
      else let cid = (if isTellerOrAdmin then Option.bind customer (\<lambda>(c, i). js_or c i) else None)
           in Inr \<lparr>ap_type = normalizedType (Some (af_type f)), ap_currency = to_upper (str_or (af_currency f) ''USD''),
                ap_initialDeposit = (case parseFloat (af_initialDeposit f) of None \<Rightarrow> 0 | Some x \<Rightarrow> x),
                ap_customerId = (if truthy cid then cid else None)\<rparr>)"

datatype search_params = SearchId string | SearchEmail string | SearchPhone string | SearchName string

definition hex_group :: "nat \<Rightarrow> string \<Rightarrow> bool" where
  "hex_group n s \<longleftrightarrow> length s = n \<and> list_all is_hex (to_lower s)"

definition looks_like_uuid :: "string \<Rightarrow> bool" where
  "looks_like_uuid s =
     (case split_on (CHR ''-'') s of [a, b, c, d, e] \<Rightarrow> hex_group 8 a \<and> hex_group 4 b \<and> hex_group 4 c \<and> hex_group 4 d \<and> hex_group 12 e
      | _ \<Rightarrow> False)"

definition phone_char :: "char \<Rightarrow> bool" where
  "phone_char c \<longleftrightarrow> is_digit c \<or> is_space c \<or> c \<in> set ''-()''"

definition looks_like_phone :: "string \<Rightarrow> bool" where
  "looks_like_phone s \<longleftrightarrow> (let t = (case s of c # r \<Rightarrow> if c = CHR ''+'' then r else s | [] \<Rightarrow> s) in t \<noteq> [] \<and> list_all phone_char t)"

text \<open>Every query goes out with the plain text as well; \<^const>\<open>None\<close> is no request.\<close>

definition customer_query :: "string \<Rightarrow> (search_params \<times> string) option" where
  "customer_query q =
     (let t = js_trim q
      in if t = '''' then None
         else Some (if looks_like_uuid t then SearchId t else if CHR ''@'' \<in> set t then SearchEmail t
                    else if looks_like_phone t \<and> 7 \<le> length t then SearchPhone t else SearchName t, t))"

subsection \<open>What the form sends passes the checks of the service\<close>

lemma js_trim_length: "length (js_trim s) \<le> length s"
  using length_dropWhile_le[of is_space "rev (dropWhile is_space s)"] length_dropWhile_le[of is_space s]
  by (simp add: js_trim_def)

lemma js_trim_solid: "\<forall>c \<in> set s. \<not> is_space c \<Longrightarrow> js_trim s = s"
proof -
  assume solid: "\<forall>c \<in> set s. \<not> is_space c"
  then have "dropWhile is_space s = s" "dropWhile is_space (rev s) = rev s"
    by (cases s; simp) (cases "rev s"; simp add: solid flip: set_rev[of s])
  then show ?thesis by (simp add: js_trim_def)
qed

lemma digit_no_space: "is_digit c \<Longrightarrow> \<not> is_space c"
  by (auto simp: is_digit_def is_space_def)

lemma digits12_trim: "digits12 s \<Longrightarrow> js_trim s = s"
  by (rule js_trim_solid) (auto simp: digits12_def list_all_iff digit_no_space)

lemma to_upper_length [simp]: "length (to_upper s) = length s"
  by (simp add: to_upper_def)

definition accounts_ok :: "transfer_form \<Rightarrow> bool" where
  "accounts_ok m \<longleftrightarrow> (\<forall>a \<in> set (fm_accounts m). digits12 (fa_accountNumber a) \<and>
     (\<forall>c. fa_currency a = Some c \<longrightarrow> length c = 3))"

definition chosen_ok :: "transfer_form \<Rightarrow> string \<Rightarrow> bool" where
  "chosen_ok m s \<longleftrightarrow> fm_accounts m = [] \<or> s \<in> fa_accountNumber ` set (fm_accounts m)"

lemma own_account:
  assumes "accounts_ok m" and "chosen_ok m s" and "fm_accounts m = [] \<longrightarrow> digits12 s"
  shows "digits12 s"
  using assms by (auto simp: accounts_ok_def chosen_ok_def)

lemma currency_ok: "accounts_ok m \<Longrightarrow> length (currentCurrency m v) = 3"
proof (cases "activeAccountObj m v")
  case (Some a)
  assume "accounts_ok m"
  moreover have "a \<in> set (fm_accounts m)" using Some find_SomeD by (fastforce simp: activeAccountObj_def)
  ultimately show ?thesis using Some
    by (cases "fa_currency a") (auto simp: currentCurrency_def or_else_def accounts_ok_def)
qed (simp add: currentCurrency_def or_else_def)

lemma currency_check_ok: "accounts_ok m \<Longrightarrow> currency_check (Some (to_upper (or_else (Some (currentCurrency m v)) ''USD''))) = []"
  using currency_ok[of m v] by (cases "currentCurrency m v") (simp_all add: currency_check_def check_def or_else_def)

lemma description_check_ok:
  assumes "length s \<le> 255"
  shows "description_check (Some (js_trim s)) = []" "description_check (Some s) = []"
  using le_trans[OF js_trim_length[of s] assms] le_trans[OF js_trim_length js_trim_length[of s]] assms
  by (auto simp: description_check_def check_def intro: le_trans)

lemma transfer_submission:
  assumes "onSubmit m v = Transfers d"
  obtains x where "fm_tab m = ''transfer''" "parseFloat (fv_amount v) = Some x" "0 < x" "x \<le> currentAvailableBalance m v"
    "str_or (fv_sourceAccountNumber v) (fm_selected m) \<noteq> fv_targetAccountNumber v"
    "d = no_pay_data\<lparr>pd_source := str_or (fv_sourceAccountNumber v) (fm_selected m),
       pd_targetAccountNumber := Some (fv_targetAccountNumber v), pd_amount := x, pd_currency := Some (currentCurrency m v),
       pd_description := Some (str_or (fv_description v) ''Inter-account transfer'')\<rparr>"
proof -
  have "activeAccountObj (m\<lparr>fm_error := e\<rparr>) v = activeAccountObj m v" for e
    by (simp add: activeAccountObj_def activeAccountNum_def)
  then have upd: "currentAvailableBalance (m\<lparr>fm_error := e\<rparr>) v = currentAvailableBalance m v"
    "currentCurrency (m\<lparr>fm_error := e\<rparr>) v = currentCurrency m v" for e
    by (simp_all add: currentAvailableBalance_def currentCurrency_def split: option.split)
  show thesis
    using assms by (intro that[of "the (parseFloat (fv_amount v))"])
      (auto simp: onSubmit_def submit_transfer_def Let_def upd split: option.splits if_splits)
qed

text \<open>C16: What the transfer form sends, the payment service accepts. When the fields satisfy the rules of the form,
  the form either stays with a message or posts a transfer that passes every check of the service's
  validator: two different 12-digit accounts, a positive amount, a three-letter currency, a
  description of at most 255 characters; and the amount is within the balance the form shows.\<close>

theorem transfer_form_passes_validation:
  assumes "field_rules number m v" and "onSubmit m v = Transfers d"
    and "accounts_ok m" and "chosen_ok m (fv_sourceAccountNumber v)"
    and "isUUID V (generateUUID R)" and "\<And>s. digits12 s \<Longrightarrow> isNumeric V s"
  shows "transferValidation V (transfer_payload R d) = [] \<and>
    0 < td_amount (transfer_payload R d) \<and> td_amount (transfer_payload R d) \<le> currentAvailableBalance m v \<and>
    td_source (transfer_payload R d) = fv_sourceAccountNumber v \<and> td_target (transfer_payload R d) = fv_targetAccountNumber v"
proof -
  from assms(2) obtain x where tab: "fm_tab m = ''transfer''" and x: "0 < x" "x \<le> currentAvailableBalance m v"
    and diff: "str_or (fv_sourceAccountNumber v) (fm_selected m) \<noteq> fv_targetAccountNumber v"
    and d: "d = no_pay_data\<lparr>pd_source := str_or (fv_sourceAccountNumber v) (fm_selected m),
       pd_targetAccountNumber := Some (fv_targetAccountNumber v), pd_amount := x, pd_currency := Some (currentCurrency m v),
       pd_description := Some (str_or (fv_description v) ''Inter-account transfer'')\<rparr>"
    by (rule transfer_submission)
  have rules: "fv_sourceAccountNumber v \<noteq> ''''" "fm_accounts m = [] \<longrightarrow> digits12 (fv_sourceAccountNumber v)"
    "digits12 (fv_targetAccountNumber v)" "length (fv_description v) \<le> 255"
    using assms(1) tab by (auto simp: field_rules_def Let_def)
  have src: "str_or (fv_sourceAccountNumber v) (fm_selected m) = fv_sourceAccountNumber v" using rules(1) by (simp add: str_or_def)
  have src12: "digits12 (fv_sourceAccountNumber v)" by (rule own_account[OF assms(3,4) rules(2)])
  have tgt: "truthy (Some (fv_targetAccountNumber v))" using rules(3) by (cases "fv_targetAccountNumber v") (simp_all add: digits12_def)
  have memo: "length (str_or (fv_description v) ''Inter-account transfer'') \<le> 255" "str_or (fv_description v) ''Inter-account transfer'' \<noteq> ''''"
    using rules(4) by (simp_all add: str_or_def)
  have payload: "transfer_payload R d = \<lparr>td_idempotencyKey = generateUUID R, td_source = fv_sourceAccountNumber v,
      td_target = fv_targetAccountNumber v, td_amount = x,
      td_currency = Some (to_upper (or_else (Some (currentCurrency m v)) ''USD'')),
      td_description = Some (js_trim (str_or (fv_description v) ''Inter-account transfer''))\<rparr>"
    using src digits12_trim[OF src12] digits12_trim[OF rules(3)] tgt memo(2)
    by (simp add: transfer_payload_def d no_pay_data_def or_else_def[of None] js_or_def js_string_def) (simp add: truthy_def)
  have len: "length (fv_sourceAccountNumber v) = 12" "length (fv_targetAccountNumber v) = 12"
    using src12 rules(3) by (simp_all add: digits12_def)
  show ?thesis
    using x diff src src12 rules(3) assms(5,6) len currency_check_ok[OF assms(3)] description_check_ok(1)[OF memo(1)]
    by (auto simp: payload transferValidation_def account_number_check_def check_def)
qed

subsection \<open>A submission\<close>

definition sample_form :: transfer_form where
  "sample_form = \<lparr>fm_tab = ''transfer'', fm_selected = ''100000000001'',
     fm_accounts = [\<lparr>fa_accountNumber = ''100000000001'', fa_balance = Some 500, fa_currency = Some ''USD''\<rparr>],
     fm_balance = Some 500, fm_error = '''', fm_receipt = None\<rparr>"

definition sample_values :: form_values where
  "sample_values = \<lparr>fv_sourceAccountNumber = ''100000000001'', fv_targetAccountNumber = ''100000000002'',
     fv_accountNumber = '''', fv_amount = ''12'', fv_description = ''''\<rparr>"

definition sample_random :: random_source where
  "sample_random = \<lparr>randomUUID = None, random16 = (\<lambda>n. n mod 16)\<rparr>"

definition digits_V :: validator_lib where
  "digits_V = \<lparr>isUUID = fits uuid_template, isNumeric = list_all is_digit\<rparr>"

definition sample_data :: pay_data where
  "sample_data = no_pay_data\<lparr>pd_source := ''100000000001'', pd_targetAccountNumber := Some ''100000000002'', pd_amount := fl 12,
     pd_currency := Some ''USD'', pd_description := Some ''Inter-account transfer''\<rparr>"

lemma sample_number: "parseFloat ''12'' = Some (fl 12)"
  by (simp add: parseFloat_def strip_sign_def is_space_def is_digit_def exponent_def scale10_def decimal_def of_char_def)

lemma sample_submit: "onSubmit sample_form sample_values = Transfers sample_data"
proof -
  have "\<bar>fl 12 - 12\<bar> \<le> 3 / 10000" by (rule fl_err_bound) simp
  then have "\<not> fl 12 \<le> 0" "\<not> 500 < fl 12" by linarith+
  then show ?thesis
    by (simp add: onSubmit_def submit_transfer_def sample_form_def sample_values_def sample_number Let_def str_or_def
        currentAvailableBalance_def currentCurrency_def activeAccountObj_def activeAccountNum_def or_else_def sample_data_def)
qed

theorem transfer_form_passes_validation_witness:
  "transferValidation digits_V (transfer_payload sample_random sample_data) = []"
proof -
  have "field_rules (\<lambda>_. Some 12) sample_form sample_values"
    by (simp add: field_rules_def sample_form_def sample_values_def digits12_def is_digit_def)
  moreover have "accounts_ok sample_form" "chosen_ok sample_form (fv_sourceAccountNumber sample_values)"
    by (simp_all add: accounts_ok_def chosen_ok_def sample_form_def sample_values_def digits12_def is_digit_def)
  moreover have "isUUID digits_V (generateUUID sample_random)"
    using generateUUID_version4[of sample_random] by (simp add: digits_V_def sample_random_def)
  moreover have "isNumeric digits_V s" if "digits12 s" for s using that by (simp add: digits_V_def digits12_def)
  ultimately show ?thesis using transfer_form_passes_validation[OF _ sample_submit] by blast
qed

text \<open>
  Pressing the button again is a new payment: the form hands over no idempotency key, so every
  submission gets one of its own.
\<close>

lemma submissions_differ:
  assumes "onSubmit m v = Transfers d" and "generateUUID R \<noteq> generateUUID R'"
  shows "td_idempotencyKey (transfer_payload R d) \<noteq> td_idempotencyKey (transfer_payload R' d)"
proof -
  from assms(1) have "pd_idempotencyKey d = None" by (rule transfer_submission) (simp add: no_pay_data_def)
  with assms(2) show ?thesis by (simp add: transfer_payload_def or_else_def)
qed

end
