(* ===== verification/WebPages.thy ===== *)
theory WebPages
  imports WebForms Realtime Ledger
begin

text \<open>
  Paging in the web application: the stack of cursors the ledger, the transactions and the
  notifications page share (\<open>pages/LedgerPage.jsx\<close>, \<open>TransactionsPage.jsx\<close>, \<open>NotificationsPage.jsx\<close>),
  together with the cursor pages of theory Paging that the servers cut. Which rows are ever shown
  is determined exactly.
\<close>

subsection \<open>The stack of cursors\<close>

record pager =
  pg_history :: "string option list" \<comment> \<open>\<open>cursorHistory\<close>\<close>
  pg_index :: nat \<comment> \<open>\<open>currentPageIndex\<close>\<close>

definition first_page :: pager where
  "first_page = \<lparr>pg_history = [None], pg_index = 0\<rparr>"

definition currentCursor :: "pager \<Rightarrow> string option" where
  "currentCursor p = (if pg_index p < length (pg_history p) then pg_history p ! pg_index p else None)"

definition handleNextPage :: "string option \<Rightarrow> pager \<Rightarrow> pager" where
  "handleNextPage nextCursor p =
     (if truthy nextCursor
      then \<lparr>pg_history = take (pg_index p + 1) (pg_history p) @ [nextCursor], pg_index = pg_index p + 1\<rparr>
      else p)"

definition handlePrevPage :: "pager \<Rightarrow> pager" where
  "handlePrevPage p = (if 0 < pg_index p then p\<lparr>pg_index := pg_index p - 1\<rparr> else p)"

text \<open>The page a server with these rows answers, and the two buttons.\<close>

definition load :: "('r \<Rightarrow> string) \<Rightarrow> nat \<Rightarrow> 'r list \<Rightarrow> pager \<Rightarrow> 'r list \<times> string option" where
  "load key limit rows p = cursor_page key limit (cursor_after key (currentCursor p) rows)"

definition press_next :: "('r \<Rightarrow> string) \<Rightarrow> nat \<Rightarrow> 'r list \<Rightarrow> pager \<Rightarrow> pager" where
  "press_next key limit rows p = handleNextPage (snd (load key limit rows p)) p"

lemma cursor_after_nth:
  assumes "distinct (map key rows)" and "j < length rows" and "key (rows ! j) \<noteq> ''''"
  shows "cursor_after key (Some (key (rows ! j))) rows = drop (Suc j) rows"
proof -
  have rows: "rows = take j rows @ rows ! j # drop (Suc j) rows"
    using assms(2) by (simp add: id_take_nth_drop)
  have "key (rows ! i) \<noteq> key (rows ! j)" if "i < j" for i
    using assms(1,2) that by (metis distinct_conv_nth length_map nth_map order_less_trans less_irrefl)
  then have "\<forall>x \<in> set (take j rows). key x \<noteq> key (rows ! j)"
    using assms(2) by (auto simp: in_set_conv_nth)
  then have "dropWhile (\<lambda>r. key r \<noteq> key (rows ! j)) rows = rows ! j # drop (Suc j) rows"
    by (subst rows) (simp add: dropWhile_append2 dropWhile_append)
  then show ?thesis using assms(3) by (cases "key (rows ! j)") (simp_all add: cursor_after_def)
qed

lemma cursor_page_drop:
  "cursor_page key L (drop d rows) =
     (take L (drop d rows), if d + L < length rows then Some (key (rows ! (d + L))) else None)"
proof (cases "d + L < length rows")
  case True
  then have "take (Suc L) (drop d rows) = take L (drop d rows) @ [rows ! (d + L)]"
    by (simp add: take_Suc_conv_app_nth)
  then show ?thesis using True by (simp add: cursor_page_def)
next
  case False
  then show ?thesis by (auto simp: cursor_page_def Let_def)
qed

text \<open>After \<open>i\<close> presses of \<open>next\<close>: page \<open>i\<close> starts after \<open>i\<close> times the limit and one row.\<close>

lemma after_next:
  assumes "distinct (map key rows)" and "\<forall>r \<in> set rows. key r \<noteq> ''''" and "i * (L + 1) \<le> length rows"
  shows "(press_next key L rows ^^ i) first_page =
      \<lparr>pg_history = None # map (\<lambda>j. Some (key (rows ! (j * (L + 1) + L)))) [0..<i], pg_index = i\<rparr> \<and>
    load key L rows ((press_next key L rows ^^ i) first_page) = cursor_page key L (drop (i * (L + 1)) rows)"
  using assms(3)
proof (induction i)
  case 0
  show ?case by (simp add: load_def first_page_def currentCursor_def cursor_after_def)
next
  case (Suc i)
  let ?k = "key (rows ! (i * (L + 1) + L))"
  have le: "i * (L + 1) \<le> length rows" using Suc.prems by simp
  have IH: "(press_next key L rows ^^ i) first_page =
      \<lparr>pg_history = None # map (\<lambda>j. Some (key (rows ! (j * (L + 1) + L)))) [0..<i], pg_index = i\<rparr>"
    "load key L rows ((press_next key L rows ^^ i) first_page) = cursor_page key L (drop (i * (L + 1)) rows)"
    using Suc.IH[OF le] by blast+
  have last: "i * (L + 1) + L < length rows" using Suc.prems by simp
  then have ne: "?k \<noteq> ''''" using assms(2) by (simp del: mult_Suc_right)
  then have k: "truthy (Some ?k)" by (simp add: truthy_def)
  have step: "(press_next key L rows ^^ Suc i) first_page = handleNextPage (Some ?k) ((press_next key L rows ^^ i) first_page)"
    using last by (simp add: press_next_def IH(2) cursor_page_drop del: mult_Suc_right)
  have hist: "(press_next key L rows ^^ Suc i) first_page =
      \<lparr>pg_history = None # map (\<lambda>j. Some (key (rows ! (j * (L + 1) + L)))) [0..<Suc i], pg_index = Suc i\<rparr>"
    unfolding step IH(1) handleNextPage_def if_P[OF k] by simp
  have cur: "currentCursor ((press_next key L rows ^^ Suc i) first_page) = Some ?k"
    unfolding hist by (simp add: currentCursor_def nth_append del: mult_Suc_right)
  have "Suc (i * (L + 1) + L) = Suc i * (L + 1)" by simp
  with cur have "load key L rows ((press_next key L rows ^^ Suc i) first_page) = cursor_page key L (drop (Suc i * (L + 1)) rows)"
    unfolding load_def cur cursor_after_nth[OF assms(1) last ne] by (simp only:)
  with hist show ?case by blast
qed

text \<open>There is no further page after page \<open>length rows div (limit + 1)\<close>.\<close>

lemma next_stops:
  assumes "distinct (map key rows)" and "\<forall>r \<in> set rows. key r \<noteq> ''''"
  shows "(press_next key L rows ^^ i) first_page =
    (press_next key L rows ^^ min i (length rows div (L + 1))) first_page"
proof (induction i)
  case (Suc i)
  let ?m = "length rows div (L + 1)"
  show ?case
  proof (cases "i < ?m")
    case True
    then show ?thesis using Suc by (simp add: min_def)
  next
    case False
    have m: "?m * (L + 1) \<le> length rows" by (simp only: div_times_less_eq_dividend)
    have "length rows < Suc ?m * (L + 1)" by (simp only: dividend_less_div_times zero_less_Suc Suc_eq_plus1[symmetric] mult_Suc add.commute)
    then have "\<not> ?m * (L + 1) + L < length rows" by simp
    then have "snd (load key L rows ((press_next key L rows ^^ ?m) first_page)) = None"
      unfolding after_next[OF assms m, THEN conjunct2] cursor_page_drop by simp
    then have "press_next key L rows ((press_next key L rows ^^ ?m) first_page) = (press_next key L rows ^^ ?m) first_page"
      by (simp add: press_next_def handleNextPage_def)
    with False Suc show ?thesis by (simp add: min_absorb2)
  qed
qed simp

lemma page_shows:
  assumes "distinct (map key rows)" and "\<forall>r \<in> set rows. key r \<noteq> ''''"
  shows "fst (load key L rows ((press_next key L rows ^^ i) first_page)) =
    take L (drop (min i (length rows div (L + 1)) * (L + 1)) rows)"
proof -
  have "min i (length rows div (L + 1)) * (L + 1) \<le> length rows div (L + 1) * (L + 1)"
    by (intro mult_right_mono) simp_all
  also have "\<dots> \<le> length rows" by (simp only: div_times_less_eq_dividend)
  finally have "load key L rows ((press_next key L rows ^^ min i (length rows div (L + 1))) first_page) =
      cursor_page key L (drop (min i (length rows div (L + 1)) * (L + 1)) rows)"
    using after_next[OF assms] by blast
  then show ?thesis by (subst next_stops[OF assms]) (simp only: cursor_page_drop fst_conv)
qed

text \<open>C21: What paging through a history shows. For rows with distinct identifiers and whatever
  page size, pressing ``next'' again and again shows a row on some page if and only if its position
  is not the last of a group of page size plus one: the row whose identifier is the cursor of the
  next page is never shown. It is the stack of cursors of the three list pages together with the
  cursor pages the servers cut.\<close>

theorem paging_skips_rows:
  assumes "distinct (map key rows)" and "\<forall>r \<in> set rows. key r \<noteq> ''''" and "j < length rows"
  shows "(\<exists>i. rows ! j \<in> set (fst (load key limit rows ((press_next key limit rows ^^ i) first_page)))) \<longleftrightarrow>
    j mod (limit + 1) \<noteq> limit"
proof
  assume "\<exists>i. rows ! j \<in> set (fst (load key limit rows ((press_next key limit rows ^^ i) first_page)))"
  then obtain d where "rows ! j \<in> set (take limit (drop (d * (limit + 1)) rows))"
    unfolding page_shows[OF assms(1,2)] by blast
  then obtain o' where o: "o' < limit" "d * (limit + 1) + o' < length rows" "rows ! j = rows ! (d * (limit + 1) + o')"
    by (auto simp: in_set_conv_nth)
  from assms(1) have "distinct rows" by (simp only: distinct_map)
  with o assms(3) have "j = d * (limit + 1) + o'" by (simp only: nth_eq_iff_index_eq)
  then have "j mod (limit + 1) = o' mod (limit + 1)" by (simp only: mod_mult_self3)
  then show "j mod (limit + 1) \<noteq> limit" using o(1) by simp
next
  assume m: "j mod (limit + 1) \<noteq> limit"
  let ?i = "j div (limit + 1)"
  have "j mod (limit + 1) < limit + 1" by simp
  with m have off: "j mod (limit + 1) < limit" by linarith
  have "?i \<le> length rows div (limit + 1)" using assms(3) by (intro div_le_mono) simp
  then have "min ?i (length rows div (limit + 1)) = ?i" by simp
  moreover have "j = ?i * (limit + 1) + j mod (limit + 1)" by (simp only: div_mult_mod_eq)
  then have "rows ! j = take limit (drop (?i * (limit + 1)) rows) ! (j mod (limit + 1))"
    using off assms(3) by (metis add_leD1 less_imp_le_nat nth_drop nth_take)
  moreover have "j mod (limit + 1) < length (take limit (drop (?i * (limit + 1)) rows))"
    using off assms(3) \<open>j = ?i * (limit + 1) + j mod (limit + 1)\<close>
    unfolding length_take length_drop min_less_iff_conj by linarith
  ultimately have "rows ! j \<in> set (fst (load key limit rows ((press_next key limit rows ^^ ?i) first_page)))"
    unfolding page_shows[OF assms(1,2)] by (metis nth_mem)
  then show "\<exists>i. rows ! j \<in> set (fst (load key limit rows ((press_next key limit rows ^^ i) first_page)))" ..
qed

theorem paging_skips_rows_witness:
  "(\<exists>i. ''c'' \<in> set (fst (load id 2 [''a'', ''b'', ''c'', ''d''] ((press_next id 2 [''a'', ''b'', ''c'', ''d''] ^^ i) first_page)))) = False \<and>
   (\<exists>i. ''d'' \<in> set (fst (load id 2 [''a'', ''b'', ''c'', ''d''] ((press_next id 2 [''a'', ''b'', ''c'', ''d''] ^^ i) first_page)))) = True"
  using paging_skips_rows[of id "[''a'', ''b'', ''c'', ''d'']" 2 2] paging_skips_rows[of id "[''a'', ''b'', ''c'', ''d'']" 3 2]
  by simp

text \<open>``Previous'' goes back through the pages seen, and ``next'' comes back to the same page.\<close>

lemma prev_next:
  assumes "truthy c" and "pg_index p < length (pg_history p)"
  shows "currentCursor (handlePrevPage (handleNextPage c p)) = currentCursor p"
    and "handleNextPage c (handlePrevPage (handleNextPage c p)) = handleNextPage c p"
  using assms by (auto simp: handleNextPage_def handlePrevPage_def currentCursor_def nth_append)

definition pager_ok :: "pager \<Rightarrow> bool" where
  "pager_ok p \<longleftrightarrow> pg_index p < length (pg_history p) \<and> hd (pg_history p) = None"

lemma pager_kept:
  "pager_ok first_page" "pager_ok p \<Longrightarrow> pager_ok (handleNextPage c p)" "pager_ok p \<Longrightarrow> pager_ok (handlePrevPage p)"
  by (auto simp: pager_ok_def first_page_def handleNextPage_def handlePrevPage_def hd_append take_eq_Nil
      hd_conv_nth nth_append simp flip: length_greater_0_conv)

end
