(* ===== verification/WebViews.thy ===== *)
theory WebViews
  imports WebPages
begin

text \<open>
  What the pages of the web application send and show: the filters of the ledger, transactions
  and notifications page, the records their queries make of an answer (\<open>hooks/useLedger.js\<close>,
  \<open>usePayments.js\<close>, \<open>useNotifications.js\<close>, \<open>useAccounts.js\<close>), the cards of accounts and transactions, masked
  account numbers and totals (\<open>utils/currency.js\<close>), and the request validators of the account
  service the account form has to satisfy.
\<close>

subsection \<open>Query parameters\<close>

text \<open>
  \<^const>\<open>None\<close> is \<open>undefined\<close> or \<open>null\<close>. The three API objects drop empty parameters and \<open>ALL\<close>.
\<close>

type_synonym query_params = "(string \<times> string option) list"

definition cleanParams :: "query_params \<Rightarrow> (string \<times> string) list" where
  "cleanParams ps = map (\<lambda>(k, v). (k, the v)) (filter (\<lambda>(k, v). v \<noteq> None \<and> v \<noteq> Some '''' \<and> v \<noteq> Some ''ALL'') ps)"

definition when_set :: "bool \<Rightarrow> string \<Rightarrow> string \<Rightarrow> query_params" where
  "when_set b k v = (if b then [(k, Some v)] else [])"

definition cursor_param :: "pager \<Rightarrow> query_params" where
  "cursor_param p = (if truthy (currentCursor p) then [(''cursor'', currentCursor p)] else [])"

subsection \<open>The ledger page\<close>

record ledger_page =
  lp_account :: string \<comment> \<open>\<open>selectedAccountNumber\<close>\<close>
  lp_direction :: string
  lp_txType :: string
  lp_startDate :: string
  lp_endDate :: string
  lp_searchRef :: string
  lp_pager :: pager

definition ledger_page_start :: ledger_page where
  "ledger_page_start = \<lparr>lp_account = '''', lp_direction = ''ALL'', lp_txType = ''ALL'', lp_startDate = '''',
     lp_endDate = '''', lp_searchRef = '''', lp_pager = first_page\<rparr>"

text \<open>\<open>to_iso\<close> is \<open>new Date(\<dots>).toISOString()\<close> of a date field.\<close>

definition ledger_filters :: "(string \<Rightarrow> string) \<Rightarrow> ledger_page \<Rightarrow> query_params" where
  "ledger_filters to_iso s =
     [(''limit'', Some ''15'')] @ cursor_param (lp_pager s) @
     when_set (lp_direction s \<noteq> ''ALL'') ''type'' (lp_direction s) @
     when_set (lp_startDate s \<noteq> '''') ''startDate'' (to_iso (lp_startDate s)) @
     when_set (lp_endDate s \<noteq> '''') ''endDate'' (to_iso (lp_endDate s @ ''T23:59:59.999Z'')) @
     when_set (js_trim (lp_searchRef s) \<noteq> '''') ''referenceId'' (js_trim (lp_searchRef s))"

text \<open>\<open>ledgerApi.getAccountLedgerEntries\<close>\<close>

definition ledger_page_request :: "string \<Rightarrow> query_params \<Rightarrow> string + string \<times> (string \<times> string) list" where
  "ledger_page_request accountNumber ps =
     (if accountNumber = '''' then Inl ''Account number is required to fetch ledger entries''
      else Inr (''/ledger/accounts/'' @ accountNumber @ ''/entries'', cleanParams ps))"

definition ledger_handleAccountChange :: "string \<Rightarrow> ledger_page \<Rightarrow> ledger_page" where
  "ledger_handleAccountChange acc s = s\<lparr>lp_account := acc, lp_pager := first_page\<rparr>"

text \<open>\<open>handleFilterChange(setter)\<close> for a setter of one filter.\<close>

definition ledger_handleFilterChange :: "(ledger_page \<Rightarrow> ledger_page) \<Rightarrow> ledger_page \<Rightarrow> ledger_page" where
  "ledger_handleFilterChange setter s = (setter s)\<lparr>lp_pager := first_page\<rparr>"

definition ledger_handleResetFilters :: "ledger_page \<Rightarrow> ledger_page" where
  "ledger_handleResetFilters s = ledger_page_start\<lparr>lp_account := lp_account s\<rparr>"

text \<open>The effect that selects the first account, and the selected account.\<close>

definition ledger_auto_select :: "string list \<Rightarrow> ledger_page \<Rightarrow> ledger_page" where
  "ledger_auto_select accounts s =
     (case accounts of a # _ \<Rightarrow> if lp_account s = '''' then s\<lparr>lp_account := a\<rparr> else s | [] \<Rightarrow> s)"

text \<open>An entry as the service sends it, and as the page shows it.\<close>

record raw_entry =
  re_id :: "string option"
  re_transactionId :: "string option"
  re_type :: "string option"
  re_amount :: "rat option"
  re_balanceAfter :: "rat option"
  re_referenceId :: "string option"
  re_description :: "string option"
  re_txId :: "string option"
  re_txReferenceId :: "string option"
  re_txType :: "string option"
  re_txStatus :: "string option"
  re_txDescription :: "string option"

record shown_entry =
  se_id :: string
  se_transactionId :: "string option"
  se_type :: string
  se_amount :: rat
  se_balanceAfter :: rat
  se_txId :: "string option"
  se_referenceId :: string
  se_txType :: string
  se_txStatus :: string
  se_description :: string

definition num_or_zero :: "rat option \<Rightarrow> rat" where
  "num_or_zero v = (case v of None \<Rightarrow> 0 | Some x \<Rightarrow> x)"

definition format_entry :: "nat \<times> raw_entry \<Rightarrow> shown_entry" where
  "format_entry x =
     (let (idx, e) = x
      in \<lparr>se_id = or_else (re_id e) (''entry-'' @ show_nat idx), se_transactionId = re_transactionId e,
          se_type = to_upper (or_else (re_type e) ''DEBIT''),
          se_amount = num_or_zero (re_amount e), se_balanceAfter = num_or_zero (re_balanceAfter e),
          se_txId = js_or (re_txId e) (re_transactionId e),
          se_referenceId = or_else (js_or (re_txReferenceId e) (re_referenceId e)) ''N/A'',
          se_txType = to_upper (or_else (re_txType e) ''TRANSFER''),
          se_txStatus = to_upper (or_else (re_txStatus e) ''COMPLETED''),
          se_description = or_else (js_or (re_txDescription e) (re_description e)) ''Ledger transaction''\<rparr>)"

text \<open>The shapes of an answer: a bare array, an object with the rows under one of two names, or neither.\<close>

datatype 'e page_answer = Bare "'e list" | Named "'e list" "string option" | Other_name "'e list" "string option" | Neither

record ledger_view =
  lv_accountNumber :: string
  lv_currency :: string
  lv_entries :: "shown_entry list"
  lv_limit :: nat
  lv_nextCursor :: "string option"

definition truthy_part :: "string option \<Rightarrow> string option" where
  "truthy_part v = (if truthy v then v else None)"

definition answer_rows :: "'e page_answer \<Rightarrow> 'e list" where
  "answer_rows a = (case a of Bare es \<Rightarrow> es | Named es c \<Rightarrow> es | Other_name es c \<Rightarrow> es | Neither \<Rightarrow> [])"

definition answer_cursor :: "'e page_answer \<Rightarrow> string option" where
  "answer_cursor a = (case a of Named es c \<Rightarrow> truthy_part c | Other_name es c \<Rightarrow> truthy_part c | _ \<Rightarrow> None)"

text \<open>
  \<open>accountNumber\<close>, \<open>currency\<close> and \<open>limit\<close> of the answer, if it has them; the limit of the filters.
\<close>

definition useLedgerEntries ::
    "string \<Rightarrow> nat option \<Rightarrow> string option \<Rightarrow> string option \<Rightarrow> nat option \<Rightarrow> raw_entry page_answer \<Rightarrow> ledger_view" where
  "useLedgerEntries accountNumber limit ans_account ans_currency ans_limit a =
     (if accountNumber = ''''
      then \<lparr>lv_accountNumber = '''', lv_currency = ''USD'', lv_entries = [], lv_limit = 20, lv_nextCursor = None\<rparr>
      else \<lparr>lv_accountNumber = or_else ans_account accountNumber, lv_currency = or_else ans_currency ''USD'',
            lv_entries = map format_entry (enumerate 0 (answer_rows a)),
            lv_limit = (case ans_limit of Some n \<Rightarrow> if n \<noteq> 0 then n else (case limit of Some m \<Rightarrow> if m \<noteq> 0 then m else 20 | None \<Rightarrow> 20)
                        | None \<Rightarrow> (case limit of Some m \<Rightarrow> if m \<noteq> 0 then m else 20 | None \<Rightarrow> 20)),
            lv_nextCursor = answer_cursor a\<rparr>)"

definition displayEntries :: "ledger_page \<Rightarrow> ledger_view \<Rightarrow> shown_entry list" where
  "displayEntries s v = filter (\<lambda>e. lp_txType s = ''ALL'' \<or> se_txType e = lp_txType s) (lv_entries v)"

definition ledger_next :: "ledger_view \<Rightarrow> ledger_page \<Rightarrow> ledger_page" where
  "ledger_next v s = s\<lparr>lp_pager := handleNextPage (lv_nextCursor v) (lp_pager s)\<rparr>"

definition ledger_prev :: "ledger_page \<Rightarrow> ledger_page" where
  "ledger_prev s = s\<lparr>lp_pager := handlePrevPage (lp_pager s)\<rparr>"

subsection \<open>The transactions page\<close>

record txn_filters =
  tf_status :: "string option"
  tf_type :: "string option"
  tf_referenceId :: "string option"
  tf_startDate :: "string option"
  tf_endDate :: "string option"

record txn_page =
  xp_filters :: txn_filters
  xp_pager :: pager

definition tx_page_start :: txn_page where
  "tx_page_start = \<lparr>xp_filters = \<lparr>tf_status = Some ''ALL'', tf_type = Some ''ALL'', tf_referenceId = Some '''',
     tf_startDate = None, tf_endDate = None\<rparr>, xp_pager = first_page\<rparr>"

definition tx_params :: "txn_page \<Rightarrow> query_params" where
  "tx_params s = (let f = xp_filters s
     in [(''limit'', Some ''20''), (''status'', tf_status f), (''type'', tf_type f), (''referenceId'', tf_referenceId f),
         (''startDate'', tf_startDate f), (''endDate'', tf_endDate f)] @ cursor_param (xp_pager s))"

definition tx_handleFilterChange :: "txn_filters \<Rightarrow> txn_page \<Rightarrow> txn_page" where
  "tx_handleFilterChange f s = s\<lparr>xp_filters := f, xp_pager := first_page\<rparr>"

definition tx_handleResetFilters :: "txn_page \<Rightarrow> txn_page" where
  "tx_handleResetFilters s = tx_page_start"

text \<open>The filter panel: the dates it puts into the filters, and the number on its button.\<close>

definition panel_date :: "(string \<Rightarrow> string) \<Rightarrow> string \<Rightarrow> string option" where
  "panel_date to_iso v = (if v \<noteq> '''' then Some (to_iso v) else None)"

definition activeFilterCount :: "txn_filters \<Rightarrow> nat" where
  "activeFilterCount f = length (filter (\<lambda>v. truthy v \<and> v \<noteq> Some ''ALL'')
     [tf_status f, tf_type f, tf_referenceId f, tf_startDate f, tf_endDate f])"

text \<open>\<open>useTransactions\<close>: \<open>count\<close> is the count of the answer, 0 when it has none.\<close>

record 'p tx_view =
  tv_payments :: "'p list"
  tv_nextCursor :: "string option"
  tv_totalCount :: nat

definition useTransactions :: "nat \<Rightarrow> 'p page_answer \<Rightarrow> 'p tx_view" where
  "useTransactions count a =
     \<lparr>tv_payments = answer_rows a, tv_nextCursor = answer_cursor a,
      tv_totalCount = (case a of Bare ps \<Rightarrow> 0 | Neither \<Rightarrow> 0
        | Named ps c \<Rightarrow> (if count \<noteq> 0 then count else length ps)
        | Other_name ps c \<Rightarrow> (if count \<noteq> 0 then count else length ps))\<rparr>"

text \<open>What a card shows of a transaction.\<close>

record tx_card =
  tc_referenceId :: "string option"
  tc_id :: "string option"
  tc_mongoId :: "string option"
  tc_status :: "string option"
  tc_type :: "string option"
  tc_source :: "string option"
  tc_target :: "string option"
  tc_description :: "string option"

definition card_reference :: "tx_card \<Rightarrow> string" where
  "card_reference t = or_else (js_or (js_or (tc_referenceId t) (tc_id t)) (tc_mongoId t)) ''TX-UNKNOWN''"

definition card_type :: "tx_card \<Rightarrow> string" where
  "card_type t = to_upper (or_else (tc_type t) ''TRANSFER'')"

definition card_status :: "tx_card \<Rightarrow> string" where
  "card_status t = to_upper (or_else (tc_status t) ''COMPLETED'')"

text \<open>The text on the status chip.\<close>

definition getStatusChip :: "string \<Rightarrow> string" where
  "getStatusChip st =
     (if st = ''SUCCESS'' \<or> st = ''COMPLETED'' then ''SUCCESS''
      else if st = ''PENDING'' \<or> st = ''PROCESSING'' then ''PENDING''
      else if st = ''FAILED'' then ''FAILED'' else if st = ''REVERSED'' then ''REVERSED'' else st)"

definition isDebit :: "tx_card \<Rightarrow> bool" where
  "isDebit t \<longleftrightarrow> card_type t = ''WITHDRAWAL'' \<or> card_type t = ''TRANSFER'' \<and> truthy (tc_source t)"

text \<open>
  The card does not know whose page it is on: an incoming transfer is shown as a debit, with a
  minus sign, to the customer who received it.
\<close>

lemma incoming_shown_as_debit:
  "tc_type t = Some ''TRANSFER'' \<Longrightarrow> tc_source t = Some src \<Longrightarrow> src \<noteq> '''' \<Longrightarrow> isDebit t"
  by (cases src) (simp_all add: isDebit_def card_type_def or_else_def to_upper_def)

subsection \<open>Account numbers and totals\<close>

text \<open>A shown character, or the bullet that hides one.\<close>

datatype glyph = Glyph char | Bullet

fun chunks4 :: "'a list \<Rightarrow> 'a list list" where
  "chunks4 [] = []"
| "chunks4 (x # xs) = (x # take 3 xs) # chunks4 (drop 3 xs)"

fun join_glyphs :: "glyph list list \<Rightarrow> glyph list" where
  "join_glyphs [] = []"
| "join_glyphs [g] = g"
| "join_glyphs (g # h # gs) = g @ Glyph (CHR '' '') # join_glyphs (h # gs)"

definition maskAccountNumber :: "string option \<Rightarrow> glyph list" where
  "maskAccountNumber n =
     (if \<not> truthy n then join_glyphs (replicate 3 (replicate 4 Bullet))
      else let str = js_trim (the n)
           in if length str \<le> 4 then map Glyph str
              else join_glyphs (chunks4 (replicate (max 4 (length str - 4)) Bullet @ map Glyph (lastn 4 str))))"

text \<open>A masked number shows nothing but the last four digits and the length.\<close>

lemma mask_hides:
  assumes "js_trim a = p @ d" and "js_trim b = q @ d" and "length d = 4" and "length p = length q" and "p \<noteq> []"
  shows "maskAccountNumber (Some a) = maskAccountNumber (Some b)"
proof -
  have "js_trim '''' = ''''" by (simp add: js_trim_def)
  moreover have "p @ d \<noteq> ''''" "q @ d \<noteq> ''''" using assms(3) by auto
  ultimately have "a \<noteq> ''''" "b \<noteq> ''''" using assms(1,2) by metis+
  then have t: "truthy (Some a)" "truthy (Some b)" by (simp_all add: truthy_def)
  have "\<not> length (p @ d) \<le> 4" "\<not> length (q @ d) \<le> 4" using assms(3-5) by (auto simp: length_greater_0_conv[symmetric] simp del: length_greater_0_conv)
  moreover have "lastn 4 (p @ d) = d" "lastn 4 (q @ d) = d" using assms(3) by (simp_all add: lastn_def)
  ultimately show ?thesis
    unfolding maskAccountNumber_def Let_def option.sel assms(1,2) using t assms(4) by (simp only: if_False length_append simp_thms)
qed

text \<open>\<open>calculateTotalBalance\<close> adds the numbers of all accounts.\<close>

definition calculateTotalBalance :: "(string \<times> rat) list \<Rightarrow> rat" where
  "calculateTotalBalance accounts = fold (\<lambda>(cur, bal) acc. js_add acc bal) accounts 0"

definition summary_currency :: "(string \<times> rat) list \<Rightarrow> string" where
  "summary_currency accounts = (case accounts of [] \<Rightarrow> ''USD'' | (c, b) # _ \<Rightarrow> str_or c ''USD'')"

text \<open>The summary adds amounts of different currencies and shows the sum in the first one.\<close>

lemma currencies_added:
  "summary_currency [(''USD'', 100), (''INR'', 100)] = ''USD''"
  "calculateTotalBalance [(''USD'', 100), (''INR'', 100)] = 200"
proof -
  have "fl 100 = 100" "fl 200 = 200" using fl_int[of 100] fl_int[of 200] by simp_all
  then show "calculateTotalBalance [(''USD'', 100), (''INR'', 100)] = 200"
    by (simp add: calculateTotalBalance_def js_add_def)
qed (simp add: summary_currency_def str_or_def)

subsection \<open>The notifications page\<close>

record raw_history =
  rh_id :: "string option"
  rh_eventId :: "string option"
  rh_transactionId :: "string option"
  rh_payloadTransactionId :: "string option"
  rh_payloadReferenceId :: "string option"
  rh_referenceId :: "string option"
  rh_notificationType :: "string option"
  rh_channel :: "string option"
  rh_type :: "string option"
  rh_payloadEventType :: "string option"
  rh_recipient :: "string option"
  rh_payloadRecipient :: "string option"
  rh_status :: "string option"
  rh_retryCount :: nat
  rh_errorMessage :: "string option"
  rh_title :: "string option"
  rh_payloadSubject :: "string option"
  rh_message :: "string option"
  rh_payloadBody :: "string option"
  rh_payloadMessage :: "string option"
  rh_payloadAmount :: "rat option"
  rh_payloadCurrency :: "string option"
  rh_read :: bool \<comment> \<open>\<open>read\<close> or \<open>isRead\<close>\<close>
  rh_time :: nat

record shown_notification =
  sn_id :: string
  sn_eventId :: "string option"
  sn_transactionId :: "string option"
  sn_referenceId :: "string option"
  sn_channel :: string
  sn_type :: string
  sn_recipient :: string
  sn_status :: string
  sn_retryCount :: nat
  sn_errorMessage :: "string option"
  sn_title :: string
  sn_message :: string
  sn_amount :: "rat option"
  sn_currency :: string
  sn_read :: bool

definition format_history :: "browser \<Rightarrow> nat \<times> raw_history \<Rightarrow> shown_notification" where
  "format_history b x =
     (let (idx, n) = x;
          channel = to_upper (or_else (js_or (rh_notificationType n) (rh_channel n)) ''EMAIL'');
          i = or_else (rh_id n) (''notif-hist-'' @ show_nat idx)
      in \<lparr>sn_id = i, sn_eventId = truthy_part (rh_eventId n),
          sn_transactionId = truthy_part (js_or (rh_transactionId n) (rh_payloadTransactionId n)),
          sn_referenceId = truthy_part (js_or (rh_payloadReferenceId n) (rh_referenceId n)),
          sn_channel = channel,
          sn_type = to_upper (or_else (js_or (rh_type n) (rh_payloadEventType n)) channel),
          sn_recipient = or_else (js_or (rh_recipient n) (rh_payloadRecipient n)) ''customer@vaultcore.io'',
          sn_status = to_upper (or_else (rh_status n) ''SENT''),
          sn_retryCount = rh_retryCount n, sn_errorMessage = truthy_part (rh_errorMessage n),
          sn_title = or_else (js_or (rh_title n) (rh_payloadSubject n))
            (if channel = ''SMS'' then ''SMS Alert'' else ''Account Notification''),
          sn_message = or_else (js_or (js_or (rh_message n) (rh_payloadBody n)) (rh_payloadMessage n))
            (''Notification event processed for transaction '' @ or_else (rh_transactionId n) ''N/A'' @ ''.''),
          sn_amount = rh_payloadAmount n, sn_currency = or_else (rh_payloadCurrency n) ''USD'',
          sn_read = (rh_read n \<or> rh_status n = Some ''READ'' \<or> isRead (Some i) (Some (Some (rh_time n))) b)\<rparr>)"

text \<open>\<open>count\<close> and \<open>hasMore\<close> are \<open>pagination.totalCount\<close> and \<open>pagination.hasMore\<close> of the answer.\<close>

record history_view =
  hv_notifications :: "shown_notification list"
  hv_limit :: nat
  hv_totalCount :: nat
  hv_hasMore :: bool
  hv_nextCursor :: "string option"

definition useNotificationHistory ::
    "browser \<Rightarrow> nat option \<Rightarrow> nat \<Rightarrow> bool \<Rightarrow> raw_history page_answer \<Rightarrow> history_view" where
  "useNotificationHistory b limit count hasMore a =
     \<lparr>hv_notifications = map (format_history b) (enumerate 0 (answer_rows a)),
      hv_limit = (case limit of Some n \<Rightarrow> if n \<noteq> 0 then n else 20 | None \<Rightarrow> 20),
      hv_totalCount = (case a of Bare ns \<Rightarrow> length ns | Neither \<Rightarrow> 0
        | Named ns c \<Rightarrow> (if count \<noteq> 0 then count else length ns)
        | Other_name ns c \<Rightarrow> (if count \<noteq> 0 then count else length ns)),
      hv_hasMore = (case a of Bare ns \<Rightarrow> False | Neither \<Rightarrow> False
        | Named ns c \<Rightarrow> hasMore \<or> answer_cursor a \<noteq> None | Other_name ns c \<Rightarrow> hasMore \<or> answer_cursor a \<noteq> None),
      hv_nextCursor = answer_cursor a\<rparr>"

record notices_page =
  np_read :: string
  np_channel :: string
  np_delivery :: string
  np_search :: string
  np_startDate :: string
  np_endDate :: string
  np_pager :: pager

definition notices_start :: notices_page where
  "notices_start = \<lparr>np_read = ''ALL'', np_channel = ''ALL'', np_delivery = ''ALL'', np_search = '''',
     np_startDate = '''', np_endDate = '''', np_pager = first_page\<rparr>"

definition notif_params :: "(string \<Rightarrow> string) \<Rightarrow> notices_page \<Rightarrow> query_params" where
  "notif_params to_iso s =
     [(''limit'', Some ''15'')] @ cursor_param (np_pager s) @
     when_set (np_channel s \<noteq> ''ALL'') ''type'' (np_channel s) @
     when_set (np_delivery s \<noteq> ''ALL'') ''status'' (np_delivery s) @
     when_set (np_startDate s \<noteq> '''') ''startDate'' (to_iso (np_startDate s)) @
     when_set (np_endDate s \<noteq> '''') ''endDate'' (to_iso (np_endDate s @ ''T23:59:59.999Z''))"

definition notif_handleFilterChange :: "(notices_page \<Rightarrow> notices_page) \<Rightarrow> notices_page \<Rightarrow> notices_page" where
  "notif_handleFilterChange setter s = (setter s)\<lparr>np_pager := first_page\<rparr>"

definition filteredNotifications :: "notices_page \<Rightarrow> shown_notification list \<Rightarrow> shown_notification list" where
  "filteredNotifications s = filter (\<lambda>n.
     \<not> (np_read s = ''UNREAD'' \<and> sn_read n) \<and> \<not> (np_read s = ''READ'' \<and> \<not> sn_read n) \<and>
     (js_trim (np_search s) = '''' \<or>
      (let q = js_trim (to_lower (np_search s))
       in contains q (to_lower (sn_title n)) \<or> contains q (to_lower (sn_message n)) \<or>
          (case sn_referenceId n of None \<Rightarrow> False | Some r \<Rightarrow> contains q (to_lower r)) \<or>
          contains q (to_lower (sn_recipient n)))))"

text \<open>The identifiers \<open>handleMarkAllAsRead\<close> passes on.\<close>

definition unreadIds :: "shown_notification list \<Rightarrow> string list" where
  "unreadIds ns = map sn_id (filter (\<lambda>n. \<not> sn_read n) ns)"

text \<open>After ``mark all'' nothing on the page is unread when the answer is formatted again.\<close>

lemma isRead_kept:
  assumes "isRead i (Some (Some t)) b" and "\<forall>m. br_readAll b = Some m \<longrightarrow> m \<le> now"
  shows "isRead i (Some (Some t)) (markAllAsRead is now b)"
proof -
  have "getReadIds b = set (read_list b)" by (rule getReadIds_read_list)
  then show ?thesis
    using assms by (auto simp: isRead_def markAllAsRead_def getReadIds_def set_add_ids split: option.splits)
qed

lemma marked_page_read:
  assumes "\<not> br_full b" and later: "\<forall>m. br_readAll b = Some m \<longrightarrow> m \<le> now"
    and b': "b' = markAllAsRead (map Some (unreadIds (hv_notifications (useNotificationHistory b l c m a)))) now b"
    and n: "n \<in> set (hv_notifications (useNotificationHistory b' l c m a))"
  shows "sn_read n"
proof -
  obtain x where x: "x \<in> set (enumerate 0 (answer_rows a))" "n = format_history b' x"
    using n by (auto simp: useNotificationHistory_def)
  let ?o = "format_history b x"
  have same: "sn_id ?o = sn_id n" by (simp add: x(2) format_history_def Let_def split: prod.split)
  have id: "sn_id n \<noteq> ''''" by (auto simp: x(2) format_history_def Let_def or_else_def truthy_def split: prod.split option.split)
  show ?thesis
  proof (cases "sn_read ?o")
    case True
    then show ?thesis using isRead_kept[OF _ later] by (auto simp: x(2) b' format_history_def Let_def split: prod.splits)
  next
    case False
    then have "Some (sn_id n) \<in> set (map Some (unreadIds (hv_notifications (useNotificationHistory b l c m a))))"
      using x(1) by (auto simp: unreadIds_def useNotificationHistory_def same[symmetric])
    then have "isRead (Some (sn_id n)) ts b'" for ts
      unfolding b' using markAllAsRead_reads(1)[OF assms(1), of "Some (sn_id n)"] id by (simp add: truthy_def)
    then show ?thesis by (auto simp: x(2) format_history_def Let_def split: prod.splits)
  qed
qed

text \<open>What passes the filters of the page has the chosen state, and without filters everything is shown.\<close>

lemma filtered_state:
  "n \<in> set (filteredNotifications s ns) \<Longrightarrow> np_read s = ''UNREAD'' \<Longrightarrow> \<not> sn_read n"
  "n \<in> set (filteredNotifications s ns) \<Longrightarrow> np_read s = ''READ'' \<Longrightarrow> sn_read n"
  "filteredNotifications notices_start ns = ns"
  by (auto simp: filteredNotifications_def notices_start_def js_trim_def)

subsection \<open>The requests of the account service\<close>

text \<open>\<open>isNumeric\<close> of the library; the bodies hold the fields that are present.\<close>

definition allowed_currencies :: "string list" where
  "allowed_currencies = [''USD'', ''EUR'', ''GBP'', ''INR'', ''CAD'', ''AUD'', ''JPY'']"

definition createAccountValidation :: "string option \<Rightarrow> string option \<Rightarrow> rat option \<Rightarrow> (string \<times> string) list" where
  "createAccountValidation ty cur deposit =
     check (ty = None \<or> the ty \<in> {''SAVINGS'', ''CHECKING'', ''INVESTMENT''}) ''type''
       ''Account type must be SAVINGS, CHECKING, or INVESTMENT'' @
     check (cur = None \<or> to_upper (the cur) \<in> set allowed_currencies) ''currency''
       (''Currency must be one of: '' @ join_with '', '' allowed_currencies) @
     check (deposit = None \<or> 0 \<le> the deposit) ''initialDeposit'' ''Initial deposit cannot be negative''"

definition getAccountParamsValidation :: "validator_lib \<Rightarrow> string \<Rightarrow> (string \<times> string) list" where
  "getAccountParamsValidation V n =
     check (length n = 12) ''accountNumber'' ''Invalid value'' @
     check (isNumeric V n) ''accountNumber'' ''Account number must be a 12-digit numeric string''"

definition listAccountsQueryValidation :: "int option \<Rightarrow> int option \<Rightarrow> (string \<times> string) list" where
  "listAccountsQueryValidation page limit =
     check (page = None \<or> 1 \<le> the page) ''page'' ''Page must be a positive integer'' @
     check (limit = None \<or> 1 \<le> the limit \<and> the limit \<le> 100) ''limit'' ''Limit must be between 1 and 100''"

text \<open>The currencies the account form offers.\<close>

definition ACCOUNT_CURRENCIES :: "string list" where
  "ACCOUNT_CURRENCIES = [''INR'', ''USD'', ''EUR'', ''GBP'', ''CAD'', ''AUD'', ''SGD'', ''JPY'']"

definition payload_problems :: "account_payload \<Rightarrow> (string \<times> string) list" where
  "payload_problems p = createAccountValidation (Some (ap_type p)) (Some (ap_currency p)) (Some (ap_initialDeposit p))"

text \<open>
  What the form sends passes the validation for every type and currency it offers but one: an
  account in SGD is always refused.
\<close>

lemma form_types: "ty \<in> {''CHECKING'', ''SAVINGS'', ''INVESTMENT''} \<Longrightarrow> normalizedType (Some ty) = ty"
  by (elim insertE emptyE) (simp_all add: normalizedType_def or_else_def to_upper_def)

lemma form_currencies:
  "c \<in> set ACCOUNT_CURRENCIES \<Longrightarrow> c \<noteq> ''SGD'' \<Longrightarrow>
     to_upper (to_upper (str_or c ''USD'')) \<in> set allowed_currencies"
  unfolding ACCOUNT_CURRENCIES_def
  by (simp only: list.set, elim insertE emptyE) (simp_all add: str_or_def to_upper_def allowed_currencies_def)

lemma account_form_accepted:
  assumes "open_account_form staff customer f = Inr p" and "af_type f \<in> {''CHECKING'', ''SAVINGS'', ''INVESTMENT''}"
    and "af_currency f \<in> set ACCOUNT_CURRENCIES" and "af_currency f \<noteq> ''SGD''" and "0 \<le> ap_initialDeposit p"
  shows "payload_problems p = []"
proof -
  have "ap_type p = normalizedType (Some (af_type f))" "ap_currency p = to_upper (str_or (af_currency f) ''USD'')"
    using assms(1) by (auto simp: open_account_form_def Let_def split: if_splits)
  then show ?thesis
    using assms(2,5) form_types[OF assms(2)] form_currencies[OF assms(3,4)]
    by (auto simp: payload_problems_def createAccountValidation_def check_def)
qed

lemma sgd_refused:
  "open_account_form staff customer f = Inr p \<Longrightarrow> af_currency f = ''SGD'' \<Longrightarrow> payload_problems p \<noteq> []"
  by (auto simp: open_account_form_def Let_def payload_problems_def createAccountValidation_def
      allowed_currencies_def check_def to_upper_def str_or_def split: if_splits)

subsection \<open>The ledger page on the ledger service\<close>

text \<open>
  The page loads 15 rows at the current cursor; for filters that stay the same this is the page
  of theory WebPages over the entries of the account, newest first, so every sixteenth entry of the
  history is on no page.
\<close>

lemma ledger_page_loads:
  "getAccountLedgerEntries aid (f\<lparr>hf_cursor := currentCursor p, hf_limit := 15\<rparr>) db =
     load l_id 15 (newest_first (filter (history_where db aid f) (db_entries db))) p"
proof -
  have "history_where db aid (f\<lparr>hf_cursor := currentCursor p, hf_limit := 15\<rparr>) = history_where db aid f"
    by (rule ext, cases f) (simp add: history_where_def cong: option.case_cong)
  then show ?thesis by (simp add: getAccountLedgerEntries_def load_def page_of_def after_cursor_def)
qed

end
