(* ===== verification/WebApi.thy ===== *)
theory WebApi
  imports WebViews
begin

text \<open>
  The parts of the web application between its pages and the HTTP client: the addresses it derives
  from its environment (\<open>config/env.js\<close>), the notification calls with their fallbacks
  (\<open>api/notificationApi.js\<close>), the outcome of the refresh buttons (\<open>pages/*.jsx\<close>, \<open>utils/toast.js\<close>) and the
  messages of the payment mutations (\<open>hooks/usePayments.js\<close>).
\<close>

subsection \<open>Addresses\<close>

record env =
  VITE_API_BASE_URL :: "string option"
  VITE_GATEWAY_URL :: "string option"
  VITE_SSE_URL :: "string option"

text \<open>\<open>replace(/\/+$/, '')\<close> and \<open>replace(/\/api\/v1\/?$/, '')\<close>\<close>

definition strip_slashes :: "string \<Rightarrow> string" where
  "strip_slashes s = rev (dropWhile (\<lambda>c. c = CHR ''/'') (rev s))"

definition drop_end :: "string \<Rightarrow> string \<Rightarrow> string option" where
  "drop_end e s = (if length e \<le> length s \<and> drop (length s - length e) s = e then Some (take (length s - length e) s) else None)"

definition strip_api :: "string \<Rightarrow> string" where
  "strip_api s = (case drop_end ''/api/v1'' s of Some p \<Rightarrow> p
     | None \<Rightarrow> (case drop_end ''/api/v1/'' s of Some p \<Rightarrow> p | None \<Rightarrow> s))"

definition GATEWAY_URL :: "env \<Rightarrow> string" where
  "GATEWAY_URL e =
     (if truthy (VITE_GATEWAY_URL e) then strip_slashes (the (VITE_GATEWAY_URL e))
      else if truthy (VITE_API_BASE_URL e) then strip_slashes (strip_api (the (VITE_API_BASE_URL e)))
      else ''http://localhost:3000'')"

definition API_BASE_URL :: "env \<Rightarrow> string" where
  "API_BASE_URL e =
     (if truthy (VITE_API_BASE_URL e) then strip_slashes (the (VITE_API_BASE_URL e))
      else if truthy (VITE_GATEWAY_URL e) then strip_slashes (the (VITE_GATEWAY_URL e)) @ ''/api/v1''
      else ''http://localhost:3000/api/v1'')"

definition SSE_URL :: "env \<Rightarrow> string" where
  "SSE_URL e = (if truthy (VITE_SSE_URL e) then the (VITE_SSE_URL e)
     else strip_slashes (API_BASE_URL e) @ ''/events/stream'')"

text \<open>The addresses agree: from the gateway to the API and back.\<close>

definition api_only :: "string \<Rightarrow> env" where
  "api_only a = \<lparr>VITE_API_BASE_URL = Some a, VITE_GATEWAY_URL = None, VITE_SSE_URL = None\<rparr>"

definition gateway_only :: "string \<Rightarrow> env" where
  "gateway_only g = \<lparr>VITE_API_BASE_URL = None, VITE_GATEWAY_URL = Some g, VITE_SSE_URL = None\<rparr>"

lemma strip_slashes_idem: "strip_slashes (strip_slashes s) = strip_slashes s"
  by (simp add: strip_slashes_def)

lemma strip_slashes_end: "c \<noteq> CHR ''/'' \<Longrightarrow> strip_slashes (s @ [c]) = s @ [c]"
  by (simp add: strip_slashes_def)

lemma strip_api_append: "strip_api (s @ ''/api/v1'') = s"
  by (simp add: strip_api_def drop_end_def)

lemma api_not_blank: "s @ ''/api/v1'' = (s @ ''/api/v'') @ [CHR ''1'']"
  by simp

lemma gateway_roundtrip:
  assumes "g \<noteq> ''''"
  shows "GATEWAY_URL (api_only (API_BASE_URL (gateway_only g))) = GATEWAY_URL (gateway_only g)"
    and "API_BASE_URL (api_only (API_BASE_URL (gateway_only g))) = API_BASE_URL (gateway_only g)"
    and "SSE_URL (gateway_only g) = GATEWAY_URL (gateway_only g) @ ''/api/v1/events/stream''"
proof -
  have t: "truthy (Some g)" "truthy (Some (strip_slashes g @ ''/api/v1''))" using assms by (simp_all add: truthy_def)
  have e: "strip_slashes (strip_slashes g @ ''/api/v1'') = strip_slashes g @ ''/api/v1''"
    unfolding api_not_blank by (rule strip_slashes_end) simp
  show "GATEWAY_URL (api_only (API_BASE_URL (gateway_only g))) = GATEWAY_URL (gateway_only g)"
    "API_BASE_URL (api_only (API_BASE_URL (gateway_only g))) = API_BASE_URL (gateway_only g)"
    "SSE_URL (gateway_only g) = GATEWAY_URL (gateway_only g) @ ''/api/v1/events/stream''"
    using t e by (simp_all add: GATEWAY_URL_def API_BASE_URL_def SSE_URL_def api_only_def gateway_only_def
        strip_api_append strip_slashes_idem truthy_def)
qed

subsection \<open>The notification calls\<close>

text \<open>
  A call ends with a body or with the status of its error, if it has a response. \<open>none_yet\<close> is the empty
  answer the two reads fall back to.
\<close>

definition worth_fallback :: "nat option \<Rightarrow> bool" where
  "worth_fallback st \<longleftrightarrow> st = Some 404 \<or> st = Some 502 \<or> st = Some 503"

definition with_fallback :: "'d \<Rightarrow> nat option + 'd \<Rightarrow> nat option + 'd \<Rightarrow> 'd" where
  "with_fallback none_yet first second =
     (case first of Inr d \<Rightarrow> d
      | Inl st \<Rightarrow> if worth_fallback st then (case second of Inr d \<Rightarrow> d | Inl st' \<Rightarrow> none_yet) else none_yet)"

text \<open>The paths of the two attempts of a read.\<close>

definition notification_paths :: "bool \<Rightarrow> nat option + 'd \<Rightarrow> string list" where
  "notification_paths history first =
     (let (p, q) = (if history then (''/notifications/history'', ''/notifications'') else (''/notifications'', ''/notifications/history''))
      in case first of Inr d \<Rightarrow> [p] | Inl st \<Rightarrow> if worth_fallback st then [p, q] else [p])"

text \<open>Both marks are made in the browser first; the answer of the server is replaced when it fails.\<close>

definition api_markAsRead :: "string \<Rightarrow> nat option + 'd \<Rightarrow> 'd \<Rightarrow> browser \<Rightarrow> 'd \<times> browser" where
  "api_markAsRead i reply done_answer b = ((case reply of Inr d \<Rightarrow> d | Inl st \<Rightarrow> done_answer), markAsRead (Some i) b)"

definition api_markAllAsRead :: "string list \<Rightarrow> nat \<Rightarrow> nat option + 'd \<Rightarrow> 'd \<Rightarrow> browser \<Rightarrow> 'd \<times> browser" where
  "api_markAllAsRead is now reply done_answer b =
     ((case reply of Inr d \<Rightarrow> d | Inl st \<Rightarrow> done_answer), markAllAsRead (map Some is) now b)"

text \<open>
  The calls never fail: whatever the server does, the caller of a read gets an answer, and a
  notification is read in the browser even if the server never heard of it.
\<close>

lemma notifications_never_fail:
  "with_fallback none_yet (Inl st) (Inl st') = none_yet"
  "length (notification_paths h first) \<le> 2"
  "\<not> br_full b \<Longrightarrow> i \<noteq> '''' \<Longrightarrow> isRead (Some i) ts (snd (api_markAsRead i (Inl st) d b))"
  using markAsRead_reads(1)[of "Some i" b]
  by (auto simp: with_fallback_def notification_paths_def api_markAsRead_def truthy_def Let_def split: sum.splits)

subsection \<open>Refresh buttons and messages\<close>

datatype refresh_result = Refetched bool | Thrown \<comment> \<open>\<open>res.isError\<close>, or the call throws\<close>

datatype notice = Success string | Failure string

text \<open>\<open>handleSync\<close> and \<open>handleRetry\<close> of the transactions, accounts and dashboard pages look at the result.\<close>

definition handleSync :: "string \<Rightarrow> string \<Rightarrow> refresh_result \<Rightarrow> notice" where
  "handleSync ok bad r = (case r of Refetched True \<Rightarrow> Failure bad | Refetched False \<Rightarrow> Success ok | Thrown \<Rightarrow> Failure bad)"

text \<open>\<open>handleRefresh\<close> of the ledger page and \<open>handleSync\<close> of the notifications page do not.\<close>

definition handleRefresh :: "string \<Rightarrow> string \<Rightarrow> refresh_result \<Rightarrow> notice" where
  "handleRefresh ok bad r = (case r of Refetched e \<Rightarrow> Success ok | Thrown \<Rightarrow> Failure bad)"

text \<open>
  \<open>refetch\<close> resolves with \<open>isError\<close> and throws only when asked to, so a failed refresh of the ledger is
  reported as a success.
\<close>

lemma failed_refresh_reported:
  "handleRefresh ok bad (Refetched True) = Success ok" "handleSync ok bad (Refetched True) = Failure bad"
  by (simp_all add: handleRefresh_def handleSync_def)

text \<open>
  The message of a failed payment: \<open>nested\<close> is \<open>error.message\<close> of the body, \<open>plain\<close> its \<open>message\<close>, \<open>textual\<close> its
  \<open>error\<close> when that is text (only the transfer looks at it), \<open>own\<close> the message of the exception.
\<close>

definition payment_message :: "string option \<Rightarrow> string option \<Rightarrow> string option \<Rightarrow> string option \<Rightarrow> string \<Rightarrow> string" where
  "payment_message nested plain textual own fallback =
     or_else (js_or (js_or (js_or nested plain) textual) own) fallback"

definition invalidated :: "string list" where
  "invalidated = [''accounts'', ''account-balance'', ''transactions'', ''payment-history'', ''payment-summary'']"

lemma message_of_service: "msg \<noteq> '''' \<Longrightarrow> payment_message None (Some msg) None own f = msg"
  by (simp add: payment_message_def or_else_def js_or_def truthy_def)

end
