(* ===== verification/WebAccess.thy ===== *)
theory WebAccess
  imports WebClientProps
begin

text \<open>
  Which page a visitor of the web application sees: the routes (\<open>routes/AppRoutes.jsx\<close>), the guard
  around them (\<open>components/ProtectedRoute.jsx\<close>), the role check of the admin page, the redirects of
  the login and signup page, the modal of an expired session, and the small state around them
  (navigation, theme, request inspector). The session is that of theory WebClient.
\<close>

subsection \<open>Routes\<close>

datatype page =
  Login_page | Signup_page | Dashboard_page | Accounts_page | Transfer_page | Transactions_page
| Ledger_page | Notifications_page | Admin_page | NotFound_page

text \<open>\<open>Guarded r p\<close> is a page inside the guarded layout, with the role its own guard requires.\<close>

datatype route = Public page | Guarded "string option" page | Forward string | Wildcard

definition AppRoutes :: "string \<Rightarrow> route" where
  "AppRoutes path =
     (if path = ''/login'' then Public Login_page
      else if path = ''/signup'' then Public Signup_page
      else if path = ''/'' then Forward ''/dashboard''
      else if path = ''/dashboard'' then Guarded None Dashboard_page
      else if path = ''/accounts'' then Guarded None Accounts_page
      else if path = ''/transfer'' then Guarded None Transfer_page
      else if path = ''/transactions'' then Guarded None Transactions_page
      else if path = ''/ledger'' then Guarded None Ledger_page
      else if path = ''/notifications'' then Guarded None Notifications_page
      else if path = ''/admin'' then Guarded (Some ''ADMIN'') Admin_page
      else Wildcard)"

definition current_role :: "'b web_client \<Rightarrow> string option" where
  "current_role c = Option.bind (ui_user (wc_ui c)) su_role"

datatype guard = Authenticating | Children | To_login string | Restricted string

definition ProtectedRoute :: "string option \<Rightarrow> string \<Rightarrow> 'b web_client \<Rightarrow> guard" where
  "ProtectedRoute requiredRole location c =
     (if ui_loading (wc_ui c) then Authenticating
      else if ui_isSessionExpired (wc_ui c) then Children
      else if \<not> isAuthenticated c then To_login location
      else if truthy requiredRole \<and> current_role c \<noteq> requiredRole \<and> current_role c \<noteq> Some ''ADMIN''
        then Restricted (or_else (current_role c) ''CUSTOMER'')
      else Children)"

text \<open>What is on the screen at a path; a forward and a redirect to the login change the path.\<close>

datatype screen =
  Page page | Spinner | Login_from string | Access_restricted string | Admin_required string | Go string

definition AdminPage_gate :: "'b web_client \<Rightarrow> screen" where
  "AdminPage_gate c =
     (if current_role c \<noteq> Some ''ADMIN'' then Admin_required (or_else (current_role c) ''CUSTOMER'') else Page Admin_page)"

definition guarded_screen :: "guard \<Rightarrow> screen \<Rightarrow> screen" where
  "guarded_screen g inner =
     (case g of Authenticating \<Rightarrow> Spinner | To_login l \<Rightarrow> Login_from l | Restricted r \<Rightarrow> Access_restricted r | Children \<Rightarrow> inner)"

definition visit :: "string \<Rightarrow> 'b web_client \<Rightarrow> screen" where
  "visit path c =
     (case AppRoutes path of
        Public p \<Rightarrow> Page p
      | Wildcard \<Rightarrow> Page NotFound_page
      | Guarded req p \<Rightarrow>
          guarded_screen (ProtectedRoute None path c)
            (if req = None then Page p else guarded_screen (ProtectedRoute req path c) (AdminPage_gate c))
      | Forward to_path \<Rightarrow> guarded_screen (ProtectedRoute None path c) (Go to_path))"

definition public_pages :: "page set" where
  "public_pages = {Login_page, Signup_page, NotFound_page}"

subsection \<open>Login and signup\<close>

text \<open>\<open>location.state?.from?.pathname || '/dashboard'\<close>; the effect and \<open>onSuccess\<close> of the login go there.\<close>

definition login_target :: "string option \<Rightarrow> string" where
  "login_target from_path = or_else from_path ''/dashboard''"

definition login_effect :: "string option \<Rightarrow> 'b web_client \<Rightarrow> string option" where
  "login_effect from_path c = (if isAuthenticated c then Some (login_target from_path) else None)"

text \<open>
  The field errors of an answer: \<open>data\<close> and \<open>errors\<close> of the body, when they are arrays of pairs of a field
  and a message. The login page keeps those of its own fields, the signup page renames them.
\<close>

definition error_list :: "(string option \<times> string) list option \<Rightarrow> (string option \<times> string) list option \<Rightarrow> (string option \<times> string) list" where
  "error_list data errs = (case data of Some es \<Rightarrow> es | None \<Rightarrow> (case errs of Some es \<Rightarrow> es | None \<Rightarrow> []))"

definition login_field_errors :: "(string option \<times> string) list \<Rightarrow> (string \<times> string) list" where
  "login_field_errors es =
     map (\<lambda>(f, m). (the f, m)) (filter (\<lambda>(f, m). f = Some ''email'' \<or> f = Some ''password'') es)"

definition fieldMap :: "string \<Rightarrow> string" where
  "fieldMap f = (if f = ''firstName'' \<or> f = ''lastName'' then ''fullName'' else f)"

definition signup_field_errors :: "(string option \<times> string) list \<Rightarrow> (string \<times> string) list" where
  "signup_field_errors es = map (\<lambda>(f, m). (fieldMap (the f), m)) (filter (\<lambda>(f, m). truthy f) es)"

subsection \<open>The modal of an expired session\<close>

definition auth_path :: "string \<Rightarrow> bool" where
  "auth_path path \<longleftrightarrow> starts_with ''/login'' path \<or> starts_with ''/signup'' path"

text \<open>The event and the effect on \<open>isSessionExpired\<close> open it.\<close>

definition modal_on_event :: "string \<Rightarrow> bool \<Rightarrow> bool" where
  "modal_on_event path isOpen \<longleftrightarrow> isOpen \<or> \<not> auth_path path"

definition modal_on_effect :: "string \<Rightarrow> 'b web_client \<Rightarrow> bool \<Rightarrow> bool" where
  "modal_on_effect path c isOpen \<longleftrightarrow> isOpen \<or> ui_isSessionExpired (wc_ui c) \<and> \<not> auth_path path"

definition clearSessionExpired :: "'b web_client \<Rightarrow> 'b web_client" where
  "clearSessionExpired = on_ui (\<lambda>u. u\<lparr>ui_isSessionExpired := False\<rparr>)"

text \<open>Both buttons close the modal and go to \<open>/login\<close>.\<close>

definition handleLoginAgain :: "'b web_client \<Rightarrow> 'b web_client" where
  "handleLoginAgain c = clearSessionExpired (resetSessionExpiredFlag (on_browser clearMemoryAccessToken c))"

definition modal_handleLogout :: "'b web_client \<Rightarrow> 'b web_client" where
  "modal_handleLogout c = logout_done (clearSessionExpired (resetSessionExpiredFlag c))"

subsection \<open>Navigation\<close>

definition navItems :: "(string \<times> string \<times> string option) list" where
  "navItems =
     [(''Dashboard'', ''/dashboard'', None), (''Accounts'', ''/accounts'', None), (''Money Transfer'', ''/transfer'', None),
      (''Transactions'', ''/transactions'', None), (''Ledger Audit'', ''/ledger'', None),
      (''Notifications'', ''/notifications'', None), (''Admin Console'', ''/admin'', Some ''ADMIN'')]"

definition sidebar :: "'b web_client \<Rightarrow> string list" where
  "sidebar c = map (fst \<circ> snd)
     (filter (\<lambda>(n, p, r). \<not> (r = Some ''ADMIN'' \<and> current_role c \<noteq> Some ''ADMIN'')) navItems)"

definition getInitials :: "'b web_client \<Rightarrow> string" where
  "getInitials c =
     (let f = Option.bind (ui_user (wc_ui c)) su_firstName; l = Option.bind (ui_user (wc_ui c)) su_lastName;
          e = Option.bind (ui_user (wc_ui c)) su_email
      in if truthy f \<and> truthy l then to_upper [hd (the f), hd (the l)]
         else if truthy e then to_upper (take 2 (the e)) else ''VC'')"

subsection \<open>Theme and inspector\<close>

datatype theme = Dark | Light | System

text \<open>The saved entry, and whether the system prefers dark.\<close>

definition initial_theme :: "string option \<Rightarrow> theme" where
  "initial_theme saved =
     (if saved = Some ''dark'' then Dark else if saved = Some ''light'' then Light else System)"

definition isDark :: "bool \<Rightarrow> theme \<Rightarrow> bool" where
  "isDark prefers t = (case t of Dark \<Rightarrow> True | Light \<Rightarrow> False | System \<Rightarrow> prefers)"

definition toggleTheme :: "bool \<Rightarrow> theme \<Rightarrow> theme" where
  "toggleTheme prefers t = (if isDark prefers t then Light else Dark)"

definition inspector_log :: "'e \<Rightarrow> 'e list \<Rightarrow> 'e list" where
  "inspector_log e prev = take 20 (e # prev)"

definition getStatusBadgeVariant :: "nat \<Rightarrow> string" where
  "getStatusBadgeVariant st =
     (if 200 \<le> st \<and> st < 300 then ''success'' else if 300 \<le> st \<and> st < 400 then ''info''
      else if 400 \<le> st \<and> st < 500 then ''warning'' else ''danger'')"

subsection \<open>Lemmas\<close>

lemma toggle_toggle: "isDark d (toggleTheme d t) = (\<not> isDark d t)" "isDark d (toggleTheme d (toggleTheme d t)) = isDark d t"
  by (simp_all add: toggleTheme_def isDark_def)

lemma inspector_bound: "length (fold inspector_log es []) \<le> 20"
proof -
  have "length log \<le> 20 \<Longrightarrow> length (fold inspector_log es log) \<le> 20" for log
    by (induction es arbitrary: log) (simp_all add: inspector_log_def)
  then show ?thesis by simp
qed

text \<open>What the sidebar offers is what the visitor may open.\<close>

lemma guard_open:
  "\<not> ui_loading (wc_ui c) \<Longrightarrow> isAuthenticated c \<Longrightarrow> ProtectedRoute None l c = Children"
  by (simp add: ProtectedRoute_def)

lemma sidebar_opens:
  assumes "\<not> ui_loading (wc_ui c)" and "isAuthenticated c" and "path \<in> set (sidebar c)"
  shows "\<exists>p. visit path c = Page p \<and> p \<notin> public_pages"
proof -
  from assms(3) have "path \<in> set [''/dashboard'', ''/accounts'', ''/transfer'', ''/transactions'', ''/ledger'', ''/notifications''] \<or>
      path = ''/admin'' \<and> current_role c = Some ''ADMIN''"
    by (auto simp: sidebar_def navItems_def split: if_splits)
  then show ?thesis
    using guard_open[OF assms(1,2)] assms(1,2)
    by (auto simp: visit_def AppRoutes_def guarded_screen_def public_pages_def AdminPage_gate_def ProtectedRoute_def)
qed


text \<open>After ``Login again'' on an expired session every guarded path leads to the login.\<close>

lemma login_again_needs_login:
  assumes "session_inv c" and "wc_expired c" and "\<not> ui_loading (wc_ui c)" and "AppRoutes path = Guarded r p"
  shows "visit path (handleLoginAgain c) = Login_from path"
  using assms by (simp add: visit_def guarded_screen_def ProtectedRoute_def session_inv_def isAuthenticated_def handleLoginAgain_def
      clearSessionExpired_def resetSessionExpiredFlag_def on_browser_def on_ui_def truthy_def)

definition visitor :: "nat web_client" where
  "visitor = set_loading False (app_start sample_browser)"

definition token_answer :: token_reply where
  "token_answer = \<lparr>ar_tokensAccess = None, ar_accessToken = None, ar_token = Some ''tok'', ar_user = None, ar_role = None\<rparr>"


end
