(* ===== verification/Telemetry.thy ===== *)
theory Telemetry
  imports Gateway JSNum
begin

text \<open>
  Metrics: the counters and gauges the HTTP middlewares of the gateway
  (\<open>middleware/metrics.js\<close>) and of the services (\<open>shared/src/metrics/index.js\<close>) keep, the labels
  they make of a request path, and the reader of the exposition text on the admin page
  (\<open>hooks/useAdmin.js\<close>). The objects of \<open>prom-client\<close> are association lists from labels to
  values; a label appears with its first use. Durations are counted, not measured.
\<close>

subsection \<open>Labels\<close>

definition hex_ci :: "char \<Rightarrow> bool" where
  "hex_ci c \<longleftrightarrow> c \<in> set ''0123456789abcdefABCDEF''"

definition dec_digit :: "char \<Rightarrow> bool" where
  "dec_digit c \<longleftrightarrow> c \<in> set ''0123456789''"

text \<open>\<open>[0-9a-f]{8}-[0-9a-f]{4}-[0-9a-f]{4}-[0-9a-f]{4}-[0-9a-f]{12}\<close>, ignoring case\<close>

fun uuid_shape :: "nat list \<Rightarrow> string \<Rightarrow> bool" where
  "uuid_shape [] s \<longleftrightarrow> True"
| "uuid_shape [n] s \<longleftrightarrow> length (take n s) = n \<and> list_all hex_ci (take n s)"
| "uuid_shape (n # m # ns) s \<longleftrightarrow> length (take n s) = n \<and> list_all hex_ci (take n s) \<and>
     starts_with ''-'' (drop n s) \<and> uuid_shape (m # ns) (drop (Suc n) s)"

definition uuid_at :: "string \<Rightarrow> bool" where
  "uuid_at s \<longleftrightarrow> uuid_shape [8, 4, 4, 4, 12] s"

fun replace_uuids :: "string \<Rightarrow> string" where
  "replace_uuids [] = []"
| "replace_uuids (c # s) =
     (if uuid_at (c # s) then '':id'' @ replace_uuids (drop 35 s) else c # replace_uuids s)"

text \<open>\<open>\/\d{10,16}\<close>\<close>

fun replace_numbers :: "string \<Rightarrow> string" where
  "replace_numbers [] = []"
| "replace_numbers (c # s) =
     (let run = takeWhile dec_digit (take 16 s)
      in if c = CHR ''/'' \<and> 10 \<le> length run then ''/:accountNumber'' @ replace_numbers (drop (length run) s)
         else c # replace_numbers s)"

definition normalizePath :: "string \<Rightarrow> string" where
  "normalizePath path = hd (split_on (CHR ''?'') (replace_numbers (replace_uuids path)))"

subsection \<open>Counters and gauges\<close>

fun inc_by :: "'k \<Rightarrow> int \<Rightarrow> ('k \<times> int) list \<Rightarrow> ('k \<times> int) list" where
  "inc_by k d [] = [(k, d)]"
| "inc_by k d ((j, v) # xs) = (if j = k then (j, v + d) # xs else (j, v) # inc_by k d xs)"

fun value_at :: "'k \<Rightarrow> ('k \<times> int) list \<Rightarrow> int" where
  "value_at k [] = 0"
| "value_at k ((j, v) # xs) = (if j = k then v else value_at k xs)"

abbreviation sum_of :: "('k \<times> int) list \<Rightarrow> int" where
  "sum_of xs \<equiv> sum_list (map snd xs)"

lemma value_at_inc: "value_at j (inc_by k d xs) = value_at j xs + (if j = k then d else 0)"
  by (induction k d xs rule: inc_by.induct) auto

lemma sum_inc: "sum_of (inc_by k d xs) = sum_of xs + d"
  by (induction k d xs rule: inc_by.induct) auto

lemma inc_nonempty [simp]: "inc_by k d xs \<noteq> []"
  by (cases "(k, d, xs)" rule: inc_by.cases) auto

lemma keys_inc: "set (map fst (inc_by k d xs)) = insert k (set (map fst xs))"
  by (induction k d xs rule: inc_by.induct) auto

lemma distinct_inc: "distinct (map fst xs) \<Longrightarrow> distinct (map fst (inc_by k d xs))"
proof (induction k d xs rule: inc_by.induct)
  case (2 k d j v xs)
  then show ?case using keys_inc[of k d xs] by auto
qed simp

lemma value_at_mem: "distinct (map fst xs) \<Longrightarrow> (k, v) \<in> set xs \<Longrightarrow> value_at k xs = v"
  by (induction k xs rule: value_at.induct) (auto simp: rev_image_eqI)

record labels =
  lb_method :: string
  lb_path :: string
  lb_status :: string
  lb_service :: string

record telemetry =
  tm_total :: "(labels \<times> int) list" \<comment> \<open>\<open>vaultcore_http_requests_total\<close>\<close>
  tm_duration :: "(labels \<times> int) list" \<comment> \<open>observations of the histogram\<close>
  tm_errors :: "(labels \<times> int) list" \<comment> \<open>\<open>vaultcore_http_errors_total\<close>\<close>
  tm_active :: "(string \<times> int) list" \<comment> \<open>\<open>vaultcore_http_active_requests\<close>\<close>
  tm_breakers :: "(string \<times> nat) list"

definition no_telemetry :: telemetry where
  "no_telemetry = \<lparr>tm_total = [], tm_duration = [], tm_errors = [], tm_active = [], tm_breakers = []\<rparr>"

subsection \<open>The middlewares\<close>

text \<open>What the middleware remembers of a request until the response has finished.\<close>

record tracked =
  tk_method :: string
  tk_path :: string
  tk_service :: string

definition track :: "tracked \<Rightarrow> telemetry \<Rightarrow> tracked option \<times> telemetry" where
  "track r tm = (Some r, tm\<lparr>tm_active := inc_by (tk_service r) 1 (tm_active tm)\<rparr>)"

definition metricsMiddleware :: "string \<Rightarrow> string \<Rightarrow> telemetry \<Rightarrow> tracked option \<times> telemetry" where
  "metricsMiddleware meth path tm =
     (if path = ''/metrics'' then (None, tm)
      else track \<lparr>tk_method = meth, tk_path = normalizePath path, tk_service = resolveServiceName path\<rparr> tm)"

definition createServiceMetricsMiddleware ::
    "string \<Rightarrow> string \<Rightarrow> string \<Rightarrow> string \<Rightarrow> telemetry \<Rightarrow> tracked option \<times> telemetry" where
  "createServiceMetricsMiddleware serviceName meth path originalUrl tm =
     (if path = ''/metrics'' then (None, tm)
      else track \<lparr>tk_method = meth, tk_path = normalizePath (if path \<noteq> '''' then path else originalUrl),
                  tk_service = serviceName\<rparr> tm)"

text \<open>The \<open>finish\<close> event of the response. There is no handler for a response that is cut off.\<close>

definition labels_of :: "tracked \<Rightarrow> nat \<Rightarrow> labels" where
  "labels_of r status = \<lparr>lb_method = tk_method r, lb_path = tk_path r,
     lb_status = (if status \<noteq> 0 then show_nat status else ''500''), lb_service = tk_service r\<rparr>"

definition on_response_finish :: "tracked \<Rightarrow> nat \<Rightarrow> telemetry \<Rightarrow> telemetry" where
  "on_response_finish r status tm =
     (let l = labels_of r status
      in tm\<lparr>tm_active := inc_by (tk_service r) (- 1) (tm_active tm), tm_total := inc_by l 1 (tm_total tm),
            tm_duration := inc_by l 1 (tm_duration tm),
            tm_errors := (if 400 \<le> status then inc_by l 1 (tm_errors tm) else tm_errors tm)\<rparr>)"

text \<open>\<open>syncCircuitBreakerMetrics\<close> and \<open>syncAllCircuitBreakers\<close> are the same code: they set the gauge of every breaker.\<close>

fun put :: "'k \<Rightarrow> 'v \<Rightarrow> ('k \<times> 'v) list \<Rightarrow> ('k \<times> 'v) list" where
  "put k v [] = [(k, v)]"
| "put k v ((j, w) # xs) = (if j = k then (j, v) # xs else (j, w) # put k v xs)"

definition syncCircuitBreakerMetrics :: "registry \<Rightarrow> telemetry \<Rightarrow> telemetry" where
  "syncCircuitBreakerMetrics reg tm =
     tm\<lparr>tm_breakers := fold (\<lambda>(n, v). put n v) (breaker_gauge reg) (tm_breakers tm)\<rparr>"

definition syncAllCircuitBreakers :: "registry \<Rightarrow> telemetry \<Rightarrow> telemetry" where
  "syncAllCircuitBreakers = syncCircuitBreakerMetrics"

subsection \<open>The traffic of the gateway\<close>

text \<open>
  Requests enter, finish with a status, or are cut off; the position is that of the request
  among the open ones.
\<close>

datatype traffic = Enter string string | Finish nat nat | CutOff nat

definition drop_nth :: "nat \<Rightarrow> 'a list \<Rightarrow> 'a list" where
  "drop_nth k xs = take k xs @ drop (Suc k) xs"

fun serve :: "traffic \<Rightarrow> tracked list \<times> telemetry \<Rightarrow> tracked list \<times> telemetry" where
  "serve (Enter meth path) (ps, tm) =
     (case metricsMiddleware meth path tm of (None, tm') \<Rightarrow> (ps, tm') | (Some r, tm') \<Rightarrow> (ps @ [r], tm'))"
| "serve (Finish k status) (ps, tm) =
     (if k < length ps then (drop_nth k ps, on_response_finish (ps ! k) status tm) else (ps, tm))"
| "serve (CutOff k) (ps, tm) = (drop_nth k ps, tm)"

text \<open>The reference: the requests that are open, that have finished, and that were cut off.\<close>

record traffic_tally =
  ta_open :: "tracked list"
  ta_done :: "(tracked \<times> nat) list"
  ta_lost :: "tracked list"

fun tally_step :: "traffic \<Rightarrow> traffic_tally \<Rightarrow> traffic_tally" where
  "tally_step (Enter meth path) t =
     (if path = ''/metrics'' then t
      else t\<lparr>ta_open := ta_open t @ [\<lparr>tk_method = meth, tk_path = normalizePath path, tk_service = resolveServiceName path\<rparr>]\<rparr>)"
| "tally_step (Finish k status) t =
     (if k < length (ta_open t)
      then t\<lparr>ta_open := drop_nth k (ta_open t), ta_done := ta_done t @ [(ta_open t ! k, status)]\<rparr> else t)"
| "tally_step (CutOff k) t =
     (if k < length (ta_open t)
      then t\<lparr>ta_open := drop_nth k (ta_open t), ta_lost := ta_lost t @ [ta_open t ! k]\<rparr> else t)"

definition no_tally :: traffic_tally where
  "no_tally = \<lparr>ta_open = [], ta_done = [], ta_lost = []\<rparr>"

definition count_if :: "('a \<Rightarrow> bool) \<Rightarrow> 'a list \<Rightarrow> int" where
  "count_if P xs = int (length (filter P xs))"

lemma count_if_simps [simp]:
  "count_if P [] = 0" "count_if P (xs @ [x]) = count_if P xs + (if P x then 1 else 0)"
  by (simp_all add: count_if_def)

lemma count_drop_nth: "k < length xs \<Longrightarrow> count_if P (drop_nth k xs) = count_if P xs - (if P (xs ! k) then 1 else 0)"
  unfolding count_if_def drop_nth_def by (subst (3) id_take_nth_drop[of k xs]) simp_all

lemma drop_nth_short: "length xs \<le> k \<Longrightarrow> drop_nth k xs = xs"
  by (simp add: drop_nth_def)

definition counted :: "traffic_tally \<Rightarrow> telemetry \<Rightarrow> bool" where
  "counted t tm \<longleftrightarrow>
     (\<forall>l. value_at l (tm_total tm) = count_if (\<lambda>(r, s). labels_of r s = l) (ta_done t)) \<and>
     (\<forall>l. value_at l (tm_duration tm) = value_at l (tm_total tm)) \<and>
     (\<forall>l. value_at l (tm_errors tm) = count_if (\<lambda>(r, s). 400 \<le> s \<and> labels_of r s = l) (ta_done t)) \<and>
     (\<forall>v. value_at v (tm_active tm) = count_if (\<lambda>r. tk_service r = v) (ta_open t) + count_if (\<lambda>r. tk_service r = v) (ta_lost t))"

definition summed :: "traffic_tally \<Rightarrow> telemetry \<Rightarrow> bool" where
  "summed t tm \<longleftrightarrow>
     sum_of (tm_total tm) = count_if (\<lambda>_. True) (ta_done t) \<and>
     sum_of (tm_errors tm) = count_if (\<lambda>(r, s). 400 \<le> s) (ta_done t) \<and>
     sum_of (tm_active tm) = count_if (\<lambda>_. True) (ta_open t) + count_if (\<lambda>_. True) (ta_lost t) \<and>
     distinct (map fst (tm_total tm)) \<and> distinct (map fst (tm_errors tm)) \<and> distinct (map fst (tm_active tm)) \<and>
     (tm_total tm = [] \<longleftrightarrow> ta_done t = []) \<and>
     (tm_errors tm = [] \<longleftrightarrow> (\<forall>(r, s) \<in> set (ta_done t). s < 400)) \<and>
     (tm_active tm = [] \<longleftrightarrow> ta_open t = [] \<and> ta_done t = [] \<and> ta_lost t = [])"

lemmas middleware_defs = metricsMiddleware_def track_def on_response_finish_def Let_def

lemma serve_tally:
  assumes "ps = ta_open t" and "counted t tm"
  shows "fst (serve a (ps, tm)) = ta_open (tally_step a t) \<and> counted (tally_step a t) (snd (serve a (ps, tm)))"
proof (cases a)
  case (Enter meth path)
  then show ?thesis using assms by (simp add: middleware_defs counted_def value_at_inc)
next
  case (Finish k status)
  then show ?thesis using assms by (simp add: middleware_defs counted_def value_at_inc count_drop_nth)
next
  case (CutOff k)
  then show ?thesis using assms by (simp add: counted_def count_drop_nth drop_nth_short)
qed

lemma serve_summed:
  assumes "ps = ta_open t" and "summed t tm"
  shows "summed (tally_step a t) (snd (serve a (ps, tm)))"
proof (cases a)
  case (Enter meth path)
  then show ?thesis using assms by (simp add: middleware_defs summed_def sum_inc distinct_inc)
next
  case (Finish k status)
  then show ?thesis using assms by (auto simp: middleware_defs summed_def sum_inc distinct_inc count_drop_nth)
next
  case (CutOff k)
  then show ?thesis using assms by (auto simp: summed_def count_drop_nth drop_nth_short)
qed

lemma serve_all:
  assumes "ps = ta_open t" and "counted t tm" and "summed t tm"
  shows "fst (fold serve as (ps, tm)) = ta_open (fold tally_step as t) \<and>
    counted (fold tally_step as t) (snd (fold serve as (ps, tm))) \<and>
    summed (fold tally_step as t) (snd (fold serve as (ps, tm)))"
  using assms
proof (induction as arbitrary: ps tm t)
  case (Cons a as)
  obtain ps' tm' where s: "serve a (ps, tm) = (ps', tm')" by force
  show ?case
    using Cons.IH[of ps' "tally_step a t" tm'] serve_tally[OF Cons.prems(1,2), of a] serve_summed[OF Cons.prems(1,3), of a]
    by (simp add: s)
qed simp

definition gateway_telemetry :: "traffic list \<Rightarrow> telemetry" where
  "gateway_telemetry as = snd (fold serve as ([], no_telemetry))"

definition gateway_tally :: "traffic list \<Rightarrow> traffic_tally" where
  "gateway_tally as = fold tally_step as no_tally"

lemma tally_bound:
  "length (ta_open (fold tally_step as t)) + length (ta_done (fold tally_step as t)) + length (ta_lost (fold tally_step as t))
     \<le> length as + length (ta_open t) + length (ta_done t) + length (ta_lost t)"
proof (induction as arbitrary: t)
  case (Cons a as)
  have "length (ta_open (tally_step a t)) + length (ta_done (tally_step a t)) + length (ta_lost (tally_step a t))
     \<le> Suc (length (ta_open t) + length (ta_done t) + length (ta_lost t))"
    by (cases a) (auto simp: drop_nth_def)
  with Cons.IH[of "tally_step a t"] show ?case by simp
qed simp

text \<open>
  The middleware counts what happened, label by label; but a response that is cut off is
  counted as active for ever.
\<close>

lemma telemetry_counts:
  "counted (gateway_tally as) (gateway_telemetry as)" "summed (gateway_tally as) (gateway_telemetry as)"
  using serve_all[of "[]" no_tally no_telemetry as]
  by (simp_all add: gateway_telemetry_def gateway_tally_def no_tally_def no_telemetry_def counted_def summed_def)

lemma cut_off_stays_active:
  "value_at ''payment-service'' (tm_active (gateway_telemetry [Enter ''GET'' ''/payments'', CutOff 0])) = 1"
  by (simp add: gateway_telemetry_def middleware_defs resolveServiceName_def starts_with_def no_telemetry_def)

end
