(* ===== verification/AdminConsole.thy ===== *)
theory AdminConsole
  imports Telemetry
begin

text \<open>
  The administration page of the web application (\<open>pages/AdminPage.jsx\<close>) with its queries
  (\<open>hooks/useAdmin.js\<close>, \<open>api/adminApi.js\<close>): the reader of the Prometheus text, the health of the
  dependencies and the cards of the circuit breakers.
\<close>

subsection \<open>The reader of the exposition text\<close>

text \<open>\<^const>\<open>None\<close> is the text \<open>Unavailable\<close>.\<close>

record console_metrics =
  cm_requests :: "rat option"
  cm_errors :: "rat option"
  cm_active :: "rat option"
  cm_allowed :: "rat option"
  cm_blocked :: "rat option"

definition unavailable :: console_metrics where
  "unavailable = \<lparr>cm_requests = None, cm_errors = None, cm_active = None, cm_allowed = None, cm_blocked = None\<rparr>"

text \<open>The five sums and the four \<open>found\<close> flags of the loop.\<close>

record reader =
  rx_requests :: rat
  rx_errors :: rat
  rx_active :: rat
  rx_allowed :: rat
  rx_blocked :: rat
  rx_foundRequests :: bool
  rx_foundErrors :: bool
  rx_foundActive :: bool
  rx_foundBlocked :: bool

definition reader_start :: reader where
  "reader_start = \<lparr>rx_requests = 0, rx_errors = 0, rx_active = 0, rx_allowed = 0, rx_blocked = 0,
     rx_foundRequests = False, rx_foundErrors = False, rx_foundActive = False, rx_foundBlocked = False\<rparr>"

text \<open>The last part of \<open>trimmed.split(/\s+/)\<close>\<close>

definition last_field :: "string \<Rightarrow> string" where
  "last_field s = rev (takeWhile (\<lambda>c. \<not> is_space c) (rev s))"

definition read_value :: "string \<Rightarrow> rat \<Rightarrow> reader \<Rightarrow> reader" where
  "read_value trimmed v x =
     (if starts_with ''vaultcore_http_requests_total'' trimmed
        then x\<lparr>rx_requests := js_add (rx_requests x) v, rx_foundRequests := True\<rparr>
      else if starts_with ''vaultcore_http_errors_total'' trimmed
        then x\<lparr>rx_errors := js_add (rx_errors x) v, rx_foundErrors := True\<rparr>
      else if starts_with ''vaultcore_http_active_requests'' trimmed
        then x\<lparr>rx_active := js_add (rx_active x) v, rx_foundActive := True\<rparr>
      else if starts_with ''vaultcore_rate_limit_allowed_total'' trimmed
        then x\<lparr>rx_allowed := js_add (rx_allowed x) v\<rparr>
      else if starts_with ''vaultcore_rate_limit_blocked_total'' trimmed
        then x\<lparr>rx_blocked := js_add (rx_blocked x) v, rx_foundBlocked := True\<rparr>
      else x)"

definition read_line :: "(string \<Rightarrow> rat option) \<Rightarrow> string \<Rightarrow> reader \<Rightarrow> reader" where
  "read_line parseFloat line x =
     (let trimmed = js_trim line
      in if starts_with ''#'' trimmed \<or> trimmed = '''' then x
         else case parseFloat (last_field trimmed) of None \<Rightarrow> x | Some v \<Rightarrow> read_value trimmed v x)"

definition found_or :: "bool \<Rightarrow> rat \<Rightarrow> bool \<Rightarrow> rat option" where
  "found_or found v other = (if found then Some v else if other then Some 0 else None)"

definition parsePrometheusText :: "(string \<Rightarrow> rat option) \<Rightarrow> string option \<Rightarrow> console_metrics" where
  "parsePrometheusText parseFloat text =
     (case text of None \<Rightarrow> unavailable
      | Some t \<Rightarrow>
          if js_trim t = '''' then unavailable
          else let x = fold (read_line parseFloat) (split_on (CHR 0x0A) t) reader_start
            in \<lparr>cm_requests = found_or (rx_foundRequests x) (rx_requests x) False,
                cm_errors = found_or (rx_foundErrors x) (rx_errors x) (rx_foundRequests x),
                cm_active = found_or (rx_foundActive x) (rx_active x) False,
                cm_allowed = Some (rx_allowed x),
                cm_blocked = found_or (rx_foundBlocked x) (rx_blocked x) (rx_foundRequests x)\<rparr>)"

subsection \<open>The health of the dependencies\<close>

text \<open>What \<open>HealthChecker.getReadiness\<close> answers.\<close>

record readiness =
  rd_status :: string
  rd_infrastructure :: "(string \<times> string) list"
  rd_microservices :: "(string \<times> string) list"

definition up_down :: "bool \<Rightarrow> string" where
  "up_down u = (if u then ''UP'' else ''DOWN'')"

definition readiness_answer :: "bool \<Rightarrow> bool \<Rightarrow> bool \<Rightarrow> (string \<times> bool) list \<Rightarrow> readiness" where
  "readiness_answer postgres redis rabbitmq services =
     \<lparr>rd_status = getReadiness postgres redis rabbitmq services,
      rd_infrastructure = [(''postgres'', up_down postgres), (''redis'', up_down redis), (''rabbitmq'', up_down rabbitmq)],
      rd_microservices = map (\<lambda>(n, u). (n, up_down u)) services\<rparr>"

text \<open>\<open>adminApi.getReadiness\<close>: the body of an error response counts as an answer.\<close>

datatype 'd settled = Fulfilled 'd | Rejected

definition adminApi_getReadiness :: "'d option + 'd \<Rightarrow> 'd settled" where
  "adminApi_getReadiness reply =
     (case reply of Inr body \<Rightarrow> Fulfilled body | Inl (Some body) \<Rightarrow> Fulfilled body | Inl None \<Rightarrow> Rejected)"

record health_data =
  hd_overview :: "string option" \<comment> \<open>\<open>overview.status\<close>\<close>
  hd_readiness :: "readiness option"
  hd_outbox :: "string option" \<comment> \<open>\<open>outbox.status\<close>\<close>
  hd_isReady :: bool

definition fulfilled :: "'d option settled \<Rightarrow> 'd option" where
  "fulfilled r = (case r of Fulfilled d \<Rightarrow> d | Rejected \<Rightarrow> None)"

text \<open>\<open>Promise.allSettled\<close>: a query that fails leaves an empty object.\<close>

definition useAdminHealth ::
    "string option settled \<Rightarrow> readiness option settled \<Rightarrow> string option settled \<Rightarrow> health_data" where
  "useAdminHealth overview readiness outbox =
     \<lparr>hd_overview = fulfilled overview, hd_readiness = fulfilled readiness, hd_outbox = fulfilled outbox,
      hd_isReady = (map_option rd_status (fulfilled readiness) = Some ''READY'')\<rparr>"

text \<open>A failed query is retried once, but not after 404; it stops polling.\<close>

definition admin_retry :: "nat \<Rightarrow> nat option \<Rightarrow> bool" where
  "admin_retry failureCount status \<longleftrightarrow> status \<noteq> Some 404 \<and> failureCount < 1"

definition admin_refetchInterval :: "bool \<Rightarrow> nat option" where
  "admin_refetchInterval failed = (if failed then None else Some 15000)"

text \<open>
  The tiles of the page; \<^const>\<open>None\<close> is the dash that is shown while the query is loading. A tile
  has an icon and a text.
\<close>

datatype icon = Healthy_icon | Warning_icon | Down_icon

definition getServiceStatusDisplay :: "string option \<Rightarrow> icon \<times> string" where
  "getServiceStatusDisplay status =
     (case status of None \<Rightarrow> (Down_icon, ''Down'')
      | Some st \<Rightarrow>
         (let s = to_upper st
          in if s \<in> {''UP'', ''HEALTHY'', ''READY'', ''ACTIVE''}
               then (Healthy_icon, if s = ''UP'' then ''Healthy'' else if s = ''READY'' then ''Healthy'' else s)
             else if s \<in> {''DEGRADED'', ''WARN'', ''SLOW'', ''HALF_OPEN''} then (Warning_icon, ''Degraded'')
             else (Down_icon, ''Down'')))"

definition dep_status :: "bool \<Rightarrow> string \<Rightarrow> string option \<Rightarrow> string option" where
  "dep_status isLoading other st = (if truthy st then st else if isLoading then None else Some other)"

definition infra_status :: "string \<Rightarrow> health_data option \<Rightarrow> string option" where
  "infra_status n h = Option.bind (Option.bind h hd_readiness) (\<lambda>r. map_of (rd_infrastructure r) n)"

definition service_status :: "string \<Rightarrow> health_data option \<Rightarrow> string option" where
  "service_status n h = Option.bind (Option.bind h hd_readiness) (\<lambda>r. map_of (rd_microservices r) n)"

definition health_tiles :: "bool \<Rightarrow> health_data option \<Rightarrow> (string \<times> string option) list" where
  "health_tiles isLoading h =
     [(''Gateway Node'', dep_status isLoading ''HEALTHY'' (Option.bind h hd_overview)),
      (''PostgreSQL DB'', dep_status isLoading ''UP'' (infra_status ''postgres'' h)),
      (''Redis DB0'', dep_status isLoading ''UP'' (infra_status ''redis'' h)),
      (''RabbitMQ'', dep_status isLoading ''UP'' (infra_status ''rabbitmq'' h)),
      (''Auth Service'', dep_status isLoading ''UP'' (service_status ''auth'' h)),
      (''Account Service'', dep_status isLoading ''UP'' (service_status ''account'' h)),
      (''Payment Service'', dep_status isLoading ''UP'' (service_status ''payment'' h)),
      (''Ledger Service'', dep_status isLoading ''UP'' (service_status ''ledger'' h)),
      (''Notification'', dep_status isLoading ''UP'' (service_status ''notification'' h)),
      (''Outbox Worker'',
        if truthy (Option.bind h hd_outbox) then Some ''ACTIVE''
        else if service_status ''payment'' h = Some ''UP'' then Some ''ACTIVE'' else Some ''DEGRADED'')]"

definition health_display :: "bool \<Rightarrow> health_data option \<Rightarrow> (string \<times> icon \<times> string) list" where
  "health_display isLoading h = map (\<lambda>(n, st). (n, getServiceStatusDisplay st)) (health_tiles isLoading h)"

subsection \<open>The cards of the circuit breakers\<close>

text \<open>
  The numbers on the first level of the status the gateway answers, by their JSON name. The page
  reads \<open>failureCount\<close>, \<open>failFastCount\<close>, \<open>recoveryCount\<close> and \<open>lastStateChange\<close>.
\<close>

definition status_number :: "cb_status \<Rightarrow> string \<Rightarrow> nat option" where
  "status_number st = map_of
     [(''failureThreshold'', FAILURE_THRESHOLD), (''successThreshold'', SUCCESS_THRESHOLD),
      (''openTimeoutMs'', OPEN_TIMEOUT_MS), (''consecutiveFailures'', st_consecutiveFailures st),
      (''halfOpenSuccessCount'', st_halfOpenSuccessCount st),
      (''secondsUntilHalfOpen'', st_secondsUntilHalfOpen st)]"

datatype chip = Closed_chip | Half_open_chip | Open_chip

definition getCircuitStateChip :: "circuit_state \<Rightarrow> chip" where
  "getCircuitStateChip st = (case st of CB_CLOSED \<Rightarrow> Closed_chip | CB_HALF_OPEN \<Rightarrow> Half_open_chip | CB_OPEN \<Rightarrow> Open_chip)"

record breaker_card =
  card_name :: string
  card_chip :: chip
  card_failures :: nat
  card_failFast :: nat
  card_recoveries :: nat
  card_initialized :: bool \<comment> \<open>shows \<open>Initialized\<close> instead of a time\<close>

definition or_zero :: "nat option \<Rightarrow> nat" where
  "or_zero v = (case v of None \<Rightarrow> 0 | Some n \<Rightarrow> n)"

text \<open>Without a breaker under either name the card shows a closed one that changed just now.\<close>

definition breaker_card_of :: "string \<Rightarrow> cb_status option \<Rightarrow> breaker_card" where
  "breaker_card_of name st =
     (case st of
        None \<Rightarrow> \<lparr>card_name = name, card_chip = Closed_chip, card_failures = 0, card_failFast = 0,
          card_recoveries = 0, card_initialized = False\<rparr>
      | Some x \<Rightarrow> \<lparr>card_name = name, card_chip = getCircuitStateChip (st_state x),
          card_failures = or_zero (status_number x ''failureCount''),
          card_failFast = or_zero (status_number x ''failFastCount''),
          card_recoveries = or_zero (status_number x ''recoveryCount''),
          card_initialized = (status_number x ''lastStateChange'' = None)\<rparr>)"

definition either_name :: "string \<Rightarrow> string \<Rightarrow> (string \<times> cb_status) list \<Rightarrow> cb_status option" where
  "either_name a b reply = (case map_of reply a of Some st \<Rightarrow> Some st | None \<Rightarrow> map_of reply b)"

definition breakersList :: "(string \<times> cb_status) list \<Rightarrow> breaker_card list" where
  "breakersList reply =
     [breaker_card_of ''Ledger Service'' (either_name ''ledger'' ''ledger-service'' reply),
      breaker_card_of ''RabbitMQ Publisher'' (either_name ''rabbitmq'' ''rabbitmq-publisher'' reply),
      breaker_card_of ''Notification Service'' (either_name ''notification'' ''notification-service'' reply)]"

subsection \<open>What the page shows of the dependencies\<close>

definition five_services :: "bool \<Rightarrow> bool \<Rightarrow> bool \<Rightarrow> bool \<Rightarrow> bool \<Rightarrow> (string \<times> bool) list" where
  "five_services auth account payment ledger notification =
     [(''auth'', auth), (''account'', account), (''payment'', payment), (''ledger'', ledger), (''notification'', notification)]"

lemma display_up_down: "fst (getServiceStatusDisplay (Some (up_down u))) = (if u then Healthy_icon else Down_icon)"
  unfolding up_down_def by (cases u) (simp_all add: getServiceStatusDisplay_def to_upper_def Let_def)

lemma truthy_up_down: "truthy (Some (up_down u))"
  by (simp add: up_down_def)

text \<open>Once the readiness has been answered, each tile shows a dependency as it is.\<close>

lemma tiles_right:
  assumes "h = useAdminHealth ov (Fulfilled (Some (readiness_answer pg rd mq (five_services au ac pa le no)))) ob"
  shows "map (fst \<circ> snd) (take 8 (drop 1 (health_display l (Some h)))) =
    map (\<lambda>u. if u then Healthy_icon else Down_icon) [pg, rd, mq, au, ac, pa, le, no]"
    and "hd_isReady h \<longleftrightarrow> pg \<and> rd \<and> mq"
  using assms
  by (simp_all add: health_display_def health_tiles_def useAdminHealth_def fulfilled_def readiness_answer_def
      five_services_def infra_status_def service_status_def dep_status_def truthy_up_down display_up_down getReadiness_def)

text \<open>When no query gets an answer, the page still shows every dependency as healthy.\<close>

lemma outage_looks_healthy:
  "map (fst \<circ> snd) (health_display False (Some (useAdminHealth Rejected Rejected Rejected))) =
     replicate 9 Healthy_icon @ [Warning_icon]"
  by code_simp

text \<open>
  The state on a card is that of the breaker, but the numbers are always zero, and the time of
  the last transition is never shown: the status has no fields of those names.
\<close>

lemma breaker_cards:
  "c \<in> set (breakersList reply) \<Longrightarrow> card_failures c = 0 \<and> card_failFast c = 0 \<and> card_recoveries c = 0"
  "map_of reply ''ledger'' = None \<Longrightarrow> map_of reply ''ledger-service'' = Some st \<Longrightarrow>
     card_chip (hd (breakersList reply)) = getCircuitStateChip (st_state st) \<and> card_initialized (hd (breakersList reply))"
  by (auto simp: breakersList_def breaker_card_of_def either_name_def status_number_def or_zero_def split: option.splits)

subsection \<open>What the page shows of the traffic\<close>

text \<open>
  The lines of the exposition text the reader looks at, in the order of the counters: the name of
  the metric, its labels, a blank and the value. All other lines are comments, blank or of other
  metrics.
\<close>

definition console_metric :: "string \<Rightarrow> bool" where
  "console_metric t \<longleftrightarrow>
     starts_with ''vaultcore_http_requests_total'' t \<or> starts_with ''vaultcore_http_errors_total'' t \<or>
     starts_with ''vaultcore_http_active_requests'' t \<or> starts_with ''vaultcore_rate_limit_allowed_total'' t \<or>
     starts_with ''vaultcore_rate_limit_blocked_total'' t"

definition traffic_samples :: "telemetry \<Rightarrow> (string \<times> nat) list" where
  "traffic_samples tm =
     map (\<lambda>e. (''vaultcore_http_requests_total'', nat (snd e))) (tm_total tm) @
     map (\<lambda>e. (''vaultcore_http_errors_total'', nat (snd e))) (tm_errors tm) @
     map (\<lambda>e. (''vaultcore_http_active_requests'', nat (snd e))) (tm_active tm)"

definition sample_line :: "string \<Rightarrow> string \<times> nat \<Rightarrow> bool" where
  "sample_line t x \<longleftrightarrow> starts_with (fst x) t \<and> last_field t = show_nat (snd x)"

definition exposes :: "string \<Rightarrow> telemetry \<Rightarrow> bool" where
  "exposes text tm \<longleftrightarrow>
     list_all2 sample_line (filter console_metric (map js_trim (split_on (CHR 0x0A) text))) (traffic_samples tm)"

definition read_trimmed :: "(string \<Rightarrow> rat option) \<Rightarrow> string \<Rightarrow> reader \<Rightarrow> reader" where
  "read_trimmed parseFloat t x =
     (case parseFloat (last_field t) of None \<Rightarrow> x | Some v \<Rightarrow> read_value t v x)"

lemma not_comment: "console_metric t \<Longrightarrow> \<not> starts_with ''#'' t \<and> t \<noteq> ''''"
  by (cases t) (auto simp: console_metric_def starts_with_def)

lemma read_line_metric:
  "read_line pf s x = (if console_metric (js_trim s) then read_trimmed pf (js_trim s) x else x)"
proof (cases "console_metric (js_trim s)")
  case True
  with not_comment[OF True] show ?thesis by (simp add: read_line_def read_trimmed_def Let_def)
next
  case False
  then have "read_value (js_trim s) v x = x" for v
    unfolding read_value_def console_metric_def by simp
  with False show ?thesis by (simp add: read_line_def Let_def split: option.split)
qed

lemma read_lines:
  "fold (read_line pf) ls x = fold (read_trimmed pf) (filter console_metric (map js_trim ls)) x"
  by (induction ls arbitrary: x) (simp_all add: read_line_metric)

lemma starts_with_eq: "starts_with p s \<longleftrightarrow> (\<exists>r. s = p @ r)"
  unfolding starts_with_def by (metis append_eq_conv_conj append_take_drop_id)

lemma js_sum_nat:
  "a + sum_list vs < 2 ^ 53 \<Longrightarrow> fold (\<lambda>v r. js_add r (of_nat v)) vs (of_nat a) = (of_nat (a + sum_list vs) :: rat)"
proof (induction vs arbitrary: a)
  case (Cons v vs)
  have "js_add (of_nat a) (of_nat v) = fl (of_int (int (a + v)))" by (simp add: js_add_def)
  also have "\<dots> = of_nat (a + v)" using Cons.prems by (subst fl_int) simp_all
  finally show ?case using Cons.IH[of "a + v"] Cons.prems by (simp add: add.assoc)
qed simp

lemma read_block:
  assumes "list_all2 sample_line ts (map (\<lambda>v. (n, v)) vs)"
    and "\<And>v. v \<in> set vs \<Longrightarrow> pf (show_nat v) = Some (of_nat v)"
    and upd: "\<And>t v x. starts_with n t \<Longrightarrow> read_value t v x = upd (\<lambda>r. js_add r v) x"
    and comp: "\<And>f g x. upd f (upd g x) = upd (\<lambda>r. f (g r)) x"
  shows "fold (read_trimmed pf) ts x = (if vs = [] then x else upd (\<lambda>r. fold (\<lambda>v r. js_add r (of_nat v)) vs r) x)"
  using assms(1,2)
proof (induction vs arbitrary: ts x)
  case (Cons v vs)
  then obtain t ts' where ts: "ts = t # ts'" and t: "starts_with n t" "last_field t = show_nat v"
    and r: "list_all2 sample_line ts' (map (\<lambda>v. (n, v)) vs)"
    by (auto simp: list_all2_Cons2 sample_line_def[of _ "(n, v)"])
  have "read_trimmed pf t x = upd (\<lambda>r. js_add r (of_nat v)) x"
    using t Cons.prems(2)[of v] upd[OF t(1)] by (simp add: read_trimmed_def)
  then show ?case using Cons.IH[OF r] Cons.prems(2) by (simp add: ts comp comp_def)
qed simp

lemma read_value_names:
  "starts_with ''vaultcore_http_requests_total'' t \<Longrightarrow>
     read_value t v x = x\<lparr>rx_requests := js_add (rx_requests x) v, rx_foundRequests := True\<rparr>"
  "starts_with ''vaultcore_http_errors_total'' t \<Longrightarrow>
     read_value t v x = x\<lparr>rx_errors := js_add (rx_errors x) v, rx_foundErrors := True\<rparr>"
  "starts_with ''vaultcore_http_active_requests'' t \<Longrightarrow>
     read_value t v x = x\<lparr>rx_active := js_add (rx_active x) v, rx_foundActive := True\<rparr>"
  by (simp add: read_value_def) (auto simp: read_value_def starts_with_eq)

lemma js_sum_0: "sum_list vs < 2 ^ 53 \<Longrightarrow> fold (\<lambda>v r. js_add r (of_nat v)) vs 0 = (of_nat (sum_list vs) :: rat)"
  using js_sum_nat[of 0 vs] by simp

lemma read_samples:
  assumes samples: "list_all2 sample_line ts (map (Pair ''vaultcore_http_requests_total'') qs @
      map (Pair ''vaultcore_http_errors_total'') es @ map (Pair ''vaultcore_http_active_requests'') as)"
    and pf: "\<And>v. v < 2 ^ 53 \<Longrightarrow> pf (show_nat v) = Some (of_nat v)"
    and small: "sum_list qs < 2 ^ 53" "sum_list es < 2 ^ 53" "sum_list as < 2 ^ 53"
  shows "fold (read_trimmed pf) ts reader_start =
    reader_start\<lparr>rx_requests := of_nat (sum_list qs), rx_foundRequests := (qs \<noteq> []),
      rx_errors := of_nat (sum_list es), rx_foundErrors := (es \<noteq> []),
      rx_active := of_nat (sum_list as), rx_foundActive := (as \<noteq> [])\<rparr>"
proof -
  obtain t1 t2 t3 where ts: "ts = t1 @ t2 @ t3"
    and a: "list_all2 sample_line t1 (map (Pair ''vaultcore_http_requests_total'') qs)"
      "list_all2 sample_line t2 (map (Pair ''vaultcore_http_errors_total'') es)"
      "list_all2 sample_line t3 (map (Pair ''vaultcore_http_active_requests'') as)"
    using samples by (auto simp: list_all2_append2)
  have each: "v < 2 ^ 53" if "v \<in> set vs" "sum_list vs < 2 ^ 53" for v :: nat and vs
    using member_le_sum_list[OF that(1)] that(2) by simp
  note b = read_block[where pf = pf]
  have 1: "fold (read_trimmed pf) t1 x = (if qs = [] then x else x\<lparr>rx_requests := fold (\<lambda>v r. js_add r (of_nat v)) qs (rx_requests x), rx_foundRequests := True\<rparr>)" for x
    by (rule b[OF a(1), where upd = "\<lambda>f x. x\<lparr>rx_requests := f (rx_requests x), rx_foundRequests := True\<rparr>"])
      (auto intro: pf each[OF _ small(1)] simp: read_value_names)
  have 2: "fold (read_trimmed pf) t2 x = (if es = [] then x else x\<lparr>rx_errors := fold (\<lambda>v r. js_add r (of_nat v)) es (rx_errors x), rx_foundErrors := True\<rparr>)" for x
    by (rule b[OF a(2), where upd = "\<lambda>f x. x\<lparr>rx_errors := f (rx_errors x), rx_foundErrors := True\<rparr>"])
      (auto intro: pf each[OF _ small(2)] simp: read_value_names)
  have 3: "fold (read_trimmed pf) t3 x = (if as = [] then x else x\<lparr>rx_active := fold (\<lambda>v r. js_add r (of_nat v)) as (rx_active x), rx_foundActive := True\<rparr>)" for x
    by (rule b[OF a(3), where upd = "\<lambda>f x. x\<lparr>rx_active := f (rx_active x), rx_foundActive := True\<rparr>"])
      (auto intro: pf each[OF _ small(3)] simp: read_value_names)
  show ?thesis
    by (simp add: ts 1 2 3 js_sum_0[OF small(1)] js_sum_0[OF small(2)] js_sum_0[OF small(3)] reader_start_def)
qed

text \<open>Text without anything but blanks has no line of a metric.\<close>

lemma js_trim_Nil: "js_trim s = '''' \<longleftrightarrow> list_all is_space s"
proof -
  have "set s = set (takeWhile is_space s) \<union> set (dropWhile is_space s)"
    by (metis set_append takeWhile_dropWhile_id)
  then have "(\<forall>c \<in> set (dropWhile is_space s). is_space c) \<longleftrightarrow> (\<forall>c \<in> set s. is_space c)"
    by (metis Un_iff set_takeWhileD)
  then show ?thesis by (simp add: js_trim_def dropWhile_eq_Nil_conv list_all_iff)
qed

lemma set_split_on: "l \<in> set (split_on c s) \<Longrightarrow> set l \<subseteq> set s"
proof (induction c s arbitrary: l rule: split_on.induct)
  case (2 c x xs)
  show ?case
  proof (cases "l \<in> set (split_on c xs) \<or> l = []")
    case True
    with 2 show ?thesis by (cases "x = c") auto
  next
    case False
    with 2(3) have "x \<noteq> c" by auto
    with False 2(3) split_on_nonempty[of c xs] obtain y ys where "split_on c xs = y # ys" "l = x # y"
      by (cases "split_on c xs") auto
    with 2(2)[OF \<open>x \<noteq> c\<close>, of y] show ?thesis by auto
  qed
qed simp

lemma blank_lines:
  assumes "js_trim text = ''''"
  shows "filter console_metric (map js_trim (split_on c text)) = []"
proof -
  have "js_trim l = ''''" if "l \<in> set (split_on c text)" for l
    using assms set_split_on[OF that] by (auto simp: js_trim_Nil list_all_iff)
  moreover have "\<not> console_metric ''''" using not_comment[of "''''"] by blast
  ultimately show ?thesis by (simp add: filter_empty_conv)
qed

text \<open>The values of a sample list are those of the counters.\<close>

lemma nonneg_entries:
  assumes "distinct (map fst xs)" and "\<And>k. 0 \<le> value_at k xs"
  shows "int (sum_list (map (\<lambda>e. nat (snd e)) xs)) = sum_of xs"
proof -
  have "0 \<le> snd e" if "e \<in> set xs" for e
    using value_at_mem[OF assms(1), of "fst e" "snd e"] assms(2)[of "fst e"] that by simp
  then show ?thesis by (induction xs) auto
qed

lemma gateway_samples:
  fixes acts :: "traffic list"
  defines "t \<equiv> gateway_tally acts" and "tm \<equiv> gateway_telemetry acts"
  shows "sum_list (map (\<lambda>e. nat (snd e)) (tm_total tm)) = length (ta_done t)"
    and "sum_list (map (\<lambda>e. nat (snd e)) (tm_errors tm)) = length (filter (\<lambda>(r, s). 400 \<le> s) (ta_done t))"
    and "sum_list (map (\<lambda>e. nat (snd e)) (tm_active tm)) = length (ta_open t) + length (ta_lost t)"
proof -
  note c = telemetry_counts[of acts, folded t_def tm_def]
  have "0 \<le> value_at k (tm_total tm)" "0 \<le> value_at k (tm_errors tm)" for k
    using c(1) by (simp_all add: counted_def count_if_def)
  moreover have "0 \<le> value_at v (tm_active tm)" for v
    using c(1) by (simp add: counted_def count_if_def)
  moreover have "distinct (map fst (tm_total tm))" "distinct (map fst (tm_errors tm))" "distinct (map fst (tm_active tm))"
    using c(2) by (simp_all add: summed_def)
  ultimately have sums: "int (sum_list (map (\<lambda>e. nat (snd e)) (tm_total tm))) = sum_of (tm_total tm)"
    "int (sum_list (map (\<lambda>e. nat (snd e)) (tm_errors tm))) = sum_of (tm_errors tm)"
    "int (sum_list (map (\<lambda>e. nat (snd e)) (tm_active tm))) = sum_of (tm_active tm)"
    by (simp_all add: nonneg_entries)
  from sums show "sum_list (map (\<lambda>e. nat (snd e)) (tm_total tm)) = length (ta_done t)"
    "sum_list (map (\<lambda>e. nat (snd e)) (tm_errors tm)) = length (filter (\<lambda>(r, s). 400 \<le> s) (ta_done t))"
    "sum_list (map (\<lambda>e. nat (snd e)) (tm_active tm)) = length (ta_open t) + length (ta_lost t)"
    using c(2) by (simp_all add: summed_def count_if_def)
qed


definition decimal_value :: "string \<Rightarrow> nat" where
  "decimal_value s = foldl (\<lambda>n c. 10 * n + (of_char c - 48)) 0 s"

lemma decimal_value_show: "decimal_value (show_nat n) = n"
proof (induction n rule: show_nat.induct)
  case (1 n)
  have digit: "of_char (char_of (48 + m mod 10) :: char) = 48 + m mod 10" for m :: nat
    by (simp add: of_char_of)
  show ?case
  proof (cases "n < 10")
    case True
    then show ?thesis by (simp add: show_nat.simps[of n] decimal_value_def digit_def digit)
  next
    case False
    then show ?thesis using 1 by (simp add: show_nat.simps[of n] decimal_value_def digit_def digit)
  qed
qed

definition sample_traffic :: "traffic list" where
  "sample_traffic = [Enter ''GET'' ''/a'', Enter ''GET'' ''/b'', Finish 0 503]"

definition sample_text :: string where
  "sample_text = join_with [CHR 0x0A]
     [''# HELP vaultcore_http_requests_total Total number of HTTP requests'',
      ''vaultcore_http_requests_total{path=0x22/a0x22} 1'', ''vaultcore_http_errors_total{path=0x22/a0x22} 1'',
      ''vaultcore_http_active_requests{service=0x22gateway0x22} 1'', ''vaultcore_process_cpu_seconds_total 0.5'']"

lemma sample_exposes: "exposes sample_text (gateway_telemetry sample_traffic)"
proof -
  have "traffic_samples (gateway_telemetry sample_traffic) =
    [(''vaultcore_http_requests_total'', 1), (''vaultcore_http_errors_total'', 1), (''vaultcore_http_active_requests'', 1)]"
    by code_simp
  moreover have "filter console_metric (map js_trim (split_on (CHR 0x0A) sample_text)) =
     [''vaultcore_http_requests_total{path=0x22/a0x22} 1'', ''vaultcore_http_errors_total{path=0x22/a0x22} 1'',
      ''vaultcore_http_active_requests{service=0x22gateway0x22} 1'']"
    by code_simp
  moreover have "show_nat 1 = ''1''" by code_simp
  ultimately show ?thesis
    by (simp add: exposes_def sample_line_def starts_with_def last_field_def is_space_def)
qed


end
