(* ===== verification/Spec2Isabelle.thy ===== *)
theory Spec2Isabelle
  imports Prelude JSNum Http Redis LockService Database Ledger LedgerProps CircuitBreaker
    LedgerClient AccountCache Accounts Payment PaymentProps Paging GatewayAuth RateLimiter
    RateLimiterProps Messages Outbox OutboxProps Notification NotificationProps Gateway
    GatewayEvents Auth AuthProps PaymentQueries BrowserStorage WebClient WebClientProps EventStream
    Realtime WebForms WebPages WebViews WebApi WebAccess Telemetry AdminConsole
begin

text \<open>
  VaultCore, a bank of five services behind a gateway, with a web application.

  This development models the JavaScript of the repository: the shared package (\<open>shared/src\<close>), the auth,
  account, ledger, payment and notification service and the gateway (\<open>services/*/src\<close>), and the logic of the
  web application (\<open>frontend/src\<close>). All paths are relative to the root of the repository.

  \<^bold>\<open>How the parts interact.\<close> A browser keeps an access token and sends requests to the gateway, which
  limits their rate (Redis DB0), verifies the token, and forwards them with identity headers through a
  circuit breaker. The payment service handles a transfer: it answers a known idempotency key from
  Redis (DB2) or from its table, locks both accounts in Redis, writes a PENDING row, asks the ledger
  service over HTTP (with retries behind a breaker) to post the two entries, and records the result
  together with outbox events in one transaction. The ledger changes balances with optimistic locking in
  a transaction of its own, on the same PostgreSQL tables. The outbox worker publishes the events to
  RabbitMQ; the notification service consumes them, delivers e-mail and SMS, and keeps an audit; the
  gateway consumes them too and pushes them to the browsers as server-sent events. The account service
  reads accounts through a cache in Redis (DB1), which the payment service invalidates.

  \<^bold>\<open>Which theory models what.\<close> State is a record that every operation takes and returns; a throw is the
  left side of a sum; a database transaction that throws returns the old tables; a handler that several
  parties run interleaved is a step of an inductive relation.

  \<^item> \<open>Prelude\<close>: results, truthy values, lists as tables, numbers as text. \<open>JSNum\<close>: IEEE doubles as rationals with
    rounding to 53 bits; amounts in cents; the locale \<open>decimal_codec\<close> of the Decimal(18, 2) columns.
  \<^item> \<open>Http\<close>: \<open>shared/src/utils\<close> and \<open>middleware\<close> (errors, responses, \<open>authenticateToken\<close>, \<open>authorizeRoles\<close>, tracing,
    \<open>validateRequest\<close>). \<open>Redis\<close>: the commands the services use, as a record of functions with the locale \<open>redis_kv\<close>,
    and a connection that may fail. \<open>Paging\<close>: cursor pages. \<open>Database\<close>: the tables of \<open>schema.prisma\<close>.
  \<^item> \<open>LockService\<close>: \<open>shared/src/lock/lockService.js\<close>. \<open>CircuitBreaker\<close>: \<open>shared/src/resilience\<close>. \<open>AccountCache\<close>:
    \<open>shared/src/cache/accountCache.js\<close>, with the locale \<open>read_cache\<close> that both of its caches interpret. \<open>RateLimiter\<close>,
    \<open>RateLimiterProps\<close>: \<open>shared/src/rate-limit\<close> and the gateway's \<open>rateLimiter.js\<close>, over the locale \<open>redis_zsets\<close>.
  \<^item> \<open>Ledger\<close>, \<open>LedgerProps\<close>: \<open>ledgerRepository.js\<close>, \<open>ledgerService.js\<close>, controllers and validators; the abstract book of
    accounts and entries the postings refine.
  \<^item> \<open>LedgerClient\<close>: the client with its retries. \<open>Accounts\<close>: the account service. \<open>Payment\<close>, \<open>PaymentProps\<close>: transfers,
    deposits and withdrawals with locks, cache, breaker, client and ledger composed as the code composes
    them. \<open>PaymentQueries\<close>: history, search, summary.
  \<^item> \<open>Auth\<close>, \<open>AuthProps\<close>: the auth service, with the locales \<open>auth_laws\<close> (password hashes, tokens) and \<open>auth_service\<close>.
  \<^item> \<open>Messages\<close>, \<open>Outbox\<close>, \<open>OutboxProps\<close>: messages, the outbox table and its worker. \<open>Notification\<close>, \<open>NotificationProps\<close>: the
    consumer, its retries and dead letters, the audit, the queries.
  \<^item> \<open>GatewayAuth\<close>, \<open>Gateway\<close>: \<open>gatewayAuth.js\<close>, \<open>proxyFactory.js\<close>, the order of mounts in \<open>app.js\<close>, health probes.
    \<open>GatewayEvents\<close>: the event stream hub and the consumer \<open>gatewayEventConsumer.js\<close>. \<open>Telemetry\<close>: the metrics
    middlewares of gateway and services.
  \<^item> \<open>BrowserStorage\<close>: \<open>utils/storage.js\<close>, \<open>trace.js\<close>. \<open>WebClient\<close>, \<open>WebClientProps\<close>: \<open>api/client.js\<close> with its interceptors, and
    \<open>AuthContext.jsx\<close>. \<open>EventStream\<close>: \<open>eventsApi.js\<close>. \<open>Realtime\<close>: \<open>RealtimeContext.jsx\<close>, \<open>useNotifications.js\<close>. \<open>WebForms\<close>:
    the transfer form, its payloads, opening an account. \<open>WebPages\<close>: the cursor stack of the list pages.
    \<open>WebViews\<close>: filters, queries, cards, the validators of the account service. \<open>WebApi\<close>: addresses, notification
    calls, refresh buttons. \<open>WebAccess\<close>: routes, guards, session modal. \<open>AdminConsole\<close>: the admin page.

  \<^bold>\<open>What the lemmas show.\<close>
  \<^item> Money: postings refine a double-entry book, whatever is asked of the ledger keeps the book sound and
    creates no money, a completed transfer has happened exactly once, a failed one has moved nothing, a known
    key posts nothing, and only the owner or staff can debit an account.
  \<^item> Coordination: locks exclude each other, are taken all or none and are always released; the breaker's
    invariant, when it trips and recovers; the limiter answers as a log of the allowed requests does;
    the client sends a transfer at most three times; the cache is coherent after an invalidation.
  \<^item> Events: the outbox loses nothing silently and delivers in order, an event is notified at most once, a
    browser that reconnects misses nothing, a live event takes effect once and the unread badge is right.
  \<^item> Access: the gateway's guard, private accounts and payments, the life of a session, the pages a visitor sees.
  \<^item> The browser: every request ends, a payment is repeated only after a 401, the form sends what the service accepts,
    which rows paging shows, and the admin page's numbers against the traffic.
  \<^item> Where the code does something else than it means to, a theorem or lemma states what it does: a lost reply pays
    twice, paging skips one row per page, an expired breaker fails outbox events, a history read suppresses
    delivery, cut-off requests stay active, an outage looks healthy on the admin page, and others named in
    the theories.

  \<^bold>\<open>Bounds.\<close> Theorems on sums of money ask for at most \<open>10\<^sup>1\<^sup>4\<close> cents (\<open>money_max\<close>), the range in which two roundings of a
  double stay within a quarter of a cent; the summary for at most 5000 rows of together \<open>10\<^sup>1\<^sup>1\<close> cents; the console for fewer
  than \<open>2\<^sup>5\<^sup>3\<close> requests. Retry counts are those of the code: three attempts of the ledger client, two retries of a
  GET, five of an outbox event, three of a notification, five draws of an account number, twenty reconnections of
  a stream, 100 buffered frames, 500 and 1000 remembered events. The loops of the code are folds over lists or
  recursions on these counts, so no other fuel is needed.

  \<^bold>\<open>Parameters.\<close> Redis, RabbitMQ, PostgreSQL's decimals, bcrypt, jsonwebtoken, uuid, \<open>express-validator\<close>, Express' path
  matching, the network and \<open>prom-client\<close>'s text are not in the repository: they are arguments of the
  definitions, with what the code relies on as laws of a locale or as hypotheses; each locale is
  interpreted on a concrete store or library, and each theorem with hypotheses has a witness.

  \<^bold>\<open>Not modelled.\<close> Log lines, latencies and the timestamps put into responses; NaN and infinities; versions of
  rows beyond all bounds; interleavings inside one critical section of the source (JavaScript runs it in one turn)
  or inside one database transaction; the connection handling of \<open>rabbitmq.js\<close>; sockets, body forwarding and
  streaming in the proxy; CORS, helmet, ports, start-up and shutdown; Swagger documents; markup, style and number
  formatting of the web application, the form library's own checks on login and signup, and the wiring of effects to
  the visibility of the page. These are input and output, configuration or code of libraries.
\<close>

end
